(* ===== verification/Go_Prelude.thy ===== *)
theory Go_Prelude
  imports "HOL-Library.State_Monad" "HOL-Library.Word"
begin

text \<open>
  What every component shares: Go's \<open>error\<close> values, the part of the Go runtime that the
  program reads (\<open>go_env\<close>), the collections of rewrite rules the component proofs use,
  and a few generic facts on lists and maps.
\<close>

section \<open>Go errors and the run-time environment\<close>

text \<open>
  An \<open>error\<close> value is one of the three kinds the program can meet: a message
  (\<open>fmt.Errorf\<close>, \<open>errors.New\<close> and the messages of the libraries), an API status
  error (\<open>StatusError reason message\<close> of \<open>k8s.io/apimachinery/pkg/api/errors\<close>),
  or a \<open>strconv.NumError\<close>. A nil \<open>error\<close> is \<open>None\<close>.
\<close>

datatype num_err = ErrSyntax | ErrRange

datatype go_error =
    ErrorString string
  | StatusError string string
  | NumError string string num_err

text \<open>
  A run-time panic is a value too: the only one this program can raise is a nil
  dereference.
\<close>

datatype go_panic = NilDereference

text \<open>
  What the Go runtime contributes and the sources do not fix: the wall clock as printed by
  \<open>time.Now().Format(time.RFC3339)\<close>, the process environment, the Unicode tables that
  \<open>strings.ToLower\<close>, \<open>strconv.Quote\<close> and the names of \<open>encoding/xml\<close> consult for text beyond
  ASCII, and what \<open>regexp.Compile\<close> answers outside the fragment modelled here.
\<close>

record go_env =
  ge_now :: string
  ge_getenv :: "string \<Rightarrow> string"
  ge_lower_unicode :: "string \<Rightarrow> string"
  ge_quote_unicode :: "string \<Rightarrow> string"
  ge_regexp :: "string \<Rightarrow> go_error + (string \<Rightarrow> bool)"
  ge_xml_first :: "nat \<Rightarrow> bool"
  ge_xml_second :: "nat \<Rightarrow> bool"

section \<open>Collections\<close>

named_theorems go_run \<open>running the monadic steps of the model\<close>
named_theorems go_frame \<open>what an operation leaves unchanged\<close>
named_theorems ascii_simps \<open>facts on ASCII characters\<close>

abbreviation ret :: "'a \<Rightarrow> ('s, 'a) state" where
  "ret \<equiv> State_Monad.return"

section \<open>Generic facts\<close>

lemma run_state_if [go_run]:
  "run_state (if b then m else n) s = (if b then run_state m s else run_state n s)"
  by simp

lemma run_state_case_sum [go_run]:
  "run_state (case x of Inl e \<Rightarrow> f e | Inr v \<Rightarrow> g v) s =
     (case x of Inl e \<Rightarrow> run_state (f e) s | Inr v \<Rightarrow> run_state (g v) s)"
  by (cases x) simp_all

lemma run_state_case_option [go_run]:
  "run_state (case x of None \<Rightarrow> m | Some v \<Rightarrow> g v) s =
     (case x of None \<Rightarrow> run_state m s | Some v \<Rightarrow> run_state (g v) s)"
  by (cases x) simp_all

lemma run_state_case_prod [go_run]:
  "run_state (case x of (a, b) \<Rightarrow> f a b) s = (case x of (a, b) \<Rightarrow> run_state (f a b) s)"
  by (cases x) simp

lemma of_char_less_256 [simp]: "(of_char c :: nat) < 256"
  by (metis of_char_mod_256 mod_less_divisor zero_less_numeral)

lemma of_char_inject [simp]: "(of_char c :: nat) = of_char d \<longleftrightarrow> c = d"
  by (metis char_of_char)

lemma find_Some_mem: "find P xs = Some x \<Longrightarrow> P x \<and> x \<in> set xs"
  by (auto simp: find_Some_iff)

lemma find_None_all: "find P xs = None \<longleftrightarrow> (\<forall>x \<in> set xs. \<not> P x)"
  by (auto simp: find_None_iff)

lemma find_append: "List.find P (xs @ ys) =
    (case List.find P xs of Some x \<Rightarrow> Some x | None \<Rightarrow> List.find P ys)"
  by (induction xs) auto

lemma find_filter: "List.find P xs = (case filter P xs of [] \<Rightarrow> None | x # _ \<Rightarrow> Some x)"
  by (induction xs) auto

lemma dom_map_upds_eq: "dom (\<lambda>k. if k \<in> S then Some (f k) else None) = S"
  by (auto split: if_splits)

end
