(* ===== verification/Go_Strings.thy ===== *)
theory Go_Strings
  imports Go_Prelude
begin

text \<open>
  The functions of Go's packages \<open>strings\<close>, \<open>path\<close> and \<open>path/filepath\<close> that the
  program calls. A Go string is a sequence of bytes: here a \<open>char list\<close>, one \<open>char\<close>
  per byte. Separators and replaced texts are single bytes everywhere in the sources.
\<close>

section \<open>Package strings\<close>

definition HasPrefix :: "string \<Rightarrow> string \<Rightarrow> bool" where
  "HasPrefix s p \<longleftrightarrow> take (length p) s = p"

definition TrimPrefix :: "string \<Rightarrow> string \<Rightarrow> string" where
  "TrimPrefix s p = (if HasPrefix s p then drop (length p) s else s)"

text \<open>\<open>strings.ReplaceAll\<close> for a one-byte old text.\<close>

definition ReplaceAll :: "string \<Rightarrow> char \<Rightarrow> string \<Rightarrow> string" where
  "ReplaceAll s old new = concat (map (\<lambda>c. if c = old then new else [c]) s)"

definition is_ascii :: "string \<Rightarrow> bool" where
  "is_ascii s \<longleftrightarrow> list_all (\<lambda>c. (of_char c :: nat) < 128) s"

definition is_upper :: "char \<Rightarrow> bool" where
  "is_upper c \<longleftrightarrow> 65 \<le> (of_char c :: nat) \<and> (of_char c :: nat) \<le> 90"

definition lower_byte :: "char \<Rightarrow> char" where
  "lower_byte c = (if is_upper c then char_of ((of_char c :: nat) + 32) else c)"

text \<open>
  \<open>strings.ToLower\<close> maps an ASCII string byte by byte; any other string goes through
  the Unicode tables.
\<close>

definition ToLower :: "go_env \<Rightarrow> string \<Rightarrow> string" where
  "ToLower env s = (if is_ascii s then map lower_byte s else ge_lower_unicode env s)"

fun Split :: "string \<Rightarrow> char \<Rightarrow> string list" where
  "Split [] sep = [[]]"
| "Split (c # cs) sep =
     (if c = sep then [] # Split cs sep
      else (case Split cs sep of [] \<Rightarrow> [[c]] | p # ps \<Rightarrow> (c # p) # ps))"

fun Join :: "string list \<Rightarrow> string \<Rightarrow> string" where
  "Join [] sep = []"
| "Join [x] sep = x"
| "Join (x # y # zs) sep = x @ sep @ Join (y # zs) sep"

subsection \<open>Facts\<close>

lemma HasPrefix_append [simp]: "HasPrefix (p @ s) p"
  by (simp add: HasPrefix_def)

lemma HasPrefix_iff: "HasPrefix s p \<longleftrightarrow> (\<exists>r. s = p @ r)"
  unfolding HasPrefix_def by (metis append_eq_conv_conj append_take_drop_id)

lemma TrimPrefix_append [simp]: "TrimPrefix (p @ s) p = s"
  by (simp add: TrimPrefix_def)

lemma TrimPrefix_not: "\<not> HasPrefix s p \<Longrightarrow> TrimPrefix s p = s"
  by (simp add: TrimPrefix_def)

lemma set_TrimPrefix: "set (TrimPrefix s p) \<subseteq> set s"
  by (auto simp: TrimPrefix_def dest: in_set_dropD)

lemma HasPrefix_set: "HasPrefix s p \<Longrightarrow> set p \<subseteq> set s"
  by (metis HasPrefix_def set_take_subset)

lemma ReplaceAll_Nil [simp]: "ReplaceAll [] a b = []"
  by (simp add: ReplaceAll_def)

lemma ReplaceAll_Cons [simp]:
  "ReplaceAll (c # s) a b = (if c = a then b else [c]) @ ReplaceAll s a b"
  by (simp add: ReplaceAll_def)

lemma ReplaceAll_append: "ReplaceAll (s @ t) a b = ReplaceAll s a b @ ReplaceAll t a b"
  by (simp add: ReplaceAll_def)

lemma set_ReplaceAll: "set (ReplaceAll s a b) \<subseteq> (set s - {a}) \<union> set b"
  by (induction s) (auto split: if_splits)

lemma ReplaceAll_id: "a \<notin> set s \<Longrightarrow> ReplaceAll s a b = s"
  by (induction s) auto

lemma is_ascii_simps [simp]:
  "is_ascii []"
  "is_ascii (c # s) \<longleftrightarrow> (of_char c :: nat) < 128 \<and> is_ascii s"
  "is_ascii (s @ t) \<longleftrightarrow> is_ascii s \<and> is_ascii t"
  by (simp_all add: is_ascii_def)

lemma is_ascii_mono: "is_ascii s \<Longrightarrow> set t \<subseteq> set s \<Longrightarrow> is_ascii t"
  by (auto simp: is_ascii_def list_all_iff)

lemma is_ascii_TrimPrefix: "is_ascii s \<Longrightarrow> is_ascii (TrimPrefix s p)"
  by (rule is_ascii_mono [OF _ set_TrimPrefix])

lemma is_ascii_ReplaceAll: "is_ascii s \<Longrightarrow> is_ascii b \<Longrightarrow> is_ascii (ReplaceAll s a b)"
  by (induction s) auto

lemma of_char_lower_byte:
  "(of_char (lower_byte c) :: nat) = (if is_upper c then of_char c + 32 else of_char c)"
  by (simp add: lower_byte_def is_upper_def)

lemma lower_byte_not_upper [ascii_simps]: "\<not> is_upper (lower_byte c)"
  by (auto simp: is_upper_def of_char_lower_byte)

lemma lower_byte_id [ascii_simps]: "\<not> is_upper c \<Longrightarrow> lower_byte c = c"
  by (simp add: lower_byte_def)

lemma lower_byte_ascii [ascii_simps]:
  "(of_char c :: nat) < 128 \<Longrightarrow> (of_char (lower_byte c) :: nat) < 128"
  by (simp add: of_char_lower_byte is_upper_def)

lemma is_ascii_ToLower: "is_ascii s \<Longrightarrow> is_ascii (ToLower env s)"
  by (auto simp: ToLower_def is_ascii_def list_all_iff lower_byte_ascii)

lemma ToLower_no_upper: "is_ascii s \<Longrightarrow> c \<in> set (ToLower env s) \<Longrightarrow> \<not> is_upper c"
  by (auto simp: ToLower_def lower_byte_not_upper)

lemma ToLower_id: "is_ascii s \<Longrightarrow> (\<And>c. c \<in> set s \<Longrightarrow> \<not> is_upper c) \<Longrightarrow> ToLower env s = s"
  by (simp add: ToLower_def lower_byte_id map_idI)

lemma Split_not_Nil [simp]: "Split s sep \<noteq> []"
  by (induction s) (auto split: list.splits)

lemma Split_no_sep: "p \<in> set (Split s sep) \<Longrightarrow> sep \<notin> set p"
  by (induction s arbitrary: p) (auto split: list.splits if_splits)

lemma Join_Cons: "xs \<noteq> [] \<Longrightarrow> Join (x # xs) sep = x @ sep @ Join xs sep"
  by (cases xs) auto

lemma Join_Cons_Cons: "Join ((c # p) # ps) sep = c # Join (p # ps) sep"
  by (cases ps) auto

text \<open>\<open>strings.Join\<close> undoes \<open>strings.Split\<close>, for every string.\<close>

lemma Join_Split: "Join (Split s sep) [sep] = s"
proof (induction s)
  case Nil
  then show ?case by simp
next
  case (Cons c s)
  show ?case
  proof (cases "c = sep")
    case True
    with Cons.IH show ?thesis by (simp add: Join_Cons)
  next
    case False
    obtain p ps where "Split s sep = p # ps" by (cases "Split s sep") auto
    with False Cons.IH show ?thesis by (simp add: Join_Cons_Cons)
  qed
qed

lemma Split_id: "sep \<notin> set s \<Longrightarrow> Split s sep = [s]"
  by (induction s) auto

lemma Split_append: "sep \<notin> set p \<Longrightarrow> Split (p @ sep # s) sep = p # Split s sep"
  by (induction p) auto

lemma Split_Join:
  "xs \<noteq> [] \<Longrightarrow> (\<And>x. x \<in> set xs \<Longrightarrow> sep \<notin> set x) \<Longrightarrow> Split (Join xs [sep]) sep = xs"
proof (induction xs rule: induct_list012)
  case (3 x y zs)
  then show ?case by (simp add: Split_append)
qed (auto simp: Split_id)

section \<open>Packages path and path/filepath\<close>

text \<open>
  \<open>Clean\<close> processes the slash-separated elements in order: empty elements and \<open>.\<close>
  vanish, \<open>..\<close> removes the element before it, at the root of an absolute path it
  vanishes, at the start of a relative one it stays. The stack holds the elements kept so
  far, last first.
\<close>

fun clean_elems :: "bool \<Rightarrow> string list \<Rightarrow> string list \<Rightarrow> string list" where
  "clean_elems rooted stk [] = rev stk"
| "clean_elems rooted stk (e # es) =
     (if e = [] \<or> e = ''.'' then clean_elems rooted stk es
      else if e = ''..'' then
        (case stk of
           [] \<Rightarrow> clean_elems rooted (if rooted then [] else [e]) es
         | t # ts \<Rightarrow> if t = ''..'' then clean_elems rooted (e # stk) es
                    else clean_elems rooted ts es)
      else clean_elems rooted (e # stk) es)"

definition Clean :: "string \<Rightarrow> string" where
  "Clean p =
     (if p = [] then ''.''
      else let rooted = (hd p = CHR ''/'');
               out = Join (clean_elems rooted [] (Split p (CHR ''/''))) ''/''
           in if rooted then CHR ''/'' # out else if out = [] then ''.'' else out)"

text \<open>\<open>Join\<close> starts at the first element that is not empty.\<close>

definition path_Join :: "string list \<Rightarrow> string" where
  "path_Join elems =
     (case dropWhile (\<lambda>e. e = []) elems of [] \<Rightarrow> [] | es \<Rightarrow> Clean (Join es ''/''))"

text \<open>An element that stands for a real name.\<close>

definition plain_elem :: "string \<Rightarrow> bool" where
  "plain_elem e \<longleftrightarrow> e \<noteq> [] \<and> e \<noteq> ''.'' \<and> e \<noteq> ''..''"

lemma clean_elems_rooted_step:
  assumes "list_all plain_elem stk"
  shows "clean_elems True stk (e # es) =
    clean_elems True (if plain_elem e then e # stk else if e = ''..'' then tl stk else stk) es"
  using assms by (cases stk) (auto simp: plain_elem_def)

lemma clean_elems_rooted:
  "list_all plain_elem stk \<Longrightarrow> list_all plain_elem (clean_elems True stk es)"
proof (induction es arbitrary: stk)
  case Nil
  then show ?case by (simp add: list_all_iff)
next
  case (Cons e es)
  have "list_all plain_elem (if plain_elem e then e # stk else if e = ''..'' then tl stk else stk)"
    using Cons.prems by (cases stk) auto
  from Cons.IH [OF this] show ?case
    by (simp only: clean_elems_rooted_step [OF Cons.prems])
qed

lemma clean_elems_subset:
  "set (clean_elems r stk es) \<subseteq> set stk \<union> set es"
proof (induction r stk es rule: clean_elems.induct)
  case (2 rooted stk e es)
  then show ?case by (cases stk) (auto split: if_splits)
qed simp

lemma clean_elems_no_dotdot:
  "''..'' \<notin> set es \<Longrightarrow> clean_elems r stk es = rev stk @ filter plain_elem es"
  by (induction es arbitrary: stk) (auto simp: plain_elem_def)

text \<open>Joining a path below an absolute directory of one element.\<close>

lemma path_Join_below:
  assumes "plain_elem d" and "CHR ''/'' \<notin> set d"
  shows "path_Join [CHR ''/'' # d, f] =
    CHR ''/'' # Join (clean_elems True [d] (Split f (CHR ''/''))) ''/''"
proof -
  have "Split (CHR ''/'' # d @ CHR ''/'' # f) (CHR ''/'') = [] # d # Split f (CHR ''/'')"
    using assms(2) by (simp add: Split_append)
  with assms(1) show ?thesis
    by (simp add: path_Join_def Clean_def Let_def plain_elem_def)
qed

lemma Clean_plain:
  assumes "list_all plain_elem es" and "\<forall>e \<in> set es. CHR ''/'' \<notin> set e"
  shows "Clean (CHR ''/'' # Join es ''/'') = CHR ''/'' # Join es ''/''"
proof (cases "es = []")
  case False
  have "Split (CHR ''/'' # Join es ''/'') (CHR ''/'') = [] # es"
    using Split_Join [OF False, of "CHR ''/''"] assms(2) by simp
  moreover have "filter plain_elem es = es" "''..'' \<notin> set es"
    using assms(1) by (auto simp: list_all_iff plain_elem_def)
  ultimately show ?thesis by (simp add: Clean_def Let_def clean_elems_no_dotdot)
qed (simp add: Clean_def)

end
