(* ===== verification/Go_Strconv.thy ===== *)
theory Go_Strconv
  imports Go_Strings
begin

text \<open>
  The conversions of Go's package \<open>strconv\<close> that the program calls: \<open>Atoi\<close> with its
  fast path and the \<open>ParseInt\<close>/\<open>ParseUint\<close> path behind it, on 64-bit words,
  \<open>ParseBool\<close>, and \<open>Quote\<close>, which the text of a conversion error uses. An \<open>int\<close> of
  the program is a 64-bit word read in two's complement (\<open>sint\<close>).
\<close>

section \<open>Numbers\<close>

text \<open>The byte arithmetic \<open>ch - '0'\<close> wraps around, so one comparison tests for a digit.\<close>

definition digit_byte :: "char \<Rightarrow> 8 word" where
  "digit_byte c = of_char c - 48"

definition is_digit :: "char \<Rightarrow> bool" where
  "is_digit c \<longleftrightarrow> 48 \<le> (of_char c :: nat) \<and> (of_char c :: nat) \<le> 57"

definition is_sign :: "char \<Rightarrow> bool" where
  "is_sign c \<longleftrightarrow> c = CHR ''-'' \<or> c = CHR ''+''"

text \<open>The fast path of \<open>Atoi\<close>: at most 18 bytes, so the sum cannot overflow.\<close>

fun atoi_fast_loop :: "string \<Rightarrow> 64 word \<Rightarrow> num_err + 64 word" where
  "atoi_fast_loop [] n = Inr n"
| "atoi_fast_loop (c # cs) n =
     (if 9 < digit_byte c then Inl ErrSyntax
      else atoi_fast_loop cs (n * 10 + ucast (digit_byte c)))"

definition atoi_fast :: "string \<Rightarrow> num_err + 64 word" where
  "atoi_fast s =
     (case s of
        [] \<Rightarrow> Inl ErrSyntax
      | c # cs \<Rightarrow>
          if is_sign c \<and> cs = [] then Inl ErrSyntax
          else (case atoi_fast_loop (if is_sign c then cs else s) 0 of
                  Inl e \<Rightarrow> Inl e
                | Inr n \<Rightarrow> Inr (if c = CHR ''-'' then - n else n)))"

text \<open>\<open>ParseUint\<close> in base 10: the cutoff is the least \<open>n\<close> with \<open>n * 10 \<ge> 2 ^ 64\<close>.\<close>

definition cutoff10 :: "64 word" where
  "cutoff10 = 1844674407370955162"

fun parse_uint_loop :: "string \<Rightarrow> 64 word \<Rightarrow> num_err + 64 word" where
  "parse_uint_loop [] n = Inr n"
| "parse_uint_loop (c # cs) n =
     (if \<not> is_digit c then Inl ErrSyntax
      else if cutoff10 \<le> n then Inl ErrRange
      else let n10 = n * 10; n1 = n10 + ucast (digit_byte c)
           in if n1 < n10 then Inl ErrRange else parse_uint_loop cs n1)"

definition ParseUint :: "string \<Rightarrow> num_err + 64 word" where
  "ParseUint s = (if s = [] then Inl ErrSyntax else parse_uint_loop s 0)"

definition ParseInt :: "string \<Rightarrow> num_err + 64 word" where
  "ParseInt s =
     (case s of
        [] \<Rightarrow> Inl ErrSyntax
      | c # cs \<Rightarrow>
          (case ParseUint (if is_sign c then cs else s) of
             Inl e \<Rightarrow> Inl e
           | Inr un \<Rightarrow>
               if c \<noteq> CHR ''-'' \<and> 2 ^ 63 \<le> un then Inl ErrRange
               else if c = CHR ''-'' \<and> 2 ^ 63 < un then Inl ErrRange
               else Inr (if c = CHR ''-'' then - un else un)))"

definition Atoi :: "string \<Rightarrow> go_error + 64 word" where
  "Atoi s =
     (case (if 0 < length s \<and> length s < 19 then atoi_fast s else ParseInt s) of
        Inl e \<Rightarrow> Inl (NumError ''Atoi'' s e)
      | Inr n \<Rightarrow> Inr n)"

section \<open>Booleans\<close>

definition true_literals :: "string list" where
  "true_literals = [''1'', ''t'', ''T'', ''true'', ''TRUE'', ''True'']"

definition false_literals :: "string list" where
  "false_literals = [''0'', ''f'', ''F'', ''false'', ''FALSE'', ''False'']"

definition ParseBool :: "string \<Rightarrow> go_error + bool" where
  "ParseBool s =
     (if s \<in> set true_literals then Inr True
      else if s \<in> set false_literals then Inr False
      else Inl (NumError ''ParseBool'' s ErrSyntax))"

section \<open>The text of an error\<close>

definition hex_digit :: "nat \<Rightarrow> char" where
  "hex_digit n = ''0123456789abcdef'' ! (n mod 16)"

definition quote_byte :: "char \<Rightarrow> string" where
  "quote_byte c =
     (let n = (of_char c :: nat) in
      if n = 34 \<or> n = 92 then [char_of (92::nat), c]
      else if 32 \<le> n \<and> n < 127 then [c]
      else if n = 7 then char_of (92::nat) # ''a''
      else if n = 8 then char_of (92::nat) # ''b''
      else if n = 12 then char_of (92::nat) # ''f''
      else if n = 10 then char_of (92::nat) # ''n''
      else if n = 13 then char_of (92::nat) # ''r''
      else if n = 9 then char_of (92::nat) # ''t''
      else if n = 11 then char_of (92::nat) # ''v''
      else if n < 32 then char_of (92::nat) # ''x'' @ [hex_digit (n div 16), hex_digit n]
      else char_of (92::nat) # ''u00'' @ [hex_digit (n div 16), hex_digit n])"

definition Quote :: "go_env \<Rightarrow> string \<Rightarrow> string" where
  "Quote env s =
     (if is_ascii s then CHR 0x22 # concat (map quote_byte s) @ [CHR 0x22]
      else ge_quote_unicode env s)"

fun num_err_text :: "num_err \<Rightarrow> string" where
  "num_err_text ErrSyntax = ''invalid syntax''"
| "num_err_text ErrRange = ''value out of range''"

text \<open>The method \<open>Error()\<close> of each kind of error.\<close>

fun error_text :: "go_env \<Rightarrow> go_error \<Rightarrow> string" where
  "error_text env (ErrorString m) = m"
| "error_text env (StatusError reason m) = m"
| "error_text env (NumError fn num e) =
     ''strconv.'' @ fn @ '': parsing '' @ Quote env num @ '': '' @ num_err_text e"

section \<open>What the conversions compute\<close>

text \<open>The reference reading of a decimal literal, on unbounded numbers.\<close>

definition digit_val :: "char \<Rightarrow> nat" where
  "digit_val c = of_char c - 48"

fun dec_val :: "string \<Rightarrow> nat \<Rightarrow> nat" where
  "dec_val [] n = n"
| "dec_val (c # cs) n = dec_val cs (n * 10 + digit_val c)"

definition unsigned_part :: "string \<Rightarrow> string" where
  "unsigned_part s = (case s of [] \<Rightarrow> [] | c # cs \<Rightarrow> if is_sign c then cs else s)"

definition is_int_literal :: "string \<Rightarrow> bool" where
  "is_int_literal s \<longleftrightarrow> unsigned_part s \<noteq> [] \<and> list_all is_digit (unsigned_part s)"

definition int_literal :: "string \<Rightarrow> int" where
  "int_literal s =
     (if s \<noteq> [] \<and> hd s = CHR ''-'' then - int (dec_val (unsigned_part s) 0)
      else int (dec_val (unsigned_part s) 0))"

definition in_int64 :: "int \<Rightarrow> bool" where
  "in_int64 i \<longleftrightarrow> - (2 ^ 63) \<le> i \<and> i < 2 ^ 63"

subsection \<open>Digits\<close>

lemma unat_digit_byte:
  "unat (digit_byte c) = (if 48 \<le> (of_char c :: nat) then of_char c - 48 else of_char c + 208)"
proof -
  have eq: "digit_byte c = word_of_nat (of_char c) - 48"
    by (simp add: digit_byte_def of_nat_of_char)
  have lt: "(of_char c :: nat) < 256" by simp
  then have u: "unat (word_of_nat (of_char c) :: 8 word) = of_char c"
    by (simp add: unat_of_nat)
  show ?thesis
    unfolding eq using lt by (subst unat_sub_if') (auto simp: u word_le_nat_alt)
qed

lemma digit_byte_le: "9 < digit_byte c \<longleftrightarrow> \<not> is_digit c"
  using of_char_less_256 [of c]
  by (auto simp: word_less_nat_alt unat_digit_byte is_digit_def)

lemma unat_digit_byte_digit:
  "is_digit c \<Longrightarrow> unat (digit_byte c) = digit_val c"
  by (simp add: unat_digit_byte digit_val_def is_digit_def)

lemma digit_val_le: "is_digit c \<Longrightarrow> digit_val c \<le> 9"
  unfolding digit_val_def is_digit_def by linarith

lemma unat_ucast_digit:
  "is_digit c \<Longrightarrow> unat (ucast (digit_byte c) :: 64 word) = digit_val c"
  using digit_val_le [of c]
  by (simp add: unsigned_ucast_eq unat_digit_byte_digit take_bit_nat_eq_self)

lemma sign_not_digit: "is_sign c \<Longrightarrow> \<not> is_digit c"
  by (auto simp: is_sign_def is_digit_def)

subsection \<open>The value of a digit string\<close>

lemma dec_val_ge: "n \<le> dec_val s n"
proof (induction s arbitrary: n)
  case (Cons c s)
  have "n \<le> n * 10 + digit_val c" by simp
  also have "\<dots> \<le> dec_val s (n * 10 + digit_val c)" by (rule Cons.IH)
  finally show ?case by simp
qed simp

lemma dec_val_less:
  "list_all is_digit s \<Longrightarrow> dec_val s n < (n + 1) * 10 ^ length s"
proof (induction s arbitrary: n)
  case (Cons c s)
  have "dec_val s (n * 10 + digit_val c) < (n * 10 + digit_val c + 1) * 10 ^ length s"
    using Cons by simp
  also have "\<dots> \<le> ((n + 1) * 10) * 10 ^ length s"
    using digit_val_le [of c] Cons.prems by (intro mult_right_mono) auto
  finally show ?case by (simp add: algebra_simps)
qed simp

subsection \<open>The loops\<close>

lemma atoi_fast_loop_syntax: "\<not> list_all is_digit s \<Longrightarrow> atoi_fast_loop s n = Inl ErrSyntax"
  by (induction s arbitrary: n) (auto simp: digit_byte_le)

lemma atoi_fast_loop_value:
  assumes "list_all is_digit s" and "(unat n + 1) * 10 ^ length s \<le> 2 ^ 63"
  shows "\<exists>w. atoi_fast_loop s n = Inr w \<and> unat w = dec_val s (unat n)"
  using assms
proof (induction s arbitrary: n)
  case (Cons c s)
  let ?m = "n * 10 + ucast (digit_byte c)"
  from Cons.prems have d: "is_digit c" by simp
  have pow: "(unat n + 1) * 10 ^ length (c # s) = (unat n + 1) * 10 * 10 ^ length s"
    by (simp add: algebra_simps)
  have "(unat n + 1) * 10 \<le> (unat n + 1) * 10 * 10 ^ length s" by simp
  with Cons.prems(2) pow have small: "(unat n + 1) * 10 \<le> 2 ^ 63" by linarith
  have m: "unat ?m = unat n * 10 + digit_val c"
    using small digit_val_le [OF d]
    by (simp add: unat_word_ariths unat_ucast_digit [OF d])
  have "(unat ?m + 1) * 10 ^ length s \<le> (unat n + 1) * 10 * 10 ^ length s"
    using digit_val_le [OF d] by (intro mult_right_mono) (simp_all add: m)
  with Cons.prems(2) pow have "(unat ?m + 1) * 10 ^ length s \<le> 2 ^ 63" by linarith
  with Cons.IH [of ?m] Cons.prems(1) d show ?case by (simp add: digit_byte_le m)
qed simp

lemma parse_uint_loop_iff:
  "parse_uint_loop s n = Inr w \<longleftrightarrow>
     list_all is_digit s \<and> dec_val s (unat n) < 2 ^ 64 \<and> w = word_of_nat (dec_val s (unat n))"
proof (induction s arbitrary: n)
  case Nil
  then show ?case using unsigned_less [of n] by auto
next
  case (Cons c s)
  show ?case
  proof (cases "is_digit c")
    case False
    then show ?thesis by simp
  next
    case d: True
    let ?n10 = "n * 10" and ?n1 = "n * 10 + ucast (digit_byte c)"
    have step: "unat n * 10 + digit_val c \<le> dec_val s (unat n * 10 + digit_val c)"
      by (rule dec_val_ge)
    show ?thesis
    proof (cases "cutoff10 \<le> n")
      case True
      then have "2 ^ 64 \<le> unat n * 10 + digit_val c"
        by (simp add: word_le_nat_alt cutoff10_def)
      with step True d show ?thesis by simp
    next
      case below: False
      then have "unat n * 10 < 2 ^ 64" by (simp add: word_le_nat_alt cutoff10_def)
      then have u10: "unat ?n10 = unat n * 10" by (simp add: unat_word_ariths)
      have u1: "unat ?n1 = (unat n * 10 + digit_val c) mod 2 ^ 64"
        by (simp add: unat_word_ariths unat_ucast_digit [OF d] mod_simps)
      show ?thesis
      proof (cases "unat n * 10 + digit_val c < 2 ^ 64")
        case True
        with u1 have "unat ?n1 = unat n * 10 + digit_val c" by simp
        moreover from this u10 have "\<not> ?n1 < ?n10" by (simp add: word_less_nat_alt)
        ultimately show ?thesis using below d Cons.IH [of ?n1] by (simp add: Let_def)
      next
        case False
        with \<open>unat n * 10 < 2 ^ 64\<close> digit_val_le [OF d]
        have "(unat n * 10 + digit_val c) mod 2 ^ 64 = unat n * 10 + digit_val c - 2 ^ 64"
          by (simp add: le_mod_geq)
        with False digit_val_le [OF d] have "unat ?n1 < unat ?n10"
          by (simp add: u1 u10)
        then have "?n1 < ?n10" by (simp add: word_less_nat_alt)
        with False step below d show ?thesis by (simp add: Let_def)
      qed
    qed
  qed
qed

text \<open>A text of at most 18 bytes never overflows, so the only error is the syntax one.\<close>

lemma parse_uint_loop_short:
  "(unat n + 1) * 10 ^ length s \<le> 2 ^ 63 \<Longrightarrow> \<not> list_all is_digit s \<Longrightarrow>
     parse_uint_loop s n = Inl ErrSyntax"
proof (induction s arbitrary: n)
  case (Cons c s)
  show ?case
  proof (cases "is_digit c")
    case d: True
    let ?m = "n * 10 + ucast (digit_byte c)"
    have pow: "(unat n + 1) * 10 ^ length (c # s) = (unat n + 1) * 10 * 10 ^ length s"
      by (simp add: algebra_simps)
    have "(unat n + 1) * 10 \<le> (unat n + 1) * 10 * 10 ^ length s" by simp
    with Cons.prems(1) pow have small: "(unat n + 1) * 10 \<le> 2 ^ 63" by linarith
    then have u10: "unat (n * 10) = unat n * 10" by (simp add: unat_word_ariths)
    have m: "unat ?m = unat n * 10 + digit_val c"
      using small digit_val_le [OF d] by (simp add: unat_word_ariths unat_ucast_digit [OF d])
    have "(unat ?m + 1) * 10 ^ length s \<le> (unat n + 1) * 10 * 10 ^ length s"
      using digit_val_le [OF d] by (intro mult_right_mono) (simp_all add: m)
    with Cons.prems(1) pow have "(unat ?m + 1) * 10 ^ length s \<le> 2 ^ 63" by linarith
    moreover from Cons.prems(2) d have "\<not> list_all is_digit s" by simp
    ultimately have "parse_uint_loop s ?m = Inl ErrSyntax" by (rule Cons.IH)
    moreover have "\<not> cutoff10 \<le> n" using small by (simp add: cutoff10_def word_le_nat_alt)
    moreover have "\<not> ?m < n * 10" by (simp add: word_less_nat_alt m u10)
    ultimately show ?thesis using d by (simp add: Let_def)
  qed simp
qed simp

subsection \<open>Atoi reads decimal literals\<close>

lemma is_int_literal_Cons:
  "is_int_literal (c # cs) \<longleftrightarrow>
     (if is_sign c then cs \<noteq> [] \<and> list_all is_digit cs else list_all is_digit (c # cs))"
  by (simp add: is_int_literal_def unsigned_part_def)

lemma parse_uint_loop_bounded:
  "list_all is_digit s \<Longrightarrow> dec_val s 0 < 2 ^ 64 \<Longrightarrow>
     parse_uint_loop s 0 = Inr (word_of_nat (dec_val s 0))"
  by (simp add: parse_uint_loop_iff)

lemma atoi_fast_loop_small:
  assumes "list_all is_digit s" and "length s \<le> 18"
  shows "atoi_fast_loop s 0 = Inr (word_of_nat (dec_val s 0)) \<and> dec_val s 0 < 2 ^ 63"
proof -
  have "(10::nat) ^ length s \<le> 10 ^ 18" using assms(2) by (intro power_increasing) auto
  then have pow: "(10::nat) ^ length s \<le> 2 ^ 63" by simp
  from atoi_fast_loop_value [OF assms(1), of 0] pow
  obtain w where "atoi_fast_loop s 0 = Inr w" "unat w = dec_val s 0" by auto
  moreover from this(2) have "w = word_of_nat (dec_val s 0)"
    by (metis of_nat_unat ucast_id)
  moreover have "dec_val s 0 < 2 ^ 63"
    using less_le_trans [OF dec_val_less [OF assms(1), of 0]] pow by simp
  ultimately show ?thesis by simp
qed

text \<open>The fast path agrees with the general one wherever it is taken.\<close>

lemma atoi_fast_eq_ParseInt:
  assumes "0 < length s" and "length s < 19"
  shows "atoi_fast s = ParseInt s"
proof -
  obtain c cs where s: "s = c # cs" using assms(1) by (cases s) auto
  let ?u = "if is_sign c then cs else s"
  show ?thesis
  proof (cases "?u \<noteq> [] \<and> list_all is_digit ?u")
    case True
    then have digits: "list_all is_digit ?u" and ne: "?u \<noteq> []" by blast+
    have len: "length ?u \<le> 18" using assms(2) s by (auto split: if_splits)
    from atoi_fast_loop_small [OF digits len]
    have fast: "atoi_fast_loop ?u 0 = Inr (word_of_nat (dec_val ?u 0))"
      and bound: "dec_val ?u 0 < 2 ^ 63" by blast+
    from bound have slow: "ParseUint ?u = Inr (word_of_nat (dec_val ?u 0))"
      using parse_uint_loop_bounded [OF digits] ne by (simp add: ParseUint_def)
    have "(word_of_nat (dec_val ?u 0) :: 64 word) < 2 ^ 63"
      using bound by (simp add: word_less_nat_alt unat_of_nat)
    with fast slow ne show ?thesis by (auto simp: atoi_fast_def ParseInt_def s)
  next
    case False
    then consider "?u = []" | "?u \<noteq> []" "\<not> list_all is_digit ?u" by blast
    then show ?thesis
    proof cases
      case 1
      then show ?thesis by (auto simp: atoi_fast_def ParseInt_def ParseUint_def s split: if_splits)
    next
      case 2
      have "parse_uint_loop ?u 0 = Inl ErrSyntax"
      proof (rule parse_uint_loop_short [OF _ 2(2)])
        have "length ?u \<le> 18" using assms(2) s by (auto split: if_splits)
        then have "(10::nat) ^ length ?u \<le> 10 ^ 18" by (intro power_increasing) auto
        then show "(unat (0::64 word) + 1) * 10 ^ length ?u \<le> 2 ^ 63" by simp
      qed
      moreover have "atoi_fast_loop ?u 0 = Inl ErrSyntax"
        by (rule atoi_fast_loop_syntax [OF 2(2)])
      ultimately show ?thesis using 2(1) by (auto simp add: atoi_fast_def ParseInt_def ParseUint_def s
        simp del: atoi_fast_loop.simps parse_uint_loop.simps)
    qed
  qed
qed

lemma sint_word_of_int64: "in_int64 i \<Longrightarrow> sint (word_of_int i :: 64 word) = i"
  unfolding in_int64_def by (simp add: signed_of_int signed_take_bit_int_eq_self)

lemma word_of_nat_less_64:
  assumes "v < 2 ^ 64"
  shows "(2 ^ 63 \<le> (word_of_nat v :: 64 word) \<longleftrightarrow> 2 ^ 63 \<le> v)
    \<and> (2 ^ 63 < (word_of_nat v :: 64 word) \<longleftrightarrow> 2 ^ 63 < v)"
  using assms by (simp add: word_less_nat_alt word_le_nat_alt unat_of_nat)

lemma ParseInt_iff:
  "ParseInt s = Inr w \<longleftrightarrow>
     is_int_literal s \<and> in_int64 (int_literal s) \<and> w = word_of_int (int_literal s)"
proof (cases s)
  case Nil
  then show ?thesis by (simp add: ParseInt_def is_int_literal_def unsigned_part_def)
next
  case s: (Cons c cs)
  let ?u = "unsigned_part s" and ?v = "dec_val (unsigned_part s) 0"
  have run: "ParseInt s = (case ParseUint ?u of Inl e \<Rightarrow> Inl e
    | Inr un \<Rightarrow>
        if c \<noteq> CHR ''-'' \<and> 2 ^ 63 \<le> un then Inl ErrRange
        else if c = CHR ''-'' \<and> 2 ^ 63 < un then Inl ErrRange
        else Inr (if c = CHR ''-'' then - un else un))"
    by (simp add: ParseInt_def s unsigned_part_def)
  have neg: "int_literal s = (if c = CHR ''-'' then - int ?v else int ?v)"
    by (simp add: int_literal_def s)
  show ?thesis
  proof (cases "is_int_literal s \<and> ?v < 2 ^ 64")
    case True
    then have "ParseUint ?u = Inr (word_of_nat ?v)"
      using parse_uint_loop_bounded [of ?u] by (simp add: ParseUint_def is_int_literal_def)
    moreover have "2 ^ 63 \<le> (word_of_nat ?v :: 64 word) \<longleftrightarrow> 2 ^ 63 \<le> ?v"
      and "2 ^ 63 < (word_of_nat ?v :: 64 word) \<longleftrightarrow> 2 ^ 63 < ?v"
      using word_of_nat_less_64 [of ?v] True by blast+
    ultimately have "ParseInt s =
      (if c \<noteq> CHR ''-'' \<and> 2 ^ 63 \<le> ?v then Inl ErrRange
       else if c = CHR ''-'' \<and> 2 ^ 63 < ?v then Inl ErrRange
       else Inr (if c = CHR ''-'' then - word_of_nat ?v else word_of_nat ?v))"
      by (simp only: run sum.case)
    with True show ?thesis by (auto simp: neg in_int64_def)
  next
    case False
    have "\<exists>e. ParseUint ?u = Inl e"
    proof (rule ccontr)
      assume "\<nexists>e. ParseUint ?u = Inl e"
      then obtain w where w: "ParseUint ?u = Inr w" by (cases "ParseUint ?u") auto
      then have ne: "?u \<noteq> []" by (auto simp: ParseUint_def)
      with w have "parse_uint_loop ?u 0 = Inr w" by (simp add: ParseUint_def)
      with ne False show False by (simp add: parse_uint_loop_iff is_int_literal_def)
    qed
    then obtain e where "ParseUint ?u = Inl e" by blast
    then have "ParseInt s = Inl e" by (simp only: run sum.case)
    with False show ?thesis by (auto simp: neg in_int64_def)
  qed
qed

lemma Atoi_eq: "Atoi s =
  (case ParseInt s of Inl e \<Rightarrow> Inl (NumError ''Atoi'' s e) | Inr n \<Rightarrow> Inr n)"
  by (simp add: Atoi_def atoi_fast_eq_ParseInt)

text \<open>
  \<open>Atoi\<close> accepts exactly the decimal literals (digits with at most one leading sign)
  whose value fits in a 64-bit signed integer, and then returns that value; the wrap-around
  of the word arithmetic and the choice of the fast path never show.
\<close>

theorem Atoi_correct:
  "(\<exists>w. Atoi s = Inr w \<and> sint w = i) \<longleftrightarrow>
     is_int_literal s \<and> int_literal s = i \<and> in_int64 i"
proof -
  have "Atoi s = Inr w \<longleftrightarrow> ParseInt s = Inr w" for w
    by (simp add: Atoi_eq split: sum.split)
  then show ?thesis by (auto simp: ParseInt_iff sint_word_of_int64)
qed

end
