(* ===== verification/API_Types.thy ===== *)
theory API_Types
  imports Go_Strconv
begin

text \<open>
  The data of the API group \<open>compliance.openshift.io/v1alpha1\<close>
  (\<open>pkg/apis/compliance/v1alpha1\<close>) and the parts of \<open>metav1\<close> and \<open>corev1\<close> objects
  that the program reads or writes. One record per Go struct; a Go string type with named
  constants stays a string, because a stored object may hold any text. A nil map is
  \<open>None\<close> where the code tests for it. Fields of \<open>ObjectMeta\<close> and of the Pod that no
  source line touches are left out.
\<close>

section \<open>Object metadata\<close>

record type_meta =
  tm_Kind :: string
  tm_APIVersion :: string

record owner_reference =
  or_APIVersion :: string
  or_Kind :: string
  or_Name :: string
  or_UID :: string
  or_Controller :: "bool option"
  or_BlockOwnerDeletion :: "bool option"

record object_meta =
  om_Name :: string
  om_Namespace :: string
  om_UID :: string
  om_Labels :: "string \<rightharpoonup> string"
  om_Annotations :: "(string \<rightharpoonup> string) option"
  om_OwnerReferences :: "owner_reference list"

text \<open>An object literal sets a few fields; the others have Go's zero values.\<close>

definition zero_meta :: object_meta where
  "zero_meta = \<lparr>om_Name = [], om_Namespace = [], om_UID = [], om_Labels = Map.empty,
     om_Annotations = None, om_OwnerReferences = []\<rparr>"

record nsname =
  nn_Namespace :: string
  nn_Name :: string

abbreviation nsn :: "string \<Rightarrow> string \<Rightarrow> nsname" where
  "nsn ns n \<equiv> \<lparr>nn_Namespace = ns, nn_Name = n\<rparr>"

definition key_of :: "object_meta \<Rightarrow> nsname" where
  "key_of m = nsn (om_Namespace m) (om_Name m)"

text \<open>
  Free-form JSON, the content of \<open>unstructured.Unstructured\<close>. A number is an \<open>int64\<close>, the bits
  of a \<open>float64\<close>, or the text of a \<open>json.Number\<close>.
\<close>

datatype json =
    JNull
  | JString string
  | JBool bool
  | JInt64 "64 word"
  | JFloat64 "64 word"
  | JNumber string
  | JArray "json list"
  | JObject "(string \<times> json) list"

section \<open>ProfileBundle\<close>

definition DataStreamPending :: string where "DataStreamPending = ''PENDING''"
definition DataStreamValid :: string where "DataStreamValid = ''VALID''"
definition DataStreamInvalid :: string where "DataStreamInvalid = ''INVALID''"

record profile_bundle_spec =
  pbs_ContentImage :: string
  pbs_ContentFile :: string

record profile_bundle_status =
  pbst_DataStreamStatus :: string
  pbst_ErrorMessage :: string

record profile_bundle =
  pb_TypeMeta :: type_meta
  pb_Meta :: object_meta
  pb_Spec :: profile_bundle_spec
  pb_Status :: profile_bundle_status

section \<open>Profile\<close>

type_synonym profile_rule = string
type_synonym profile_value = string

definition NewProfileRule :: "string \<Rightarrow> profile_rule" where
  "NewProfileRule rule = rule"

record profile =
  pr_TypeMeta :: type_meta
  pr_Meta :: object_meta
  pr_Title :: string
  pr_Description :: string
  pr_ID :: string
  pr_Rules :: "profile_rule list"
  pr_Values :: "profile_value list"

section \<open>Rule\<close>

definition RuleIDAnnotationKey :: string where
  "RuleIDAnnotationKey = ''compliance.openshift.io/rule''"

record fix_definition =
  fd_Platform :: string
  fd_Disruption :: string
  fd_FixObject :: "json option"

record rule =
  ru_TypeMeta :: type_meta
  ru_Meta :: object_meta
  ru_ID :: string
  ru_Title :: string
  ru_Description :: string
  ru_Rationale :: string
  ru_Warning :: string
  ru_Severity :: string
  ru_AvailableFixes :: "fix_definition list"

section \<open>Variable\<close>

definition VarTypeNumber :: string where "VarTypeNumber = ''number''"
definition VarTypeBool :: string where "VarTypeBool = ''bool''"
definition VarTypeString :: string where "VarTypeString = ''string''"

record value_selection =
  vs_Description :: string
  vs_Value :: string

record variable =
  va_TypeMeta :: type_meta
  va_Meta :: object_meta
  va_ID :: string
  va_Title :: string
  va_Description :: string
  va_Type :: string
  va_Value :: string
  va_Selections :: "value_selection list"

section \<open>TailoredProfile\<close>

definition PolicyOutput :: string where "PolicyOutput = ''Policy''"
definition ConfigMapOutput :: string where "ConfigMapOutput = ''ConfigMap''"

record rule_reference_spec =
  rr_Name :: string
  rr_Rationale :: string

record variable_value_spec =
  vv_Name :: string
  vv_Rationale :: string
  vv_Value :: string

record tailored_profile_spec =
  tps_Extends :: string
  tps_Title :: string
  tps_Description :: string
  tps_OutputType :: string
  tps_EnableRules :: "rule_reference_spec list"
  tps_DisableRules :: "rule_reference_spec list"
  tps_SetValues :: "variable_value_spec list"

definition TailoredProfileStatePending :: string where
  "TailoredProfileStatePending = ''PENDING''"
definition TailoredProfileStateReady :: string where
  "TailoredProfileStateReady = ''READY''"
definition TailoredProfileStateError :: string where
  "TailoredProfileStateError = ''ERROR''"

record output_ref =
  oref_Name :: string
  oref_Namespace :: string

record tailored_profile_status =
  tpst_ID :: string
  tpst_OutputRef :: output_ref
  tpst_State :: string
  tpst_ErrorMessage :: string

record tailored_profile =
  tp_TypeMeta :: type_meta
  tp_Meta :: object_meta
  tp_Spec :: tailored_profile_spec
  tp_Status :: tailored_profile_status

section \<open>Core objects\<close>

record config_map =
  cm_TypeMeta :: type_meta
  cm_Meta :: object_meta
  cm_Data :: "string \<rightharpoonup> string"

record volume_mount =
  vm_Name :: string
  vm_MountPath :: string
  vm_ReadOnly :: bool

record container =
  co_Name :: string
  co_Image :: string
  co_Command :: "string list"
  co_Args :: "string list"
  co_ImagePullPolicy :: string
  co_VolumeMounts :: "volume_mount list"

record pod_spec =
  ps_InitContainers :: "container list"
  ps_Containers :: "container list"
  ps_RestartPolicy :: string
  ps_ServiceAccountName :: string
  ps_EmptyDirVolumes :: "string list"

text \<open>A container status: readiness and, while it waits, the reason.\<close>

record container_status =
  cs_Ready :: bool
  cs_Waiting :: "string option"

record pod =
  pod_Meta :: object_meta
  pod_Spec :: pod_spec
  pod_InitContainerStatuses :: "container_status list"

section \<open>Group and version\<close>

record group_version =
  gv_Group :: string
  gv_Version :: string

definition gv_String :: "group_version \<Rightarrow> string" where
  "gv_String gv =
     (if gv_Group gv = [] then gv_Version gv
      else gv_Group gv @ ''/'' @ gv_Version gv)"

definition SchemeGroupVersion :: group_version where
  "SchemeGroupVersion = \<lparr>gv_Group = ''compliance.openshift.io'', gv_Version = ''v1alpha1''\<rparr>"

lemmas api_constants =
  DataStreamPending_def DataStreamValid_def DataStreamInvalid_def
  VarTypeNumber_def VarTypeBool_def VarTypeString_def
  PolicyOutput_def ConfigMapOutput_def
  TailoredProfileStatePending_def TailoredProfileStateReady_def TailoredProfileStateError_def

lemma key_of_simps [simp]:
  "nn_Name (key_of m) = om_Name m" "nn_Namespace (key_of m) = om_Namespace m"
  by (simp_all add: key_of_def)

end
