(* ===== verification/Variables.thy ===== *)
theory Variables
  imports API_Types
begin

text \<open>
  The operations of a \<open>Variable\<close> (\<open>pkg/apis/compliance/v1alpha1/variable_types.go\<close>):
  \<open>SetValue\<close> checks the value against the variable's type and against its enumerated
  selections before it stores it. The receiver is a pointer, so the model returns the error
  and the receiver after the call.
\<close>

definition validateType :: "variable \<Rightarrow> string \<Rightarrow> go_error option" where
  "validateType v val =
     (if va_Type v = VarTypeNumber then
        (case Atoi val of Inl e \<Rightarrow> Some e | Inr _ \<Rightarrow> None)
      else if va_Type v = VarTypeBool then
        (case ParseBool val of Inl e \<Rightarrow> Some e | Inr _ \<Rightarrow> None)
      else if va_Type v = VarTypeString then
        (if length val = 0 then Some (ErrorString ''value can't be empty'') else None)
      else None)"

text \<open>The verb \<open>%v\<close> on a slice of selections.\<close>

definition selections_text :: "value_selection list \<Rightarrow> string" where
  "selections_text sels =
     ''['' @ Join (map (\<lambda>s. ''{'' @ vs_Description s @ '' '' @ vs_Value s @ ''}'') sels) '' '' @ '']''"

fun value_allowed :: "value_selection list \<Rightarrow> string \<Rightarrow> bool" where
  "value_allowed [] val = False"
| "value_allowed (av # avs) val = (if vs_Value av = val then True else value_allowed avs val)"

definition validateValue :: "variable \<Rightarrow> string \<Rightarrow> go_error option" where
  "validateValue v val =
     (if length (va_Selections v) = 0 then None
      else if value_allowed (va_Selections v) val then None
      else Some (ErrorString (''value '' @ val @ '' is not allowed, use one of ''
                              @ selections_text (va_Selections v))))"

definition SetValue :: "variable \<Rightarrow> string \<Rightarrow> go_error option \<times> variable" where
  "SetValue v val =
     (case validateType v val of
        Some err \<Rightarrow> (Some err, v)
      | None \<Rightarrow>
          (case validateValue v val of
             Some err \<Rightarrow> (Some err, v)
           | None \<Rightarrow> (None, v\<lparr>va_Value := val\<rparr>)))"

section \<open>What a variable promises\<close>

text \<open>The values a variable type admits, stated without the conversions.\<close>

definition bool_literals :: "string set" where
  "bool_literals = set true_literals \<union> set false_literals"

definition type_admits :: "string \<Rightarrow> string \<Rightarrow> bool" where
  "type_admits ty val \<longleftrightarrow>
     (ty = ''number'' \<longrightarrow> is_int_literal val \<and> in_int64 (int_literal val)) \<and>
     (ty = ''bool'' \<longrightarrow> val \<in> bool_literals) \<and>
     (ty = ''string'' \<longrightarrow> val \<noteq> [])"

definition variable_admits :: "variable \<Rightarrow> string \<Rightarrow> bool" where
  "variable_admits v val \<longleftrightarrow>
     type_admits (va_Type v) val \<and>
     (va_Selections v = [] \<or> val \<in> vs_Value ` set (va_Selections v))"

lemma value_allowed_iff: "value_allowed sels val \<longleftrightarrow> val \<in> vs_Value ` set sels"
  by (induction sels) auto

lemma Atoi_Inl_iff:
  "(\<exists>e. Atoi val = Inl e) \<longleftrightarrow> \<not> (is_int_literal val \<and> in_int64 (int_literal val))"
proof -
  have "(\<exists>w. ParseInt val = Inr w) \<longleftrightarrow> is_int_literal val \<and> in_int64 (int_literal val)"
    by (auto simp: ParseInt_iff)
  then show ?thesis by (cases "ParseInt val") (auto simp: Atoi_eq)
qed

lemma ParseBool_Inr_iff: "(\<exists>b. ParseBool val = Inr b) \<longleftrightarrow> val \<in> bool_literals"
  by (auto simp: ParseBool_def bool_literals_def)

lemma validateType_None_iff: "validateType v val = None \<longleftrightarrow> type_admits (va_Type v) val"
proof -
  have "va_Type v = ''number'' \<Longrightarrow> ?thesis"
    using Atoi_Inl_iff [of val]
    by (cases "Atoi val") (auto simp: validateType_def type_admits_def api_constants)
  moreover have "va_Type v = ''bool'' \<Longrightarrow> ?thesis"
    using ParseBool_Inr_iff [of val]
    by (cases "ParseBool val") (auto simp: validateType_def type_admits_def api_constants)
  moreover have "va_Type v \<noteq> ''number'' \<Longrightarrow> va_Type v \<noteq> ''bool'' \<Longrightarrow> ?thesis"
    by (auto simp: validateType_def type_admits_def api_constants)
  ultimately show ?thesis by blast
qed

lemma validateValue_None_iff:
  "validateValue v val = None \<longleftrightarrow>
     va_Selections v = [] \<or> val \<in> vs_Value ` set (va_Selections v)"
  by (simp add: validateValue_def value_allowed_iff)

lemma SetValue_None:
  "SetValue v val = (None, v') \<longleftrightarrow> variable_admits v val \<and> v' = v\<lparr>va_Value := val\<rparr>"
  unfolding SetValue_def variable_admits_def
  using validateType_None_iff [of v val] validateValue_None_iff [of v val]
  by (cases "validateType v val"; cases "validateValue v val") auto

lemma SetValue_Some:
  "(\<exists>err. SetValue v val = (Some err, v')) \<longleftrightarrow> \<not> variable_admits v val \<and> v' = v"
  unfolding SetValue_def variable_admits_def
  using validateType_None_iff [of v val] validateValue_None_iff [of v val]
  by (cases "validateType v val"; cases "validateValue v val") auto

text \<open>
  C17: \<open>SetValue\<close> succeeds exactly on the values that the variable's type and its
  enumeration admit; it then stores the value and changes nothing else, and on an error it
  changes nothing at all.
\<close>

theorem SetValue_spec:
  "(SetValue v val = (None, v') \<longleftrightarrow> variable_admits v val \<and> v' = v\<lparr>va_Value := val\<rparr>) \<and>
   ((\<exists>err. SetValue v val = (Some err, v')) \<longleftrightarrow> \<not> variable_admits v val \<and> v' = v)"
  using SetValue_None SetValue_Some by blast

end
