(* ===== verification/Samples.thy ===== *)
theory Samples
  imports API_Types
begin

text \<open>
  Concrete objects for the witnesses: a parsed bundle with one profile, one rule and one
  variable, a request for a tailored profile, and a run-time environment.
\<close>

definition ex_meta :: "string \<Rightarrow> object_meta" where
  "ex_meta n = zero_meta\<lparr>om_Name := n, om_Namespace := ''ns'', om_UID := ''uid-'' @ n\<rparr>"

definition ex_type :: type_meta where
  "ex_type = \<lparr>tm_Kind = [], tm_APIVersion = []\<rparr>"

definition ex_profile :: profile where
  "ex_profile = \<lparr>pr_TypeMeta = ex_type,
     pr_Meta = (ex_meta ''rhcos-moderate'')\<lparr>om_OwnerReferences :=
       [\<lparr>or_APIVersion = ''compliance.openshift.io/v1alpha1'', or_Kind = ''ProfileBundle'',
         or_Name = ''rhcos'', or_UID = ''uid-rhcos'', or_Controller = Some True,
         or_BlockOwnerDeletion = Some True\<rparr>]\<rparr>,
     pr_Title = ''Moderate'', pr_Description = [], pr_ID = ''xccdf_org.ssgproject.content_profile_moderate'',
     pr_Rules = [], pr_Values = []\<rparr>"

definition ex_bundle :: profile_bundle where
  "ex_bundle = \<lparr>pb_TypeMeta = ex_type, pb_Meta = ex_meta ''rhcos'',
     pb_Spec = \<lparr>pbs_ContentImage = ''img'', pbs_ContentFile = ''ssg-rhcos4-ds.xml''\<rparr>,
     pb_Status = \<lparr>pbst_DataStreamStatus = DataStreamValid, pbst_ErrorMessage = []\<rparr>\<rparr>"

definition ex_rule :: rule where
  "ex_rule = \<lparr>ru_TypeMeta = ex_type, ru_Meta = ex_meta ''rhcos-no-root'', ru_ID = ''no_root'',
     ru_Title = [], ru_Description = [], ru_Rationale = [], ru_Warning = [], ru_Severity = [],
     ru_AvailableFixes = []\<rparr>"

definition ex_variable :: variable where
  "ex_variable = \<lparr>va_TypeMeta = ex_type, va_Meta = ex_meta ''rhcos-banner'', va_ID = ''banner'',
     va_Title = [], va_Description = [], va_Type = ''string'', va_Value = ''a'', va_Selections = []\<rparr>"

definition ex_request :: tailored_profile where
  "ex_request = \<lparr>tp_TypeMeta = ex_type, tp_Meta = ex_meta ''mine'',
     tp_Spec = \<lparr>tps_Extends = ''rhcos-moderate'', tps_Title = ''Mine'', tps_Description = [],
       tps_OutputType = [], tps_EnableRules = [],
       tps_DisableRules = [\<lparr>rr_Name = ''rhcos-no-root'', rr_Rationale = []\<rparr>],
       tps_SetValues = [\<lparr>vv_Name = ''rhcos-banner'', vv_Rationale = [], vv_Value = ''b''\<rparr>]\<rparr>,
     tp_Status = \<lparr>tpst_ID = [], tpst_OutputRef = \<lparr>oref_Name = [], oref_Namespace = []\<rparr>,
       tpst_State = [], tpst_ErrorMessage = []\<rparr>\<rparr>"

definition ex_env :: go_env where
  "ex_env = \<lparr>ge_now = ''2020-05-11T12:00:00Z'', ge_getenv = (\<lambda>_. []),
     ge_lower_unicode = (\<lambda>s. s), ge_quote_unicode = (\<lambda>s. s),
     ge_regexp = (\<lambda>_. Inl (ErrorString ''error parsing regexp'')),
     ge_xml_first = (\<lambda>_. False), ge_xml_second = (\<lambda>_. False)\<rparr>"

end
