(* ===== verification/Go_Xml.thy ===== *)
theory Go_Xml
  imports Go_Strings
begin

text \<open>
  What the program uses of Go's \<open>encoding/xml\<close> to write XML: \<open>EscapeText\<close>, which works
  rune by rune through \<open>utf8.DecodeRune\<close>, and \<open>MarshalIndent\<close> with an empty prefix and
  an indent of two spaces. The value to be marshalled is given as the element tree that the
  struct tags describe.
\<close>

section \<open>UTF-8\<close>

definition rune_error :: nat where
  "rune_error = 0xFFFD"

definition byte_in :: "nat \<Rightarrow> nat \<Rightarrow> char \<Rightarrow> bool" where
  "byte_in lo hi c \<longleftrightarrow> lo \<le> of_char c \<and> of_char c \<le> hi"

text \<open>
  \<open>DecodeRune\<close> returns the first rune and its width; an invalid or truncated encoding is
  the replacement rune of width 1.
\<close>

fun DecodeRune :: "string \<Rightarrow> nat \<times> nat" where
  "DecodeRune [] = (rune_error, 0)"
| "DecodeRune (c0 # cs) =
     (let p0 = of_char c0 in
      if p0 < 0x80 then (p0, 1)
      else if 0xC2 \<le> p0 \<and> p0 \<le> 0xDF then
        (case cs of
           c1 # _ \<Rightarrow>
             if byte_in 0x80 0xBF c1 then ((p0 - 0xC0) * 0x40 + (of_char c1 - 0x80), 2)
             else (rune_error, 1)
         | _ \<Rightarrow> (rune_error, 1))
      else if 0xE0 \<le> p0 \<and> p0 \<le> 0xEF then
        (case cs of
           c1 # c2 # _ \<Rightarrow>
             if byte_in (if p0 = 0xE0 then 0xA0 else 0x80) (if p0 = 0xED then 0x9F else 0xBF) c1
                \<and> byte_in 0x80 0xBF c2
             then ((p0 - 0xE0) * 0x1000 + (of_char c1 - 0x80) * 0x40 + (of_char c2 - 0x80), 3)
             else (rune_error, 1)
         | _ \<Rightarrow> (rune_error, 1))
      else if 0xF0 \<le> p0 \<and> p0 \<le> 0xF4 then
        (case cs of
           c1 # c2 # c3 # _ \<Rightarrow>
             if byte_in (if p0 = 0xF0 then 0x90 else 0x80) (if p0 = 0xF4 then 0x8F else 0xBF) c1
                \<and> byte_in 0x80 0xBF c2 \<and> byte_in 0x80 0xBF c3
             then ((p0 - 0xF0) * 0x40000 + (of_char c1 - 0x80) * 0x1000
                   + (of_char c2 - 0x80) * 0x40 + (of_char c3 - 0x80), 4)
             else (rune_error, 1)
         | _ \<Rightarrow> (rune_error, 1))
      else (rune_error, 1))"

section \<open>Escaping\<close>

definition is_in_character_range :: "nat \<Rightarrow> bool" where
  "is_in_character_range r \<longleftrightarrow>
     r = 0x09 \<or> r = 0x0A \<or> r = 0x0D \<or> 0x20 \<le> r \<and> r \<le> 0xD7FF \<or>
     0xE000 \<le> r \<and> r \<le> 0xFFFD \<or> 0x10000 \<le> r \<and> r \<le> 0x10FFFF"

definition esc_fffd :: string where
  "esc_fffd = [CHR 0xEF, CHR 0xBF, CHR 0xBD]"

definition escape_rune :: "nat \<Rightarrow> nat \<Rightarrow> string \<Rightarrow> string" where
  "escape_rune r width raw =
     (if r = 34 then ''&#34;''
      else if r = 39 then ''&#39;''
      else if r = 38 then ''&amp;''
      else if r = 60 then ''&lt;''
      else if r = 62 then ''&gt;''
      else if r = 9 then ''&#x9;''
      else if r = 10 then ''&#xA;''
      else if r = 13 then ''&#xD;''
      else if \<not> is_in_character_range r \<or> r = rune_error \<and> width = 1 then esc_fffd
      else raw)"

fun EscapeText :: "string \<Rightarrow> string" where
  "EscapeText [] = []"
| "EscapeText (c # cs) =
     (case DecodeRune (c # cs) of (r, width) \<Rightarrow>
        escape_rune r width (take width (c # cs)) @ EscapeText (drop (width - 1) cs))"

section \<open>Marshalling\<close>

text \<open>
  An element: name, attributes, character data, child elements, in the order of the struct
  fields.
\<close>

datatype xml_elem =
  Elem (el_name: string) (el_attrs: "(string \<times> string) list")
       (el_chardata: string) (el_children: "xml_elem list")

definition marshal_attr :: "string \<times> string \<Rightarrow> string" where
  "marshal_attr a = '' '' @ fst a @ ''='' @ [CHR 0x22] @ EscapeText (snd a) @ [CHR 0x22]"

definition newline_indent :: "nat \<Rightarrow> string" where
  "newline_indent depth = CHR 0x0A # concat (replicate depth ''  '')"

text \<open>
  \<open>writeIndent\<close> puts every child element on a line of its own; the end tag goes on a line
  of its own when there was a child, else it follows the character data directly.
\<close>

fun marshal_elem :: "nat \<Rightarrow> xml_elem \<Rightarrow> string" where
  "marshal_elem depth (Elem name attrs chardata children) =
     ''<'' @ name @ concat (map marshal_attr attrs) @ ''>'' @ EscapeText chardata
     @ concat (map (\<lambda>c. newline_indent (Suc depth) @ marshal_elem (Suc depth) c) children)
     @ (if children = [] then [] else newline_indent depth)
     @ ''</'' @ name @ ''>''"

fun names_ok :: "xml_elem \<Rightarrow> bool" where
  "names_ok (Elem name attrs chardata children) \<longleftrightarrow> name \<noteq> [] \<and> list_all names_ok children"

definition MarshalIndent :: "xml_elem \<Rightarrow> go_error + string" where
  "MarshalIndent e =
     (if names_ok e then Inr (marshal_elem 0 e)
      else Inl (ErrorString ''xml: start tag with no name''))"

definition FormatBool :: "bool \<Rightarrow> string" where
  "FormatBool b = (if b then ''true'' else ''false'')"

section \<open>Facts about runes\<close>

lemma DecodeRune_width: "1 \<le> snd (DecodeRune (c # cs)) \<and> snd (DecodeRune (c # cs)) \<le> length (c # cs)"
  by (auto simp: Let_def split: list.splits)

text \<open>A rune of width 1 is its own byte or the replacement rune; a longer one has no ASCII byte.\<close>

lemma DecodeRune_one:
  "DecodeRune (c # cs) = (r, 1) \<Longrightarrow> r = of_char c \<and> r < 0x80 \<or> r = rune_error \<and> 0x80 \<le> (of_char c :: nat)"
  by (auto simp: Let_def split: list.splits if_splits)

lemma DecodeRune_multi:
  assumes "DecodeRune (c # cs) = (r, w)" and "w \<noteq> 1"
  shows "0x80 \<le> r \<and> (\<forall>b \<in> set (take w (c # cs)). 0x80 \<le> (of_char b :: nat))"
  using assms by (auto simp: Let_def byte_in_def split: list.splits if_splits)

section \<open>What escaping guarantees\<close>

text \<open>The bytes that could end an attribute value or a line, or open or close a tag.\<close>

definition markup_bytes :: "char set" where
  "markup_bytes = {CHR ''<'', CHR ''>'', CHR 0x22, CHR 0x27, CHR 0x0A}"

lemma markup_ascii: "b \<in> markup_bytes \<Longrightarrow> (of_char b :: nat) < 0x80"
  by (auto simp: markup_bytes_def)

lemma of_char_eq_iff: "(of_char c :: nat) = n \<longleftrightarrow> n < 256 \<and> c = char_of n"
  by (metis char_of_char of_char_less_256 of_char_of mod_less)

lemma escape_rune_markup:
  assumes "DecodeRune (c # cs) = (r, w)"
  shows "set (escape_rune r w (take w (c # cs))) \<inter> markup_bytes = {}"
proof (cases "w = 1")
  case True
  with DecodeRune_one [of c cs r] assms
  have "r = of_char c \<and> r < 0x80 \<or> r = rune_error" by auto
  with True show ?thesis
    by (auto simp: escape_rune_def markup_bytes_def esc_fffd_def rune_error_def)
next
  case False
  from DecodeRune_multi [OF assms False] have "0x80 \<le> r"
    and "\<forall>b \<in> set (take w (c # cs)). 0x80 \<le> (of_char b :: nat)" by blast+
  then have "set (take w (c # cs)) \<inter> markup_bytes = {}"
    by (auto dest!: markup_ascii)
  with \<open>0x80 \<le> r\<close> show ?thesis
    by (auto simp: escape_rune_def markup_bytes_def esc_fffd_def)
qed

lemma EscapeText_no_markup: "set (EscapeText s) \<inter> markup_bytes = {}"
proof (induction s rule: EscapeText.induct)
  case (2 c cs)
  obtain r w where d: "DecodeRune (c # cs) = (r, w)" by (cases "DecodeRune (c # cs)")
  from "2.IH" [OF d [symmetric]] escape_rune_markup [OF d] d show ?case
    by (simp add: Int_Un_distrib2)
qed simp

text \<open>
  A reader of XML replaces the references below and copies every other byte. The references
  are those of \<open>escape_rune\<close>, without the ampersand.
\<close>

definition references :: "(string \<times> char) list" where
  "references = [(''#34;'', CHR 0x22), (''#39;'', CHR 0x27), (''amp;'', CHR ''&''),
     (''lt;'', CHR ''<''), (''gt;'', CHR ''>''), (''#x9;'', CHR 0x09), (''#xA;'', CHR 0x0A),
     (''#xD;'', CHR 0x0D)]"

fun unescape :: "string \<Rightarrow> string" where
  "unescape [] = []"
| "unescape (c # cs) =
     (if c = CHR ''&'' then
        (case find (\<lambda>(t, _). HasPrefix cs t) references of
           Some (t, b) \<Rightarrow> b # unescape (drop (length t) cs)
         | None \<Rightarrow> c # unescape cs)
      else c # unescape cs)"

fun valid_text :: "string \<Rightarrow> bool" where
  "valid_text [] = True"
| "valid_text (c # cs) =
     (case DecodeRune (c # cs) of (r, width) \<Rightarrow>
        is_in_character_range r \<and> \<not> (r = rune_error \<and> width = 1) \<and>
        valid_text (drop (width - 1) cs))"

lemma unescape_copy:
  "\<forall>b \<in> set s. b \<noteq> CHR ''&'' \<Longrightarrow> unescape (s @ t) = s @ unescape t"
  by (induction s) auto

lemma unescape_reference:
  "unescape (''&#34;'' @ t) = CHR 0x22 # unescape t"
  "unescape (''&#39;'' @ t) = CHR 0x27 # unescape t"
  "unescape (''&amp;'' @ t) = CHR ''&'' # unescape t"
  "unescape (''&lt;'' @ t) = CHR ''<'' # unescape t"
  "unescape (''&gt;'' @ t) = CHR ''>'' # unescape t"
  "unescape (''&#x9;'' @ t) = CHR 0x09 # unescape t"
  "unescape (''&#xA;'' @ t) = CHR 0x0A # unescape t"
  "unescape (''&#xD;'' @ t) = CHR 0x0D # unescape t"
  by (simp_all add: references_def HasPrefix_def)

lemmas unescape_references = unescape_reference [simplified append_Cons append_Nil]

lemma unescape_escape_rune:
  assumes d: "DecodeRune (c # cs) = (r, w)"
    and ok: "is_in_character_range r" "\<not> (r = rune_error \<and> w = 1)"
  shows "unescape (escape_rune r w (take w (c # cs)) @ t) = take w (c # cs) @ unescape t"
proof (cases "w = 1")
  case True
  with DecodeRune_one [of c cs r] d ok(2) have r: "r = of_char c" by auto
  consider "r \<in> {34, 39, 38, 60, 62, 9, 10, 13}" | "r \<notin> {34, 39, 38, 60, 62, 9, 10, 13}" by blast
  then show ?thesis
  proof cases
    case 1
    have c: "c = char_of r" using r by simp
    from 1 show ?thesis
      by (elim insertE emptyE)
        (simp_all add: escape_rune_def True c char_of_def bit_0 unescape_references del: unescape.simps)
  next
    case 2
    then have "c \<noteq> CHR ''&''" using r by auto
    with 2 ok True show ?thesis
      by (simp add: escape_rune_def)
  qed
next
  case False
  from DecodeRune_multi [OF d False] have big: "0x80 \<le> r"
    and bytes: "\<forall>b \<in> set (take w (c # cs)). 0x80 \<le> (of_char b :: nat)" by blast+
  from bytes have "\<forall>b \<in> set (take w (c # cs)). b \<noteq> CHR ''&''" by force
  moreover from big ok False have "escape_rune r w (take w (c # cs)) = take w (c # cs)"
    by (simp add: escape_rune_def)
  ultimately show ?thesis by (simp add: unescape_copy del: unescape.simps)
qed

text \<open>Escaping is reversible on every text of legal XML characters.\<close>

lemma unescape_EscapeText: "valid_text s \<Longrightarrow> unescape (EscapeText s) = s"
proof (induction s rule: EscapeText.induct)
  case (2 c cs)
  obtain r w where d: "DecodeRune (c # cs) = (r, w)" by (cases "DecodeRune (c # cs)")
  with "2.prems" have ok: "is_in_character_range r" "\<not> (r = rune_error \<and> w = 1)"
    and rest: "valid_text (drop (w - 1) cs)" by auto
  have w: "1 \<le> w" using DecodeRune_width [of c cs] d by simp
  have "unescape (EscapeText (c # cs)) = take w (c # cs) @ unescape (EscapeText (drop (w - 1) cs))"
    using unescape_escape_rune [OF d ok] d by (simp del: unescape.simps)
  also have "\<dots> = take w (c # cs) @ drop (w - 1) cs"
    using "2.IH" [OF d [symmetric] rest] by simp
  also have "\<dots> = c # cs" using w by (cases w) auto
  finally show ?case .
qed simp

lemma EscapeText_inj: "valid_text s \<Longrightarrow> valid_text t \<Longrightarrow> EscapeText s = EscapeText t \<Longrightarrow> s = t"
  by (metis unescape_EscapeText)

end
