(* ===== verification/Xccdf.thy ===== *)
theory Xccdf
  imports Samples Go_Xml
begin

text \<open>
  Package \<open>xccdf\<close>, file \<open>tailoring.go\<close>: the identifiers of the XCCDF objects, the
  object names derived from them, and the tailoring document of a TailoredProfile.
\<close>

section \<open>Constants\<close>

definition XMLHeader :: string where
  "XMLHeader = ''<?xml version='' @ [CHR 0x22] @ ''1.0'' @ [CHR 0x22] @ '' encoding='' @ [CHR 0x22]
     @ ''UTF-8'' @ [CHR 0x22] @ ''?>''"

definition profileIDPrefix :: string where
  "profileIDPrefix = ''xccdf_org.ssgproject.content_profile_''"
definition ruleIDPrefix :: string where
  "ruleIDPrefix = ''xccdf_org.ssgproject.content_rule_''"
definition varIDPrefix :: string where
  "varIDPrefix = ''xccdf_org.ssgproject.content_value_''"
definition XCCDFNamespace :: string where
  "XCCDFNamespace = ''compliance.openshift.io''"
definition XCCDFURI :: string where
  "XCCDFURI = ''http://checklists.nist.gov/xccdf/1.2''"

section \<open>The tailoring document\<close>

record benchmark_element =
  be_Href :: string

record version_element =
  ve_Time :: string
  ve_Value :: string

record title_or_description_element =
  td_Override :: bool
  td_Value :: string

record select_element =
  se_IDRef :: string
  se_Selected :: bool

record set_value_element =
  sv_IDRef :: string
  sv_Value :: string

record profile_element =
  pe_ID :: string
  pe_Extends :: string
  pe_Title :: "title_or_description_element option"
  pe_Description :: "title_or_description_element option"
  pe_Selections :: "select_element list"
  pe_Values :: "set_value_element list"

record tailoring_element =
  te_XMLNamespaceURI :: string
  te_ID :: string
  te_Benchmark :: benchmark_element
  te_Version :: version_element
  te_Profile :: profile_element

text \<open>
  What the struct tags say: the element names, which fields are attributes or character
  data, and the order of the fields. A nil pointer field has no element.
\<close>

definition benchmark_xml :: "benchmark_element \<Rightarrow> xml_elem" where
  "benchmark_xml b = Elem ''xccdf-1.2:benchmark'' [(''href'', be_Href b)] [] []"

definition version_xml :: "version_element \<Rightarrow> xml_elem" where
  "version_xml v = Elem ''xccdf-1.2:version'' [(''time'', ve_Time v)] (ve_Value v) []"

definition title_or_description_xml ::
  "string \<Rightarrow> title_or_description_element \<Rightarrow> xml_elem" where
  "title_or_description_xml name t =
     Elem name [(''override'', FormatBool (td_Override t))] (td_Value t) []"

definition select_xml :: "select_element \<Rightarrow> xml_elem" where
  "select_xml s =
     Elem ''xccdf-1.2:select''
       [(''idref'', se_IDRef s), (''selected'', FormatBool (se_Selected s))] [] []"

definition set_value_xml :: "set_value_element \<Rightarrow> xml_elem" where
  "set_value_xml v = Elem ''xccdf-1.2:set-value'' [(''idref'', sv_IDRef v)] (sv_Value v) []"

definition optional_xml :: "('a \<Rightarrow> xml_elem) \<Rightarrow> 'a option \<Rightarrow> xml_elem list" where
  "optional_xml f x = (case x of None \<Rightarrow> [] | Some v \<Rightarrow> [f v])"

definition profile_xml :: "profile_element \<Rightarrow> xml_elem" where
  "profile_xml p =
     Elem ''xccdf-1.2:Profile'' [(''id'', pe_ID p), (''extends'', pe_Extends p)] []
       (optional_xml (title_or_description_xml ''xccdf-1.2:title'') (pe_Title p)
        @ optional_xml (title_or_description_xml ''xccdf-1.2:description'') (pe_Description p)
        @ map select_xml (pe_Selections p)
        @ map set_value_xml (pe_Values p))"

definition tailoring_xml :: "tailoring_element \<Rightarrow> xml_elem" where
  "tailoring_xml t =
     Elem ''xccdf-1.2:Tailoring''
       [(''xmlns:xccdf-1.2'', te_XMLNamespaceURI t), (''id'', te_ID t)] []
       [benchmark_xml (te_Benchmark t), version_xml (te_Version t), profile_xml (te_Profile t)]"

section \<open>Identifiers and names\<close>

definition GetXCCDFProfileID :: "tailored_profile \<Rightarrow> string" where
  "GetXCCDFProfileID tp = ''xccdf_'' @ XCCDFNamespace @ ''_profile_'' @ om_Name (tp_Meta tp)"

definition getTailoringID :: "tailored_profile \<Rightarrow> string" where
  "getTailoringID tp = ''xccdf_'' @ XCCDFNamespace @ ''_tailoring_'' @ om_Name (tp_Meta tp)"

definition GetProfileNameFromID :: "go_env \<Rightarrow> string \<Rightarrow> string" where
  "GetProfileNameFromID env ident =
     (let trimedName = TrimPrefix ident profileIDPrefix
      in ToLower env (ReplaceAll trimedName (CHR ''_'') ''-''))"

definition GetRuleNameFromID :: "go_env \<Rightarrow> string \<Rightarrow> string" where
  "GetRuleNameFromID env ident =
     (let trimedName = TrimPrefix ident ruleIDPrefix
      in ToLower env (ReplaceAll trimedName (CHR ''_'') ''-''))"

definition GetVariableNameFromID :: "go_env \<Rightarrow> string \<Rightarrow> string" where
  "GetVariableNameFromID env ident =
     (let trimedName = TrimPrefix ident varIDPrefix
      in ToLower env (ReplaceAll trimedName (CHR ''_'') ''-''))"

section \<open>Building the document\<close>

text \<open>The rule is a pointer out of a map: a missing name gives nil, and reading its ID panics.\<close>

definition getSelectElementFromCRRule ::
  "rule option \<Rightarrow> bool \<Rightarrow> go_panic + select_element" where
  "getSelectElementFromCRRule r enable =
     (case r of
        None \<Rightarrow> Inl NilDereference
      | Some ru \<Rightarrow> Inr \<lparr>se_IDRef = ru_ID ru, se_Selected = enable\<rparr>)"

fun append_selections ::
  "(string \<rightharpoonup> rule) \<Rightarrow> bool \<Rightarrow> rule_reference_spec list \<Rightarrow> select_element list
   \<Rightarrow> go_panic + select_element list" where
  "append_selections rules enable [] selections = Inr selections"
| "append_selections rules enable (s # ss) selections =
     (case getSelectElementFromCRRule (rules (rr_Name s)) enable of
        Inl p \<Rightarrow> Inl p
      | Inr e \<Rightarrow> append_selections rules enable ss (selections @ [e]))"

definition getSelections ::
  "tailored_profile \<Rightarrow> (string \<rightharpoonup> rule) \<Rightarrow> go_panic + select_element list" where
  "getSelections tp rules =
     (case append_selections rules True (tps_EnableRules (tp_Spec tp)) [] of
        Inl p \<Rightarrow> Inl p
      | Inr selections \<Rightarrow>
          append_selections rules False (tps_DisableRules (tp_Spec tp)) selections)"

definition getValuesFromVariables :: "variable list \<Rightarrow> set_value_element list" where
  "getValuesFromVariables variables =
     map (\<lambda>v. \<lparr>sv_IDRef = va_ID v, sv_Value = va_Value v\<rparr>) variables"

definition override_element :: "string \<Rightarrow> title_or_description_element option" where
  "override_element text =
     (if text \<noteq> [] then Some \<lparr>td_Override = True, td_Value = text\<rparr> else None)"

definition benchmark_href :: "profile_bundle \<Rightarrow> string" where
  "benchmark_href pb = path_Join [''/content'', pbs_ContentFile (pb_Spec pb)]"

definition tailoring_of ::
  "go_env \<Rightarrow> tailored_profile \<Rightarrow> profile \<Rightarrow> profile_bundle \<Rightarrow> select_element list
   \<Rightarrow> variable list \<Rightarrow> tailoring_element" where
  "tailoring_of env tp p pb selections variables =
     \<lparr>te_XMLNamespaceURI = XCCDFURI,
      te_ID = getTailoringID tp,
      te_Benchmark = \<lparr>be_Href = benchmark_href pb\<rparr>,
      te_Version = \<lparr>ve_Time = ge_now env, ve_Value = ''1''\<rparr>,
      te_Profile =
        \<lparr>pe_ID = GetXCCDFProfileID tp,
         pe_Extends = pr_ID p,
         pe_Title = override_element (tps_Title (tp_Spec tp)),
         pe_Description = override_element (tps_Description (tp_Spec tp)),
         pe_Selections = selections,
         pe_Values = getValuesFromVariables variables\<rparr>\<rparr>"

text \<open>A panic, or the pair of a string and an error.\<close>

definition TailoredProfileToXML ::
  "go_env \<Rightarrow> tailored_profile \<Rightarrow> profile \<Rightarrow> profile_bundle \<Rightarrow> (string \<rightharpoonup> rule)
   \<Rightarrow> variable list \<Rightarrow> go_panic + (go_error + string)" where
  "TailoredProfileToXML env tp p pb rules variables =
     (case getSelections tp rules of
        Inl panic \<Rightarrow> Inl panic
      | Inr selections \<Rightarrow>
          (case MarshalIndent (tailoring_xml (tailoring_of env tp p pb selections variables)) of
             Inl err \<Rightarrow> Inr (Inl err)
           | Inr output \<Rightarrow> Inr (Inr (XMLHeader @ [CHR 0x0A] @ output))))"

section \<open>Names derived from identifiers\<close>

text \<open>
  The three name functions share one contract: a prefix of their own is cut off,
  underscores become hyphens, upper case becomes lower case.
\<close>

definition xccdf_char :: "char \<Rightarrow> bool" where
  "xccdf_char c \<longleftrightarrow>
     (let n = (of_char c :: nat) in
      65 \<le> n \<and> n \<le> 90 \<or> 97 \<le> n \<and> n \<le> 122 \<or> 48 \<le> n \<and> n \<le> 57 \<or> n = 45 \<or> n = 46 \<or> n = 95)"

text \<open>The characters Kubernetes admits in an object name.\<close>

definition dns_char :: "char \<Rightarrow> bool" where
  "dns_char c \<longleftrightarrow>
     (let n = (of_char c :: nat) in
      97 \<le> n \<and> n \<le> 122 \<or> 48 \<le> n \<and> n \<le> 57 \<or> n = 45 \<or> n = 46)"

lemma xccdf_char_ascii: "list_all xccdf_char s \<Longrightarrow> is_ascii s"
  by (auto simp: list_all_iff is_ascii_def xccdf_char_def Let_def)

lemma dns_char_lower:
  "xccdf_char c \<Longrightarrow> c \<noteq> CHR ''_'' \<Longrightarrow> dns_char (lower_byte c)"
  using of_char_inject [of c "CHR ''_''"]
  by (auto simp: xccdf_char_def dns_char_def of_char_lower_byte is_upper_def Let_def
      simp del: of_char_inject split: if_splits)

lemma lower_byte_underscore: "lower_byte c = CHR ''_'' \<longleftrightarrow> c = CHR ''_''"
  using of_char_inject [of "lower_byte c" "CHR ''_''"] of_char_inject [of c "CHR ''_''"]
  by (auto simp: of_char_lower_byte is_upper_def simp del: of_char_inject split: if_splits)

locale xccdf_names =
  fixes prefix :: string
    and name_of :: "go_env \<Rightarrow> string \<Rightarrow> string"
  assumes name_of_eq:
      "name_of env ident = ToLower env (ReplaceAll (TrimPrefix ident prefix) (CHR ''_'') ''-'')"
    and prefix_underscore: "CHR ''_'' \<in> set prefix"
begin

lemma ascii_core:
  "is_ascii ident \<Longrightarrow> is_ascii (ReplaceAll (TrimPrefix ident prefix) (CHR ''_'') ''-'')"
  by (simp add: is_ascii_ReplaceAll is_ascii_TrimPrefix)

lemma name_of_ascii: "is_ascii ident \<Longrightarrow> is_ascii (name_of env ident)"
  by (simp add: name_of_eq ascii_core is_ascii_ToLower)

lemma no_underscore:
  assumes "is_ascii ident"
  shows "CHR ''_'' \<notin> set (name_of env ident)"
proof -
  let ?t = "ReplaceAll (TrimPrefix ident prefix) (CHR ''_'') ''-''"
  have "CHR ''_'' \<notin> set ?t"
    using set_ReplaceAll [of "TrimPrefix ident prefix" "CHR ''_''" "''-''"] by auto
  then show ?thesis
    using ascii_core [OF assms]
    by (auto simp: name_of_eq ToLower_def) (metis lower_byte_underscore)
qed

lemma no_upper: "is_ascii ident \<Longrightarrow> c \<in> set (name_of env ident) \<Longrightarrow> \<not> is_upper c"
  unfolding name_of_eq by (rule ToLower_no_upper [OF ascii_core])

text \<open>The prefix holds an underscore, so a derived name is a fixed point.\<close>

lemma idempotent:
  assumes "is_ascii ident"
  shows "name_of env (name_of env ident) = name_of env ident"
proof -
  let ?n = "name_of env ident"
  have nu: "CHR ''_'' \<notin> set ?n" by (rule no_underscore [OF assms])
  have "\<not> HasPrefix ?n prefix"
    using nu prefix_underscore HasPrefix_set by blast
  then have "name_of env ?n = ToLower env ?n"
    by (simp add: name_of_eq [of env ?n] TrimPrefix_not ReplaceAll_id [OF nu])
  also have "\<dots> = ?n" by (rule ToLower_id [OF name_of_ascii [OF assms] no_upper [OF assms]])
  finally show ?thesis .
qed

lemma dns_name:
  assumes "list_all xccdf_char ident"
  shows "list_all dns_char (name_of env ident)"
proof -
  have asc: "is_ascii ident" by (rule xccdf_char_ascii [OF assms])
  have "xccdf_char c" "c \<noteq> CHR ''_''"
    if "c \<in> set (ReplaceAll (TrimPrefix ident prefix) (CHR ''_'') ''-'')" for c
  proof -
    have "c \<in> set ident - {CHR ''_''} \<or> c = CHR ''-''"
      using that set_ReplaceAll [of "TrimPrefix ident prefix" "CHR ''_''" "''-''"]
        set_TrimPrefix [of ident prefix] by auto
    then show "xccdf_char c" "c \<noteq> CHR ''_''"
      using assms by (auto simp: list_all_iff xccdf_char_def)
  qed
  then show ?thesis
    by (auto simp: name_of_eq ToLower_def ascii_core [OF asc] list_all_iff intro: dns_char_lower)
qed

lemma of_prefixed:
  assumes "is_ascii n" and "CHR ''_'' \<notin> set n" and "\<And>c. c \<in> set n \<Longrightarrow> \<not> is_upper c"
  shows "name_of env (prefix @ n) = n"
  using assms by (simp add: name_of_eq ReplaceAll_id ToLower_id)

end

interpretation profile_names: xccdf_names profileIDPrefix GetProfileNameFromID
  by unfold_locales (simp_all add: GetProfileNameFromID_def profileIDPrefix_def)

interpretation rule_names: xccdf_names ruleIDPrefix GetRuleNameFromID
  by unfold_locales (simp_all add: GetRuleNameFromID_def ruleIDPrefix_def)

interpretation variable_names: xccdf_names varIDPrefix GetVariableNameFromID
  by unfold_locales (simp_all add: GetVariableNameFromID_def varIDPrefix_def)

text \<open>
  C31: from an identifier made of letters, digits, dots, hyphens and underscores every name
  function derives a name of lower-case letters, digits, dots and hyphens only, and a derived
  name is a fixed point of the function.
\<close>

theorem derived_names_dns:
  assumes "list_all xccdf_char ident"
    and "f \<in> {GetProfileNameFromID, GetRuleNameFromID, GetVariableNameFromID}"
  shows "list_all dns_char (f env ident) \<and> f env (f env ident) = f env ident"
  using assms profile_names.dns_name rule_names.dns_name variable_names.dns_name
    profile_names.idempotent rule_names.idempotent variable_names.idempotent
    xccdf_char_ascii [OF assms(1)]
  by blast

theorem derived_names_dns_witness:
  "list_all xccdf_char ''xccdf_org.ssgproject.content_rule_No_Root''
   \<and> list_all dns_char (GetRuleNameFromID ex_env ''xccdf_org.ssgproject.content_rule_No_Root'')
   \<and> GetRuleNameFromID ex_env ''xccdf_org.ssgproject.content_rule_No_Root'' = ''no-root''"
proof -
  have h: "list_all xccdf_char ''xccdf_org.ssgproject.content_rule_No_Root''" by code_simp
  moreover have "GetRuleNameFromID ex_env ''xccdf_org.ssgproject.content_rule_No_Root'' = ''no-root''"
    by code_simp
  ultimately show ?thesis
    using derived_names_dns [OF h, of GetRuleNameFromID ex_env] by simp
qed

section \<open>The selections\<close>

lemma append_selections_eq:
  "append_selections rules enable ss acc =
     (if rr_Name ` set ss \<subseteq> dom rules
      then Inr (acc @ map (\<lambda>s. \<lparr>se_IDRef = ru_ID (the (rules (rr_Name s))), se_Selected = enable\<rparr>) ss)
      else Inl NilDereference)"
proof (induction ss arbitrary: acc)
  case (Cons s ss)
  then show ?case
    by (cases "rules (rr_Name s)") (auto simp: getSelectElementFromCRRule_def)
qed simp

definition select_of :: "(string \<rightharpoonup> rule) \<Rightarrow> bool \<Rightarrow> rule_reference_spec \<Rightarrow> select_element" where
  "select_of rules enable s =
     \<lparr>se_IDRef = ru_ID (the (rules (rr_Name s))), se_Selected = enable\<rparr>"

definition selected_names :: "tailored_profile \<Rightarrow> string list" where
  "selected_names tp =
     map rr_Name (tps_EnableRules (tp_Spec tp) @ tps_DisableRules (tp_Spec tp))"

lemma getSelections_eq:
  "getSelections tp rules =
     (if set (selected_names tp) \<subseteq> dom rules
      then Inr (map (select_of rules True) (tps_EnableRules (tp_Spec tp))
                @ map (select_of rules False) (tps_DisableRules (tp_Spec tp)))
      else Inl NilDereference)"
  by (simp add: getSelections_def append_selections_eq selected_names_def select_of_def [abs_def]
      image_Un)

text \<open>
  C29: the selections of the document are one entry per enabled rule and then one per
  disabled rule, in the order of the spec, each with the XCCDF identifier of the rule object;
  and building them panics exactly when a selected name has no rule object in the map.
\<close>

theorem getSelections_spec:
  "getSelections tp rules =
     (if set (selected_names tp) \<subseteq> dom rules
      then Inr (map (select_of rules True) (tps_EnableRules (tp_Spec tp))
                @ map (select_of rules False) (tps_DisableRules (tp_Spec tp)))
      else Inl NilDereference)"
  by (rule getSelections_eq)

section \<open>Markup of the document\<close>

text \<open>The number of elements of a tree, and names that hold no angle bracket.\<close>

fun elem_count :: "xml_elem \<Rightarrow> nat" where
  "elem_count (Elem name attrs chardata children) = 1 + sum_list (map elem_count children)"

fun plain_names :: "xml_elem \<Rightarrow> bool" where
  "plain_names (Elem name attrs chardata children) \<longleftrightarrow>
     CHR ''<'' \<notin> set name \<and> list_all (\<lambda>a. CHR ''<'' \<notin> set (fst a)) attrs
     \<and> list_all plain_names children"

lemma count_list_concat_map:
  "count_list (concat (map f xs)) c = sum_list (map (\<lambda>x. count_list (f x) c) xs)"
  by (induction xs) auto

lemma EscapeText_no_lt: "CHR ''<'' \<notin> set (EscapeText s)"
  using EscapeText_no_markup [of s] by (auto simp: markup_bytes_def)

lemma marshal_attr_no_lt: "CHR ''<'' \<notin> set (fst a) \<Longrightarrow> CHR ''<'' \<notin> set (marshal_attr a)"
  by (simp add: marshal_attr_def EscapeText_no_lt)

lemma newline_indent_no_lt: "CHR ''<'' \<notin> set (newline_indent d)"
  by (auto simp: newline_indent_def)

lemma count_lt_marshal_elem:
  "plain_names e \<Longrightarrow> count_list (marshal_elem d e) (CHR ''<'') = 2 * elem_count e"
proof (induction d e rule: marshal_elem.induct)
  case (1 depth name attrs chardata children)
  have attrs: "count_list (concat (map marshal_attr attrs)) (CHR ''<'') = 0"
    using "1.prems" marshal_attr_no_lt by (auto simp: list_all_iff count_list_0_iff)
  have kids: "sum_list (map (\<lambda>c. count_list (newline_indent (Suc depth)
      @ marshal_elem (Suc depth) c) (CHR ''<'')) children) = 2 * sum_list (map elem_count children)"
    using 1 by (simp add: count_notin newline_indent_no_lt list_all_iff sum_list_const_mult
        cong: map_cong)
  show ?case
    using "1.prems" attrs kids
    by (simp add: count_list_concat_map count_notin EscapeText_no_lt newline_indent_no_lt)
qed

lemma plain_names_tailoring: "plain_names (tailoring_xml t)"
  by (auto simp: tailoring_xml_def benchmark_xml_def version_xml_def profile_xml_def
      optional_xml_def title_or_description_xml_def select_xml_def set_value_xml_def
      list_all_iff split: option.splits)

lemma names_ok_tailoring: "names_ok (tailoring_xml t)"
  by (auto simp: tailoring_xml_def benchmark_xml_def version_xml_def profile_xml_def
      optional_xml_def title_or_description_xml_def select_xml_def set_value_xml_def
      list_all_iff split: option.splits)

definition option_count :: "'a option \<Rightarrow> nat" where
  "option_count x = (case x of None \<Rightarrow> 0 | Some _ \<Rightarrow> 1)"

lemma elem_count_tailoring:
  "elem_count (tailoring_xml t) =
     4 + option_count (pe_Title (te_Profile t)) + option_count (pe_Description (te_Profile t))
     + length (pe_Selections (te_Profile t)) + length (pe_Values (te_Profile t))"
  by (simp add: tailoring_xml_def benchmark_xml_def version_xml_def profile_xml_def
      optional_xml_def title_or_description_xml_def select_xml_def set_value_xml_def
      option_count_def comp_def sum_list_triv split: option.split)

lemma TailoredProfileToXML_eq:
  assumes "set (selected_names tp) \<subseteq> dom rules"
  shows "TailoredProfileToXML env tp p pb rules variables =
    Inr (Inr (XMLHeader @ [CHR 0x0A] @ marshal_elem 0 (tailoring_xml (tailoring_of env tp p pb
      (map (select_of rules True) (tps_EnableRules (tp_Spec tp))
       @ map (select_of rules False) (tps_DisableRules (tp_Spec tp))) variables))))"
  using assms
  by (simp add: TailoredProfileToXML_def getSelections_eq MarshalIndent_def names_ok_tailoring)

text \<open>
  C13: no text of the custom resources can add markup to the tailoring document: whatever the
  names, titles, descriptions, identifiers and values contain, the document has one opening
  bracket for the header and two for each of its elements, whose number follows from the
  shape of the spec alone.
\<close>

theorem tailoring_no_injection:
  assumes "TailoredProfileToXML env tp p pb rules variables = Inr (Inr doc)"
  shows "count_list doc (CHR ''<'') =
    1 + 2 * (4 + of_bool (tps_Title (tp_Spec tp) \<noteq> []) + of_bool (tps_Description (tp_Spec tp) \<noteq> [])
             + length (selected_names tp) + length variables)"
proof -
  have sub: "set (selected_names tp) \<subseteq> dom rules"
    using assms by (auto simp: TailoredProfileToXML_def getSelections_eq split: if_splits)
  have "count_list XMLHeader (CHR ''<'') = 1" by (simp add: XMLHeader_def)
  then show ?thesis
    using assms [unfolded TailoredProfileToXML_eq [OF sub]]
    by (auto simp: count_lt_marshal_elem [OF plain_names_tailoring] elem_count_tailoring
        tailoring_of_def option_count_def override_element_def getValuesFromVariables_def
        selected_names_def)
qed

theorem tailoring_no_injection_witness:
  "\<exists>doc. TailoredProfileToXML ex_env ex_request ex_profile ex_bundle
       [''rhcos-no-root'' \<mapsto> ex_rule] [ex_variable] = Inr (Inr doc)
     \<and> count_list doc (CHR ''<'') = 15"
proof -
  have "set (selected_names ex_request) \<subseteq> dom [''rhcos-no-root'' \<mapsto> ex_rule]"
    by (simp add: selected_names_def ex_request_def)
  from TailoredProfileToXML_eq [OF this] obtain doc where
    doc: "TailoredProfileToXML ex_env ex_request ex_profile ex_bundle
       [''rhcos-no-root'' \<mapsto> ex_rule] [ex_variable] = Inr (Inr doc)" by blast
  from doc tailoring_no_injection [OF doc] show ?thesis
    by (simp add: selected_names_def ex_request_def)
qed

section \<open>The content path\<close>

lemma benchmark_href_eq:
  "benchmark_href pb =
     CHR ''/'' # Join (clean_elems True [''content''] (Split (pbs_ContentFile (pb_Spec pb)) (CHR ''/''))) ''/''"
  using path_Join_below [of "''content''"] by (simp add: benchmark_href_def plain_elem_def)

lemma Clean_benchmark_href: "Clean (benchmark_href pb) = benchmark_href pb"
  unfolding benchmark_href_eq
proof (rule Clean_plain)
  let ?es = "clean_elems True [''content''] (Split (pbs_ContentFile (pb_Spec pb)) (CHR ''/''))"
  show "list_all plain_elem ?es"
    by (rule clean_elems_rooted) (simp add: plain_elem_def)
  show "\<forall>e \<in> set ?es. CHR ''/'' \<notin> set e"
    using clean_elems_subset [of True "[''content'']" "Split (pbs_ContentFile (pb_Spec pb)) (CHR ''/'')"]
      Split_no_sep by fastforce
qed

text \<open>
  C30: the benchmark reference is an absolute, normalised path: its elements are real names,
  none of them empty, a dot or two dots; and when the content file of the bundle has no
  two-dot element the path stays below the content directory, with the real elements of the
  content file in order.
\<close>

theorem tailoring_href:
  "\<exists>es. benchmark_href pb = CHR ''/'' # Join es ''/'' \<and> list_all plain_elem es \<and>
     (''..'' \<notin> set (Split (pbs_ContentFile (pb_Spec pb)) (CHR ''/'')) \<longrightarrow>
      es = ''content'' # filter plain_elem (Split (pbs_ContentFile (pb_Spec pb)) (CHR ''/'')))"
proof -
  let ?es = "clean_elems True [''content''] (Split (pbs_ContentFile (pb_Spec pb)) (CHR ''/''))"
  have "list_all plain_elem ?es"
    by (rule clean_elems_rooted) (simp add: plain_elem_def)
  moreover have "''..'' \<notin> set (Split (pbs_ContentFile (pb_Spec pb)) (CHR ''/'')) \<Longrightarrow>
      ?es = ''content'' # filter plain_elem (Split (pbs_ContentFile (pb_Spec pb)) (CHR ''/''))"
    by (simp add: clean_elems_no_dotdot)
  ultimately show ?thesis unfolding benchmark_href_eq by blast
qed

theorem tailoring_href_witness:
  "benchmark_href ex_bundle = ''/content/ssg-rhcos4-ds.xml''"
proof -
  have "Split (pbs_ContentFile (pb_Spec ex_bundle)) (CHR ''/'') = [''ssg-rhcos4-ds.xml'']"
    by (simp add: ex_bundle_def)
  with tailoring_href [of ex_bundle] show ?thesis by (auto simp: plain_elem_def)
qed

end
