(* ===== verification/Kube_Client.thy ===== *)
theory Kube_Client
  imports API_Types
begin

text \<open>
  The Kubernetes side of the program. The API server is outside the sources: a client is a
  record of functions on an abstract cluster state \<open>'w\<close>, a parameter of every definition
  that talks to it; a call may fail in any way and, since the cluster has other writers, even
  a read may find a new state. The model's own state adds the list of the writes the program
  issued, each with its answer. The second half are the owner-reference helpers of
  controller-runtime (\<open>vendor/.../controllerutil/controllerutil.go\<close>) and the type
  registry they consult.
\<close>

section \<open>Objects and clients\<close>

text \<open>The objects the program writes.\<close>

datatype kobject =
    ProfileBundleObj profile_bundle
  | ProfileObj profile
  | RuleObj rule
  | VariableObj variable
  | TailoredProfileObj tailored_profile
  | ConfigMapObj config_map
  | PodObj pod
  | UnstructuredObj json

text \<open>One reader per Go type that the program passes to \<open>client.Get\<close>, and the writers.\<close>

record 'w client =
  cl_Get_ProfileBundle :: "nsname \<Rightarrow> 'w \<Rightarrow> (go_error + profile_bundle) \<times> 'w"
  cl_Get_Profile :: "nsname \<Rightarrow> 'w \<Rightarrow> (go_error + profile) \<times> 'w"
  cl_Get_Rule :: "nsname \<Rightarrow> 'w \<Rightarrow> (go_error + rule) \<times> 'w"
  cl_Get_Variable :: "nsname \<Rightarrow> 'w \<Rightarrow> (go_error + variable) \<times> 'w"
  cl_Get_TailoredProfile :: "nsname \<Rightarrow> 'w \<Rightarrow> (go_error + tailored_profile) \<times> 'w"
  cl_Get_ConfigMap :: "nsname \<Rightarrow> 'w \<Rightarrow> (go_error + config_map) \<times> 'w"
  cl_Get_Pod :: "nsname \<Rightarrow> 'w \<Rightarrow> (go_error + pod) \<times> 'w"
  cl_Get_Policy :: "nsname \<Rightarrow> 'w \<Rightarrow> (go_error + json) \<times> 'w"
  cl_Create :: "kobject \<Rightarrow> 'w \<Rightarrow> go_error option \<times> 'w"
  cl_Update :: "kobject \<Rightarrow> 'w \<Rightarrow> go_error option \<times> 'w"
  cl_StatusUpdate :: "kobject \<Rightarrow> 'w \<Rightarrow> go_error option \<times> 'w"

datatype verb = Create_verb | Update_verb | StatusUpdate_verb

record api_write =
  wr_Verb :: verb
  wr_Object :: kobject
  wr_Error :: "go_error option"

abbreviation wr :: "verb \<Rightarrow> kobject \<Rightarrow> go_error option \<Rightarrow> api_write" where
  "wr v x e \<equiv> \<lparr>wr_Verb = v, wr_Object = x, wr_Error = e\<rparr>"

record 'w world =
  w_cluster :: 'w
  w_writes :: "api_write list"

section \<open>Calls\<close>

definition client_get ::
  "(nsname \<Rightarrow> 'w \<Rightarrow> 'a \<times> 'w) \<Rightarrow> nsname \<Rightarrow> ('w world, 'a) state" where
  "client_get getter k = State (\<lambda>s.
     case getter k (w_cluster s) of (r, w) \<Rightarrow> (r, s\<lparr>w_cluster := w\<rparr>))"

definition client_write ::
  "verb \<Rightarrow> (kobject \<Rightarrow> 'w \<Rightarrow> go_error option \<times> 'w) \<Rightarrow> kobject
   \<Rightarrow> ('w world, go_error option) state" where
  "client_write v writer x = State (\<lambda>s.
     case writer x (w_cluster s) of (e, w) \<Rightarrow>
       (e, s\<lparr>w_cluster := w,
             w_writes := w_writes s @ [\<lparr>wr_Verb = v, wr_Object = x, wr_Error = e\<rparr>]\<rparr>))"

definition Create :: "'w client \<Rightarrow> kobject \<Rightarrow> ('w world, go_error option) state" where
  "Create cl x = client_write Create_verb (cl_Create cl) x"

definition Update :: "'w client \<Rightarrow> kobject \<Rightarrow> ('w world, go_error option) state" where
  "Update cl x = client_write Update_verb (cl_Update cl) x"

definition StatusUpdate :: "'w client \<Rightarrow> kobject \<Rightarrow> ('w world, go_error option) state" where
  "StatusUpdate cl x = client_write StatusUpdate_verb (cl_StatusUpdate cl) x"

lemma run_client_get [go_run]:
  "run_state (client_get g k) s =
     (fst (g k (w_cluster s)), s\<lparr>w_cluster := snd (g k (w_cluster s))\<rparr>)"
  by (simp add: client_get_def split: prod.split)

lemma run_client_write [go_run]:
  "run_state (client_write v f x) s =
     (fst (f x (w_cluster s)),
      s\<lparr>w_cluster := snd (f x (w_cluster s)),
        w_writes := w_writes s
          @ [\<lparr>wr_Verb = v, wr_Object = x, wr_Error = fst (f x (w_cluster s))\<rparr>]\<rparr>)"
  by (simp add: client_write_def split: prod.split)

section \<open>API errors\<close>

text \<open>\<open>ReasonForError\<close> reads the reason of a status error; any other error has none.\<close>

definition ReasonForError :: "go_error \<Rightarrow> string" where
  "ReasonForError err = (case err of StatusError reason _ \<Rightarrow> reason | _ \<Rightarrow> [])"

definition IsNotFound :: "go_error \<Rightarrow> bool" where
  "IsNotFound err \<longleftrightarrow> ReasonForError err = ''NotFound''"

definition IsAlreadyExists :: "go_error \<Rightarrow> bool" where
  "IsAlreadyExists err \<longleftrightarrow> ReasonForError err = ''AlreadyExists''"

section \<open>The type registry\<close>

datatype go_type =
    T_ProfileBundle | T_ProfileBundleList | T_Profile | T_ProfileList | T_Rule | T_RuleList
  | T_Variable | T_VariableList | T_TailoredProfile | T_TailoredProfileList
  | T_CreateOptions | T_UpdateOptions

record gvk =
  gvk_GroupVersion :: group_version
  gvk_Kind :: string

fun type_name :: "go_type \<Rightarrow> string" where
  "type_name T_ProfileBundle = ''ProfileBundle''"
| "type_name T_ProfileBundleList = ''ProfileBundleList''"
| "type_name T_Profile = ''Profile''"
| "type_name T_ProfileList = ''ProfileList''"
| "type_name T_Rule = ''Rule''"
| "type_name T_RuleList = ''RuleList''"
| "type_name T_Variable = ''Variable''"
| "type_name T_VariableList = ''VariableList''"
| "type_name T_TailoredProfile = ''TailoredProfile''"
| "type_name T_TailoredProfileList = ''TailoredProfileList''"
| "type_name T_CreateOptions = ''CreateOptions''"
| "type_name T_UpdateOptions = ''UpdateOptions''"

text \<open>A scheme records, for every registered Go type, its group, version and kind.\<close>

type_synonym scheme = "(go_type \<times> gvk) list"

definition AddKnownTypes :: "scheme \<Rightarrow> group_version \<Rightarrow> go_type list \<Rightarrow> scheme" where
  "AddKnownTypes s gv ts =
     fold (\<lambda>t s. let e = (t, \<lparr>gvk_GroupVersion = gv, gvk_Kind = type_name t\<rparr>)
                 in if e \<in> set s then s else s @ [e]) ts s"

definition ObjectKinds :: "scheme \<Rightarrow> go_type \<Rightarrow> gvk list" where
  "ObjectKinds s t = map snd (filter (\<lambda>e. fst e = t) s)"

definition GVKForObject :: "go_type \<Rightarrow> scheme \<Rightarrow> go_error + gvk" where
  "GVKForObject t s =
     (case ObjectKinds s t of
        [] \<Rightarrow> Inl (ErrorString (''no kind is registered for the type v1alpha1.'' @ type_name t))
      | [k] \<Rightarrow> Inr k
      | _ \<Rightarrow> Inl (ErrorString (''multiple group-version-kinds associated with type *v1alpha1.''
                             @ type_name t @ '', refusing to guess at one'')))"

section \<open>Owner references\<close>

text \<open>\<open>ParseGroupVersion\<close>: the group and the version, or an error.\<close>

definition ParseGroupVersion :: "string \<Rightarrow> go_error + group_version" where
  "ParseGroupVersion gv =
     (if gv = [] \<or> gv = ''/'' then Inr \<lparr>gv_Group = [], gv_Version = []\<rparr>
      else case Split gv (CHR ''/'') of
             [v] \<Rightarrow> Inr \<lparr>gv_Group = [], gv_Version = v\<rparr>
           | [g, v] \<Rightarrow> Inr \<lparr>gv_Group = g, gv_Version = v\<rparr>
           | _ \<Rightarrow> Inl (ErrorString (''unexpected GroupVersion string: '' @ gv)))"

definition referSameObject :: "owner_reference \<Rightarrow> owner_reference \<Rightarrow> bool" where
  "referSameObject a b =
     (case ParseGroupVersion (or_APIVersion a) of
        Inl _ \<Rightarrow> False
      | Inr aGV \<Rightarrow>
          (case ParseGroupVersion (or_APIVersion b) of
             Inl _ \<Rightarrow> False
           | Inr bGV \<Rightarrow> gv_Group aGV = gv_Group bGV \<and> or_Kind a = or_Kind b
                        \<and> or_Name a = or_Name b))"

fun indexOwnerRef :: "owner_reference list \<Rightarrow> owner_reference \<Rightarrow> nat option" where
  "indexOwnerRef [] ref = None"
| "indexOwnerRef (r # rs) ref =
     (if referSameObject r ref then Some 0 else map_option Suc (indexOwnerRef rs ref))"

definition upsertOwnerRef :: "owner_reference \<Rightarrow> object_meta \<Rightarrow> object_meta" where
  "upsertOwnerRef ref object =
     (let owners = om_OwnerReferences object in
      object\<lparr>om_OwnerReferences :=
        (case indexOwnerRef owners ref of
           None \<Rightarrow> owners @ [ref]
         | Some idx \<Rightarrow> owners[idx := ref])\<rparr>)"

definition validateOwner :: "object_meta \<Rightarrow> object_meta \<Rightarrow> go_error option" where
  "validateOwner owner object =
     (if om_Namespace owner \<noteq> [] then
        (if om_Namespace object = [] then
           Some (ErrorString (''cluster-scoped resource must not have a namespace-scoped owner, ''
             @ ''owner's namespace '' @ om_Namespace owner))
         else if om_Namespace owner \<noteq> om_Namespace object then
           Some (ErrorString (''cross-namespace owner references are disallowed, ''
             @ ''owner's namespace '' @ om_Namespace owner @ '', obj's namespace ''
             @ om_Namespace object))
         else None)
      else None)"

definition GetControllerOf :: "object_meta \<Rightarrow> owner_reference option" where
  "GetControllerOf controllee =
     find (\<lambda>r. or_Controller r = Some True) (om_OwnerReferences controllee)"

definition already_owned_text :: "object_meta \<Rightarrow> owner_reference \<Rightarrow> string" where
  "already_owned_text object owner =
     ''Object '' @ om_Namespace object @ ''/'' @ om_Name object
     @ '' is already owned by another '' @ or_Kind owner @ '' controller '' @ or_Name owner"

text \<open>The owner comes with its Go type, which the scheme maps to a kind.\<close>

definition SetControllerReference ::
  "go_type \<Rightarrow> object_meta \<Rightarrow> object_meta \<Rightarrow> scheme \<Rightarrow> go_error + object_meta" where
  "SetControllerReference owner_type owner controlled scheme =
     (case validateOwner owner controlled of
        Some err \<Rightarrow> Inl err
      | None \<Rightarrow>
          (case GVKForObject owner_type scheme of
             Inl err \<Rightarrow> Inl err
           | Inr k \<Rightarrow>
               let ref = \<lparr>or_APIVersion = gv_String (gvk_GroupVersion k), or_Kind = gvk_Kind k,
                          or_Name = om_Name owner, or_UID = om_UID owner,
                          or_Controller = Some True, or_BlockOwnerDeletion = Some True\<rparr>
               in case GetControllerOf controlled of
                    Some existing \<Rightarrow>
                      if \<not> referSameObject existing ref
                      then Inl (ErrorString (already_owned_text controlled existing))
                      else Inr (upsertOwnerRef ref controlled)
                  | None \<Rightarrow> Inr (upsertOwnerRef ref controlled)))"

definition SetOwnerReference ::
  "go_type \<Rightarrow> object_meta \<Rightarrow> object_meta \<Rightarrow> scheme \<Rightarrow> go_error + object_meta" where
  "SetOwnerReference owner_type owner object scheme =
     (case validateOwner owner object of
        Some err \<Rightarrow> Inl err
      | None \<Rightarrow>
          (case GVKForObject owner_type scheme of
             Inl err \<Rightarrow> Inl err
           | Inr k \<Rightarrow>
               Inr (upsertOwnerRef
                 \<lparr>or_APIVersion = gv_String (gvk_GroupVersion k), or_Kind = gvk_Kind k,
                  or_Name = om_Name owner, or_UID = om_UID owner,
                  or_Controller = None, or_BlockOwnerDeletion = None\<rparr> object)))"

section \<open>Results of a reconciliation\<close>

record reconcile_result =
  Requeue :: bool
  RequeueAfter :: int

definition Result0 :: reconcile_result where
  "Result0 = \<lparr>Requeue = False, RequeueAfter = 0\<rparr>"

type_synonym reconcile_return = "reconcile_result \<times> go_error option"

end
