(* ===== verification/Tailored_Profile.thy ===== *)
theory Tailored_Profile
  imports Variables Xccdf Kube_Client
begin

text \<open>
  The TailoredProfile controller
  (\<open>pkg/controller/tailoredprofile/tailoredprofile_controller.go\<close>): one reconciliation as
  a computation over the cluster, with every early return, error path and write of the
  source. A reconciliation ends in the pair of a result and an error, or in a panic.
\<close>

section \<open>The reconciler\<close>

text \<open>
  The struct holds the client and the scheme. The model adds what the methods take from
  outside: the run-time environment and the converter of apimachinery from objects to
  unstructured content.
\<close>

record 'w ReconcileTailoredProfile =
  rtp_client :: "'w client"
  rtp_scheme :: scheme
  rtp_env :: go_env
  rtp_ToUnstructured :: "config_map \<Rightarrow> go_error + json"

definition tailoringFile :: string where
  "tailoringFile = ''tailoring.xml''"

section \<open>Helpers\<close>

definition newTailoredProfileCM :: "tailored_profile \<Rightarrow> config_map" where
  "newTailoredProfileCM tp =
     \<lparr>cm_TypeMeta = \<lparr>tm_Kind = ''ConfigMap'', tm_APIVersion = ''v1''\<rparr>,
      cm_Meta = zero_meta\<lparr>om_Name := om_Name (tp_Meta tp) @ ''-tp'',
                          om_Namespace := om_Namespace (tp_Meta tp),
                          om_Labels := [''tailored-profile'' \<mapsto> om_Name (tp_Meta tp)]\<rparr>,
      cm_Data = [tailoringFile \<mapsto> []]\<rparr>"

definition isOwnedBy :: "object_meta \<Rightarrow> object_meta \<Rightarrow> bool" where
  "isOwnedBy obj owner \<longleftrightarrow>
     list_ex (\<lambda>ref. or_UID ref = om_UID owner) (om_OwnerReferences obj)"

definition getProfileBundleReferenceFromProfile :: "profile \<Rightarrow> go_error + owner_reference" where
  "getProfileBundleReferenceFromProfile p =
     (case find (\<lambda>ref. or_Kind ref = ''ProfileBundle''
                       \<and> or_APIVersion ref = gv_String SchemeGroupVersion)
              (om_OwnerReferences (pr_Meta p)) of
        Some ref \<Rightarrow> Inr ref
      | None \<Rightarrow> Inl (ErrorString (''Profile '' @ [CHR 0x27] @ om_Name (pr_Meta p) @ [CHR 0x27]
                                @ '' had no owning ProfileBundle'')))"

section \<open>Status updates\<close>

definition updateTailoredProfileStatusReady ::
  "'w ReconcileTailoredProfile \<Rightarrow> tailored_profile \<Rightarrow> object_meta
   \<Rightarrow> ('w world, go_error option) state" where
  "updateTailoredProfileStatusReady r tp out =
     (let tpCopy = tp\<lparr>tp_Status := (tp_Status tp)
            \<lparr>tpst_State := TailoredProfileStateReady,
             tpst_OutputRef := \<lparr>oref_Name = om_Name out, oref_Namespace = om_Namespace out\<rparr>,
             tpst_ID := GetXCCDFProfileID tp\<rparr>\<rparr>
      in StatusUpdate (rtp_client r) (TailoredProfileObj tpCopy))"

definition updateTailoredProfileStatusError ::
  "'w ReconcileTailoredProfile \<Rightarrow> tailored_profile \<Rightarrow> go_error
   \<Rightarrow> ('w world, go_error option) state" where
  "updateTailoredProfileStatusError r tp err =
     (let tpCopy = tp\<lparr>tp_Status := (tp_Status tp)
            \<lparr>tpst_State := TailoredProfileStateError,
             tpst_ErrorMessage := error_text (rtp_env r) err\<rparr>\<rparr>
      in StatusUpdate (rtp_client r) (TailoredProfileObj tpCopy))"

section \<open>Validation\<close>

definition validateTailoredProfile ::
  "'w ReconcileTailoredProfile \<Rightarrow> tailored_profile
   \<Rightarrow> ('w world, bool \<times> go_error option) state" where
  "validateTailoredProfile r tp =
     (if tps_Extends (tp_Spec tp) = [] then do {
        err \<leftarrow> updateTailoredProfileStatusError r tp
                 (ErrorString ''.spec.extends can't be empty'');
        ret (False, err)
      }
      else if tps_OutputType (tp_Spec tp) = ConfigMapOutput then ret (True, None)
      else if tps_OutputType (tp_Spec tp) = PolicyOutput then ret (True, None)
      else if tps_OutputType (tp_Spec tp) = [] then do {
        err \<leftarrow> Update (rtp_client r)
                 (TailoredProfileObj
                   (tp\<lparr>tp_Spec := (tp_Spec tp)\<lparr>tps_OutputType := ConfigMapOutput\<rparr>\<rparr>));
        ret (False, err)
      }
      else do {
        err \<leftarrow> updateTailoredProfileStatusError r tp
                 (ErrorString ''.spec.outputType is invalid (accepted values: ConfigMap'');
        ret (False, err)
      })"

section \<open>Collecting the selections\<close>

text \<open>
  The three results of the source are an error with its retriable flag, or the collected
  objects.
\<close>

definition twice_error :: "string \<Rightarrow> go_error" where
  "twice_error name = ErrorString (''Rule '' @ [CHR 0x27] @ name @ [CHR 0x27]
     @ '' appears twice in selections (enableRules or disableRules)'')"

fun rules_loop ::
  "'w client \<Rightarrow> string \<Rightarrow> rule_reference_spec list \<Rightarrow> (string \<rightharpoonup> rule)
   \<Rightarrow> ('w world, (go_error \<times> bool) + (string \<rightharpoonup> rule)) state" where
  "rules_loop cl ns [] rules = ret (Inr rules)"
| "rules_loop cl ns (selection # selections) rules =
     (if rules (rr_Name selection) \<noteq> None
      then ret (Inl (twice_error (rr_Name selection), False))
      else do {
        got \<leftarrow> client_get (cl_Get_Rule cl) (nsn ns (rr_Name selection));
        case got of
          Inl err \<Rightarrow> ret (Inl (err, if IsNotFound err then False else True))
        | Inr rule \<Rightarrow> rules_loop cl ns selections (rules(rr_Name selection \<mapsto> rule))
      })"

definition getRulesFromSelections ::
  "'w ReconcileTailoredProfile \<Rightarrow> tailored_profile
   \<Rightarrow> ('w world, (go_error \<times> bool) + (string \<rightharpoonup> rule)) state" where
  "getRulesFromSelections r tp =
     rules_loop (rtp_client r) (om_Namespace (tp_Meta tp))
       (tps_EnableRules (tp_Spec tp) @ tps_DisableRules (tp_Spec tp)) Map.empty"

fun variables_loop ::
  "'w client \<Rightarrow> string \<Rightarrow> variable_value_spec list \<Rightarrow> variable list
   \<Rightarrow> ('w world, (go_error \<times> bool) + variable list) state" where
  "variables_loop cl ns [] variableList = ret (Inr variableList)"
| "variables_loop cl ns (setValues # rest) variableList = do {
     got \<leftarrow> client_get (cl_Get_Variable cl) (nsn ns (vv_Name setValues));
     case got of
       Inl err \<Rightarrow> ret (Inl (err, if IsNotFound err then False else True))
     | Inr variable \<Rightarrow>
         (case SetValue variable (vv_Value setValues) of
            (Some err, _) \<Rightarrow> ret (Inl (err, False))
          | (None, variable') \<Rightarrow> variables_loop cl ns rest (variableList @ [variable']))
   }"

definition getVariablesFromSelections ::
  "'w ReconcileTailoredProfile \<Rightarrow> tailored_profile
   \<Rightarrow> ('w world, (go_error \<times> bool) + variable list) state" where
  "getVariablesFromSelections r tp =
     variables_loop (rtp_client r) (om_Namespace (tp_Meta tp)) (tps_SetValues (tp_Spec tp)) []"

definition getProfileBundleFromProfile ::
  "'w ReconcileTailoredProfile \<Rightarrow> profile \<Rightarrow> ('w world, go_error + profile_bundle) state" where
  "getProfileBundleFromProfile r p =
     (case getProfileBundleReferenceFromProfile p of
        Inl err \<Rightarrow> ret (Inl err)
      | Inr pbRef \<Rightarrow>
          client_get (cl_Get_ProfileBundle (rtp_client r))
            (nsn (om_Namespace (pr_Meta p)) (or_Name pbRef)))"

section \<open>The output objects\<close>

definition ensureConfigMapOutputObject ::
  "'w ReconcileTailoredProfile \<Rightarrow> tailored_profile \<Rightarrow> config_map
   \<Rightarrow> ('w world, reconcile_return) state" where
  "ensureConfigMapOutputObject r tp tpcm =
     (case SetControllerReference T_TailoredProfile (tp_Meta tp) (cm_Meta tpcm) (rtp_scheme r) of
        Inl err \<Rightarrow> ret (Result0, Some err)
      | Inr meta \<Rightarrow>
          (let tpcm = tpcm\<lparr>cm_Meta := meta\<rparr> in do {
             found \<leftarrow> client_get (cl_Get_ConfigMap (rtp_client r)) (key_of (cm_Meta tpcm));
             case found of
               Inl err \<Rightarrow>
                 if IsNotFound err then do {
                   err \<leftarrow> updateTailoredProfileStatusReady r tp (cm_Meta tpcm);
                   case err of
                     Some e \<Rightarrow> ret (Result0, Some e)
                   | None \<Rightarrow> do {
                       err \<leftarrow> Create (rtp_client r) (ConfigMapObj tpcm);
                       ret (Result0, err)
                     }
                 }
                 else ret (Result0, Some err)
             | Inr _ \<Rightarrow> ret (Result0, None)
           }))"

text \<open>The ComplianceSuite and the Policy that carries it, field by field.\<close>

definition suiteObj :: "tailored_profile \<Rightarrow> config_map \<Rightarrow> profile_bundle \<Rightarrow> json" where
  "suiteObj tp tpcm pb =
     JObject
       [(''apiVersion'', JString ''compliance.openshift.io/v1alpha1''),
        (''kind'', JString ''ComplianceSuite''),
        (''metadata'', JObject [(''name'', JString (om_Name (tp_Meta tp)))]),
        (''spec'', JObject
          [(''schedule'', JString ''0 1 * * *''),
           (''autoApplyRemediations'', JBool False),
           (''scans'', JArray
             [JObject
               [(''name'', JString (om_Name (tp_Meta tp) @ ''-worker-scan'')),
                (''profile'', JString (GetXCCDFProfileID tp)),
                (''content'', JString (pbs_ContentFile (pb_Spec pb))),
                (''contentImage'', JString (pbs_ContentImage (pb_Spec pb))),
                (''nodeSelector'', JObject [(''node-role.kubernetes.io/worker'', JString [])]),
                (''tailoringConfigMap'', JObject [(''name'', JString (om_Name (cm_Meta tpcm)))])]])])]"

definition policyObj :: "tailored_profile \<Rightarrow> json \<Rightarrow> json \<Rightarrow> json" where
  "policyObj tp cmUnstructured suite =
     JObject
       [(''apiVersion'', JString ''policy.mcm.ibm.com/v1alpha1''),
        (''kind'', JString ''Policy''),
        (''metadata'', JObject [(''name'', JString (om_Name (tp_Meta tp))),
                              (''namespace'', JString (om_Namespace (tp_Meta tp)))]),
        (''spec'', JObject
          [(''disabled'', JBool False),
           (''remediationAction'', JString ''inform''),
           (''namespaces'', JObject [(''exclude'', JArray [JString ''kube-*'']),
                                   (''include'', JArray [JString ''default''])]),
           (''policy-templates'', JArray
             [JObject [(''objectDefinition'', cmUnstructured)],
              JObject [(''objectDefinition'', suite)]])])]"

definition ensurePolicyOutputObject ::
  "'w ReconcileTailoredProfile \<Rightarrow> tailored_profile \<Rightarrow> config_map \<Rightarrow> profile_bundle
   \<Rightarrow> ('w world, reconcile_return) state" where
  "ensurePolicyOutputObject r tp tpcm pb =
     (let objKey = key_of (tp_Meta tp);
          tpcm = tpcm\<lparr>cm_Meta := (cm_Meta tpcm)\<lparr>om_Namespace := []\<rparr>\<rparr> in
      case rtp_ToUnstructured r tpcm of
        Inl err \<Rightarrow> do {
          updateErr \<leftarrow> updateTailoredProfileStatusError r tp
            (ErrorString (''Couldn't convert ConfigMap to Unstructured: ''
                          @ error_text (rtp_env r) err));
          ret (Result0, updateErr)
        }
      | Inr cmUnstructured \<Rightarrow>
          (let policy = policyObj tp cmUnstructured (suiteObj tp tpcm pb) in do {
             found \<leftarrow> client_get (cl_Get_Policy (rtp_client r)) objKey;
             case found of
               Inl err \<Rightarrow>
                 if IsNotFound err then do {
                   err \<leftarrow> updateTailoredProfileStatusReady r tp (cm_Meta tpcm);
                   case err of
                     Some e \<Rightarrow> ret (Result0, Some e)
                   | None \<Rightarrow> do {
                       err \<leftarrow> Create (rtp_client r) (UnstructuredObj policy);
                       ret (Result0, err)
                     }
                 }
                 else ret (Result0, Some err)
             | Inr _ \<Rightarrow> ret (Result0, None)
           }))"

definition ensureOutputObject ::
  "'w ReconcileTailoredProfile \<Rightarrow> tailored_profile \<Rightarrow> config_map \<Rightarrow> profile_bundle
   \<Rightarrow> ('w world, reconcile_return) state" where
  "ensureOutputObject r tp cm pb =
     (if tps_OutputType (tp_Spec tp) = ConfigMapOutput then ensureConfigMapOutputObject r tp cm
      else if tps_OutputType (tp_Spec tp) = PolicyOutput then ensurePolicyOutputObject r tp cm pb
      else ret (Result0, None))"

section \<open>Reconcile\<close>

text \<open>
  An error of the selections goes to the status when it is final (a failed status update is
  returned, to requeue), and is returned when it may be transient.
\<close>

definition surface_error ::
  "'w ReconcileTailoredProfile \<Rightarrow> tailored_profile \<Rightarrow> go_error
   \<Rightarrow> ('w world, go_panic + reconcile_return) state" where
  "surface_error r tp err = do {
     err \<leftarrow> updateTailoredProfileStatusError r tp err;
     case err of
       Some e \<Rightarrow> ret (Inr (Result0, Some e))
     | None \<Rightarrow> ret (Inr (Result0, None))
   }"

text \<open>
  The body of \<open>Reconcile\<close> in three parts, as its comments divide it: the output of an
  instance that its profile owns; the profile being extended and the ownership; and, first
  in the source, fetching and validating the instance.
\<close>

definition reconcile_owned ::
  "'w ReconcileTailoredProfile \<Rightarrow> tailored_profile \<Rightarrow> profile
   \<Rightarrow> ('w world, go_panic + reconcile_return) state" where
  "reconcile_owned r inst p = do {
     got \<leftarrow> getProfileBundleFromProfile r p;
     case got of Inl err \<Rightarrow> ret (Inr (Result0, Some err)) | Inr pb \<Rightarrow> do {
     got \<leftarrow> getRulesFromSelections r inst;
     case got of
       Inl (err, retriableErr) \<Rightarrow>
         if \<not> retriableErr then surface_error r inst err else ret (Inr (Result0, Some err))
     | Inr rules \<Rightarrow> do {
     got \<leftarrow> getVariablesFromSelections r inst;
     case got of
       Inl (err, retriableErr) \<Rightarrow>
         if \<not> retriableErr then surface_error r inst err else ret (Inr (Result0, Some err))
     | Inr variables \<Rightarrow>
     (let tpcm = newTailoredProfileCM inst in
      case TailoredProfileToXML (rtp_env r) inst p pb rules variables of
        Inl panic \<Rightarrow> ret (Inl panic)
      | Inr (Inl err) \<Rightarrow> ret (Inr (Result0, Some err))
      | Inr (Inr xml) \<Rightarrow> do {
          ans \<leftarrow> ensureOutputObject r inst (tpcm\<lparr>cm_Data := (cm_Data tpcm)(tailoringFile \<mapsto> xml)\<rparr>) pb;
          ret (Inr ans)
        })
     }}}"

definition reconcile_instance ::
  "'w ReconcileTailoredProfile \<Rightarrow> tailored_profile
   \<Rightarrow> ('w world, go_panic + reconcile_return) state" where
  "reconcile_instance r inst = do {
     got \<leftarrow> client_get (cl_Get_Profile (rtp_client r))
              (nsn (om_Namespace (tp_Meta inst)) (tps_Extends (tp_Spec inst)));
     case got of
       Inl err \<Rightarrow>
         if IsNotFound err then surface_error r inst err else ret (Inr (Result0, Some err))
     | Inr p \<Rightarrow>
         if \<not> isOwnedBy (tp_Meta inst) (pr_Meta p) then
           (case SetOwnerReference T_Profile (pr_Meta p) (tp_Meta inst) (rtp_scheme r) of
              Inl err \<Rightarrow> ret (Inr (Result0, Some err))
            | Inr meta \<Rightarrow> do {
                err \<leftarrow> Update (rtp_client r) (TailoredProfileObj (inst\<lparr>tp_Meta := meta\<rparr>));
                ret (Inr (Result0, err))
              })
         else reconcile_owned r inst p
   }"

definition Reconcile ::
  "'w ReconcileTailoredProfile \<Rightarrow> nsname \<Rightarrow> ('w world, go_panic + reconcile_return) state" where
  "Reconcile r request = do {
     got \<leftarrow> client_get (cl_Get_TailoredProfile (rtp_client r)) request;
     case got of
       Inl err \<Rightarrow>
         if IsNotFound err then ret (Inr (Result0, None)) else ret (Inr (Result0, Some err))
     | Inr inst \<Rightarrow> do {
         (canContinue, err) \<leftarrow> validateTailoredProfile r inst;
         if \<not> canContinue then ret (Inr (Result0, err)) else reconcile_instance r inst
       }
   }"

end
