(* ===== verification/Effects.thy ===== *)
theory Effects
  imports Kube_Client
begin

text \<open>
  Reasoning about the writes of a computation whatever the API server answers:
  \<open>effects m Q\<close> says that from every state \<open>m\<close> only adds writes to the trace, and that
  \<open>Q\<close> holds of its result and of the writes it added. The rules in \<open>effects_intro\<close> follow
  the shape of a program; a procedure adds its own rule to the collection.
\<close>

definition effects :: "('w world, 'a) state \<Rightarrow> ('a \<Rightarrow> api_write list \<Rightarrow> bool) \<Rightarrow> bool" where
  "effects m Q \<longleftrightarrow>
     (\<forall>s. \<exists>ws. w_writes (snd (run_state m s)) = w_writes s @ ws
            \<and> Q (fst (run_state m s)) ws)"

named_theorems effects_intro \<open>syntax-directed rules for effects\<close>

lemma effectsD:
  assumes "effects m Q"
  shows "\<exists>ws. w_writes (snd (run_state m s)) = w_writes s @ ws \<and> Q (fst (run_state m s)) ws"
  using assms by (simp add: effects_def)

lemma effects_mono: "effects m P \<Longrightarrow> (\<And>a ws. P a ws \<Longrightarrow> Q a ws) \<Longrightarrow> effects m Q"
  unfolding effects_def by meson

lemma effects_ret [effects_intro]: "Q a [] \<Longrightarrow> effects (ret a) Q"
  by (simp add: effects_def)

lemma effects_bind [effects_intro]:
  assumes "effects m (\<lambda>a ws. effects (f a) (\<lambda>b ws'. Q b (ws @ ws')))"
  shows "effects (State_Monad.bind m f) Q"
  unfolding effects_def
proof
  fix s
  obtain a s1 where m: "run_state m s = (a, s1)" by (cases "run_state m s")
  from effectsD [OF assms, of s] m obtain ws
    where ws: "w_writes s1 = w_writes s @ ws"
      and f: "effects (f a) (\<lambda>b ws'. Q b (ws @ ws'))" by auto
  from effectsD [OF f, of s1] m ws
  show "\<exists>ws. w_writes (snd (run_state (State_Monad.bind m f) s)) = w_writes s @ ws
      \<and> Q (fst (run_state (State_Monad.bind m f) s)) ws"
    by auto
qed

lemma effects_get [effects_intro]: "(\<And>a. Q a []) \<Longrightarrow> effects (client_get g k) Q"
  by (simp add: effects_def client_get_def split: prod.split)

lemma effects_client_write:
  "(\<And>e. Q e [\<lparr>wr_Verb = v, wr_Object = x, wr_Error = e\<rparr>]) \<Longrightarrow> effects (client_write v f x) Q"
  by (simp add: effects_def client_write_def split: prod.split)

lemma effects_writes [effects_intro]:
  "(\<And>e. Q e [\<lparr>wr_Verb = Create_verb, wr_Object = x, wr_Error = e\<rparr>]) \<Longrightarrow> effects (Create cl x) Q"
  "(\<And>e. Q e [\<lparr>wr_Verb = Update_verb, wr_Object = x, wr_Error = e\<rparr>]) \<Longrightarrow> effects (Update cl x) Q"
  "(\<And>e. Q e [\<lparr>wr_Verb = StatusUpdate_verb, wr_Object = x, wr_Error = e\<rparr>])
     \<Longrightarrow> effects (StatusUpdate cl x) Q"
  by (simp_all add: Create_def Update_def StatusUpdate_def effects_client_write)

lemma effects_if [effects_intro]:
  "(b \<Longrightarrow> effects m Q) \<Longrightarrow> (\<not> b \<Longrightarrow> effects n Q) \<Longrightarrow> effects (if b then m else n) Q"
  by simp

lemma effects_case_sum [effects_intro]:
  "(\<And>e. x = Inl e \<Longrightarrow> effects (f e) Q) \<Longrightarrow> (\<And>v. x = Inr v \<Longrightarrow> effects (g v) Q)
     \<Longrightarrow> effects (case x of Inl e \<Rightarrow> f e | Inr v \<Rightarrow> g v) Q"
  by (cases x) simp_all

lemma effects_case_option [effects_intro]:
  "(x = None \<Longrightarrow> effects m Q) \<Longrightarrow> (\<And>v. x = Some v \<Longrightarrow> effects (g v) Q)
     \<Longrightarrow> effects (case x of None \<Rightarrow> m | Some v \<Rightarrow> g v) Q"
  by (cases x) simp_all

lemma effects_case_prod [effects_intro]:
  "(\<And>a b. x = (a, b) \<Longrightarrow> effects (f a b) Q) \<Longrightarrow> effects (case x of (a, b) \<Rightarrow> f a b) Q"
  by (cases x) simp

lemma effects_let [effects_intro]: "effects (f x) Q \<Longrightarrow> effects (let y = x in f y) Q"
  by simp

section \<open>Owner references\<close>

lemma Split_gv [simp]:
  "Split ''compliance.openshift.io/v1alpha1'' (CHR ''/'') = [''compliance.openshift.io'', ''v1alpha1'']"
  by simp

lemma gv_String_scheme: "gv_String SchemeGroupVersion = ''compliance.openshift.io/v1alpha1''"
  by (simp add: gv_String_def SchemeGroupVersion_def)

lemma indexOwnerRef_Some:
  "indexOwnerRef refs ref = Some i \<Longrightarrow> i < length refs \<and> referSameObject (refs ! i) ref"
  by (induction refs arbitrary: i) (auto split: if_splits)

lemma indexOwnerRef_None: "indexOwnerRef refs ref = None \<Longrightarrow> r \<in> set refs \<Longrightarrow> \<not> referSameObject r ref"
  by (induction refs) (auto split: if_splits)

lemma upsertOwnerRef_frame [simp, go_frame]:
  "om_Name (upsertOwnerRef ref m) = om_Name m"
  "om_Namespace (upsertOwnerRef ref m) = om_Namespace m"
  "om_UID (upsertOwnerRef ref m) = om_UID m"
  "om_Labels (upsertOwnerRef ref m) = om_Labels m"
  "om_Annotations (upsertOwnerRef ref m) = om_Annotations m"
  by (simp_all add: upsertOwnerRef_def Let_def)

lemma upsertOwnerRef_mem: "ref \<in> set (om_OwnerReferences (upsertOwnerRef ref m))"
  by (auto simp: upsertOwnerRef_def Let_def set_update_memI dest: indexOwnerRef_Some
      split: option.split)

lemma upsertOwnerRef_others:
  assumes "r \<in> set (om_OwnerReferences m)" and "\<not> referSameObject r ref"
  shows "r \<in> set (om_OwnerReferences (upsertOwnerRef ref m))"
proof (cases "indexOwnerRef (om_OwnerReferences m) ref")
  case None
  with assms(1) show ?thesis by (simp add: upsertOwnerRef_def Let_def)
next
  case (Some i)
  let ?refs = "om_OwnerReferences m"
  from assms(1) obtain j where j: "j < length ?refs" "?refs ! j = r"
    by (auto simp: in_set_conv_nth)
  with indexOwnerRef_Some [OF Some] assms(2) have "j \<noteq> i" by auto
  with j have "(?refs[i := ref]) ! j = r" "j < length (?refs[i := ref])" by auto
  then have "r \<in> set (?refs[i := ref])" by (metis nth_mem)
  with Some show ?thesis by (simp add: upsertOwnerRef_def Let_def)
qed

lemma upsertOwnerRef_only:
  "set (om_OwnerReferences (upsertOwnerRef ref m)) \<subseteq> insert ref (set (om_OwnerReferences m))"
proof (cases "indexOwnerRef (om_OwnerReferences m) ref")
  case (Some i)
  then show ?thesis
    using set_update_subset_insert [of "om_OwnerReferences m" i ref]
    by (simp add: upsertOwnerRef_def Let_def)
qed (simp add: upsertOwnerRef_def Let_def)

text \<open>
  Both helpers of controller-runtime keep the same promise: on success the object carries a
  reference with the owner's identity, every reference to another object is kept, and nothing
  but the references changes.
\<close>

definition refers_to :: "gvk \<Rightarrow> object_meta \<Rightarrow> owner_reference \<Rightarrow> bool" where
  "refers_to k owner ref \<longleftrightarrow>
     or_APIVersion ref = gv_String (gvk_GroupVersion k) \<and> or_Kind ref = gvk_Kind k
     \<and> or_Name ref = om_Name owner \<and> or_UID ref = om_UID owner"

locale owner_setter =
  fixes set_ref :: "go_type \<Rightarrow> object_meta \<Rightarrow> object_meta \<Rightarrow> scheme \<Rightarrow> go_error + object_meta"
  assumes upserts: "set_ref t owner obj sch = Inr obj' \<Longrightarrow>
      \<exists>k ref. obj' = upsertOwnerRef ref obj \<and> GVKForObject t sch = Inr k \<and> refers_to k owner ref"
    and same_namespace: "set_ref t owner obj sch = Inr obj' \<Longrightarrow>
      om_Namespace owner = [] \<or> om_Namespace owner = om_Namespace obj"
begin

lemma owned:
  assumes "set_ref t owner obj sch = Inr obj'" and "GVKForObject t sch = Inr k"
  shows "\<exists>ref \<in> set (om_OwnerReferences obj'). refers_to k owner ref"
  using upserts [OF assms(1)] assms(2) upsertOwnerRef_mem by fastforce

lemma carries_uid:
  assumes "set_ref t owner obj sch = Inr obj'"
  shows "list_ex (\<lambda>ref. or_UID ref = om_UID owner) (om_OwnerReferences obj')"
  using upserts [OF assms] upsertOwnerRef_mem by (fastforce simp: list_ex_iff refers_to_def)

lemma frame:
  assumes "set_ref t owner obj sch = Inr obj'"
  shows "om_Name obj' = om_Name obj" "om_Namespace obj' = om_Namespace obj"
    "om_UID obj' = om_UID obj" "om_Labels obj' = om_Labels obj"
    "om_Annotations obj' = om_Annotations obj"
  using upserts [OF assms] by auto

lemma keeps_others:
  assumes "set_ref t owner obj sch = Inr obj'" and "r \<in> set (om_OwnerReferences obj)"
    and "or_Name r \<noteq> om_Name owner"
  shows "r \<in> set (om_OwnerReferences obj')"
proof -
  from upserts [OF assms(1)] obtain k ref where
    "obj' = upsertOwnerRef ref obj" "refers_to k owner ref" by blast
  moreover from this assms(3) have "\<not> referSameObject r ref"
    by (auto simp: referSameObject_def refers_to_def split: sum.splits)
  ultimately show ?thesis using upsertOwnerRef_others [OF assms(2)] by blast
qed

end

lemma validateOwner_None:
  "validateOwner owner obj = None \<longleftrightarrow>
     om_Namespace owner = [] \<or> om_Namespace owner = om_Namespace obj"
  by (auto simp: validateOwner_def)

lemma SetOwnerReference_Inr:
  "SetOwnerReference t owner obj sch = Inr obj' \<longleftrightarrow>
     validateOwner owner obj = None \<and>
     (\<exists>k. GVKForObject t sch = Inr k \<and> obj' = upsertOwnerRef
        \<lparr>or_APIVersion = gv_String (gvk_GroupVersion k), or_Kind = gvk_Kind k,
         or_Name = om_Name owner, or_UID = om_UID owner,
         or_Controller = None, or_BlockOwnerDeletion = None\<rparr> obj)"
  by (auto simp: SetOwnerReference_def split: option.splits sum.splits)

lemma SetControllerReference_Inr:
  "SetControllerReference t owner obj sch = Inr obj' \<Longrightarrow>
     validateOwner owner obj = None \<and>
     (\<exists>k. GVKForObject t sch = Inr k \<and> obj' = upsertOwnerRef
        \<lparr>or_APIVersion = gv_String (gvk_GroupVersion k), or_Kind = gvk_Kind k,
         or_Name = om_Name owner, or_UID = om_UID owner,
         or_Controller = Some True, or_BlockOwnerDeletion = Some True\<rparr> obj)"
  by (auto simp: SetControllerReference_def Let_def split: option.splits sum.splits if_splits)

lemma SetControllerReference_fresh:
  assumes "om_Namespace owner = om_Namespace obj" and "om_OwnerReferences obj = []"
    and "GVKForObject t sch = Inr k"
  shows "\<exists>m. SetControllerReference t owner obj sch = Inr m"
proof -
  from assms(1) have "validateOwner owner obj = None" by (simp add: validateOwner_None)
  with assms(2,3) show ?thesis
    by (simp add: SetControllerReference_def GetControllerOf_def Let_def)
qed

lemma refers_to_simp:
  "refers_to k owner \<lparr>or_APIVersion = gv_String (gvk_GroupVersion k), or_Kind = gvk_Kind k,
     or_Name = om_Name owner, or_UID = om_UID owner, or_Controller = c, or_BlockOwnerDeletion = b\<rparr>"
  by (simp add: refers_to_def)

interpretation owner_ref: owner_setter SetOwnerReference
  using SetOwnerReference_Inr refers_to_simp validateOwner_None by unfold_locales blast+

interpretation controller_ref: owner_setter SetControllerReference
  using SetControllerReference_Inr refers_to_simp validateOwner_None by unfold_locales blast+

section \<open>Writes that concern an instance\<close>

text \<open>
  An object whose only owner and controller is the instance under a key, and writes that
  succeeded and concern that instance: its own object, or one it controls.
\<close>

definition controlled_for :: "go_type \<Rightarrow> scheme \<Rightarrow> nsname \<Rightarrow> object_meta \<Rightarrow> bool" where
  "controlled_for t sch k m \<longleftrightarrow> (\<exists>owner obj. key_of owner = k \<and> om_OwnerReferences obj = []
     \<and> om_Namespace owner = om_Namespace obj \<and> SetControllerReference t owner obj sch = Inr m)"

lemma controlled_for_fresh:
  "SetControllerReference t owner obj sch = Inr m \<Longrightarrow> om_OwnerReferences obj = []
    \<Longrightarrow> om_Namespace obj = om_Namespace owner \<Longrightarrow> controlled_for t sch (key_of owner) m"
  unfolding controlled_for_def by (intro exI [of _ owner] exI [of _ obj]) simp

fun concerns :: "go_type \<Rightarrow> scheme \<Rightarrow> nsname \<Rightarrow> kobject \<Rightarrow> bool" where
  "concerns t sch k (TailoredProfileObj tp) \<longleftrightarrow> t = T_TailoredProfile \<and> key_of (tp_Meta tp) = k"
| "concerns t sch k (ConfigMapObj cm) \<longleftrightarrow> t = T_TailoredProfile \<and> controlled_for t sch k (cm_Meta cm)"
| "concerns t sch k (ProfileBundleObj pb) \<longleftrightarrow> t = T_ProfileBundle \<and> key_of (pb_Meta pb) = k"
| "concerns t sch k (PodObj pod) \<longleftrightarrow> t = T_ProfileBundle \<and> controlled_for t sch k (pod_Meta pod)"
| "concerns t sch k x \<longleftrightarrow> False"

definition writes_for :: "go_type \<Rightarrow> scheme \<Rightarrow> nsname \<Rightarrow> api_write list \<Rightarrow> bool" where
  "writes_for t sch k = list_all (\<lambda>w. wr_Error w = None \<and> concerns t sch k (wr_Object w))"

lemma writes_for_simps [simp]:
  "writes_for t sch k []"
  "writes_for t sch k (ws @ ws') \<longleftrightarrow> writes_for t sch k ws \<and> writes_for t sch k ws'"
  "writes_for t sch k (w # ws) \<longleftrightarrow>
     wr_Error w = None \<and> concerns t sch k (wr_Object w) \<and> writes_for t sch k ws"
  by (auto simp: writes_for_def)

text \<open>The writes that went through.\<close>

definition succeeded :: "api_write list \<Rightarrow> api_write list" where
  "succeeded ws = filter (\<lambda>w. wr_Error w = None) ws"

lemma succeeded_simps [simp]:
  "succeeded [] = []"
  "succeeded (w # ws) = (if wr_Error w = None then w # succeeded ws else succeeded ws)"
  "succeeded (ws @ ws') = succeeded ws @ succeeded ws'"
  by (simp_all add: succeeded_def)

lemma succeeded_all: "writes_for t sch k ws \<Longrightarrow> succeeded ws = ws"
  by (auto simp: writes_for_def succeeded_def list_all_iff)

end
