(* ===== verification/Tailored_Profile_Correct.thy ===== *)
theory Tailored_Profile_Correct
  imports Tailored_Profile Effects
begin

text \<open>
  What one reconciliation of a TailoredProfile guarantees whatever the API server answers:
  no panic, which writes it issues and in which order, and what an output object it creates
  looks like.
\<close>

section \<open>Ownership\<close>

lemma isOwnedBy_iff:
  "isOwnedBy obj owner \<longleftrightarrow> (\<exists>ref \<in> set (om_OwnerReferences obj). or_UID ref = om_UID owner)"
  by (auto simp: isOwnedBy_def list_ex_iff)

lemma isOwnedBy_SetOwnerReference:
  "SetOwnerReference t owner obj sch = Inr obj' \<Longrightarrow> isOwnedBy obj' owner"
  using owner_ref.carries_uid by (simp add: isOwnedBy_def)

section \<open>Rules for the procedures\<close>

lemma rules_loop_effects:
  "effects (rules_loop cl ns sels rules)
     (\<lambda>res ws. ws = [] \<and> (\<forall>m. res = Inr m \<longrightarrow>
        dom m = dom rules \<union> rr_Name ` set sels \<and> distinct (map rr_Name sels)
        \<and> dom rules \<inter> rr_Name ` set sels = {}))"
proof (induction sels arbitrary: rules)
  case Nil
  show ?case by (simp add: effects_ret)
next
  case (Cons sel sels)
  show ?case
  proof (cases "rules (rr_Name sel)")
    case (Some x)
    then show ?thesis by (simp add: effects_ret)
  next
    case None
    have "effects (rules_loop cl ns sels (rules(rr_Name sel \<mapsto> rule)))
        (\<lambda>res ws. ws = [] \<and> (\<forall>m. res = Inr m \<longrightarrow>
          dom m = dom rules \<union> rr_Name ` set (sel # sels) \<and> distinct (map rr_Name (sel # sels))
          \<and> dom rules \<inter> rr_Name ` set (sel # sels) = {}))" for rule
      using None by (intro effects_mono [OF Cons.IH]) (auto simp del: fun_upd_apply)
    with None show ?thesis
      by (auto intro!: effects_intro)
  qed
qed

lemma effects_getRules [effects_intro]:
  assumes "\<And>res. (\<And>m. res = Inr m \<Longrightarrow>
      dom m = set (selected_names tp) \<and> distinct (selected_names tp)) \<Longrightarrow> Q res []"
  shows "effects (getRulesFromSelections r tp) Q"
  unfolding getRulesFromSelections_def
proof (rule effects_mono [OF rules_loop_effects], elim conjE)
  fix res :: "(go_error \<times> bool) + (string \<rightharpoonup> rule)" and ws :: "api_write list"
  let ?sels = "tps_EnableRules (tp_Spec tp) @ tps_DisableRules (tp_Spec tp)"
  assume "ws = []" and post: "\<forall>m. res = Inr m \<longrightarrow>
    dom m = dom Map.empty \<union> rr_Name ` set ?sels \<and> distinct (map rr_Name ?sels)
    \<and> dom Map.empty \<inter> rr_Name ` set ?sels = {}"
  have "Q res []"
    by (rule assms) (use post in \<open>simp add: selected_names_def image_Un\<close>)
  with \<open>ws = []\<close> show "Q res ws" by simp
qed

lemma variables_loop_effects:
  "effects (variables_loop cl ns svs vars)
     (\<lambda>res ws. ws = [] \<and> (\<forall>vs. res = Inr vs \<longrightarrow>
        (\<exists>new. vs = vars @ new \<and> map va_Value new = map vv_Value svs)))"
proof (induction svs arbitrary: vars)
  case Nil
  show ?case by (simp add: effects_ret)
next
  case (Cons sv svs)
  have "effects (variables_loop cl ns svs (vars @ [v']))
      (\<lambda>res ws. ws = [] \<and> (\<forall>vs. res = Inr vs \<longrightarrow>
        (\<exists>new. vs = vars @ new \<and> map va_Value new = map vv_Value (sv # svs))))"
    if "SetValue v (vv_Value sv) = (None, v')" for v v'
  proof (rule effects_mono [OF Cons.IH])
    fix res ws
    have "va_Value v' = vv_Value sv"
      using that SetValue_None by fastforce
    then show "ws = [] \<and> (\<forall>vs. res = Inr vs \<longrightarrow>
          (\<exists>new. vs = (vars @ [v']) @ new \<and> map va_Value new = map vv_Value svs)) \<Longrightarrow>
        ws = [] \<and> (\<forall>vs. res = Inr vs \<longrightarrow>
          (\<exists>new. vs = vars @ new \<and> map va_Value new = map vv_Value (sv # svs)))"
      by (metis (no_types, opaque_lifting) append_Cons append_Nil append_assoc list.simps(9))
  qed
  then show ?case
    by (auto intro!: effects_intro)
qed

lemma effects_getVariables [effects_intro]:
  assumes "\<And>res. (\<And>vs. res = Inr vs \<Longrightarrow>
      map va_Value vs = map vv_Value (tps_SetValues (tp_Spec tp))) \<Longrightarrow> Q res []"
  shows "effects (getVariablesFromSelections r tp) Q"
  unfolding getVariablesFromSelections_def
  by (rule effects_mono [OF variables_loop_effects]) (auto intro: assms)

lemma effects_getProfileBundle [effects_intro]:
  "(\<And>res. Q res []) \<Longrightarrow> effects (getProfileBundleFromProfile r p) Q"
  unfolding getProfileBundleFromProfile_def by (auto intro!: effects_intro)

section \<open>The writes of a reconciliation\<close>

text \<open>The status that announces a finished TailoredProfile.\<close>

definition ready_status :: "tailored_profile \<Rightarrow> object_meta \<Rightarrow> tailored_profile" where
  "ready_status tp out = tp\<lparr>tp_Status := (tp_Status tp)
     \<lparr>tpst_State := TailoredProfileStateReady,
      tpst_OutputRef := \<lparr>oref_Name = om_Name out, oref_Namespace = om_Namespace out\<rparr>,
      tpst_ID := GetXCCDFProfileID tp\<rparr>\<rparr>"

text \<open>
  The inputs a document may be built from: one rule object for every selected name, no name
  selected twice, and for every set value a variable that now holds it.
\<close>

definition tailoring_doc ::
  "go_env \<Rightarrow> tailored_profile \<Rightarrow> profile \<Rightarrow> profile_bundle \<Rightarrow> string \<Rightarrow> bool" where
  "tailoring_doc env tp p pb xml \<longleftrightarrow>
     (\<exists>rules variables.
        dom rules = set (selected_names tp) \<and> distinct (selected_names tp)
        \<and> map va_Value variables = map vv_Value (tps_SetValues (tp_Spec tp))
        \<and> TailoredProfileToXML env tp p pb rules variables = Inr (Inr xml))"

text \<open>
  The object a reconciliation creates, by output type, and the metadata its status refers
  to: a ConfigMap with the document, controlled by the TailoredProfile; or a Policy that
  carries such a ConfigMap, without a namespace, and the suite.
\<close>

inductive output_object ::
  "'w ReconcileTailoredProfile \<Rightarrow> tailored_profile \<Rightarrow> object_meta \<Rightarrow> kobject \<Rightarrow> bool"
  for r :: "'w ReconcileTailoredProfile" and tp :: tailored_profile where
  config_map:
    "tps_OutputType (tp_Spec tp) = ConfigMapOutput \<Longrightarrow>
     tailoring_doc (rtp_env r) tp p pb xml \<Longrightarrow>
     SetControllerReference T_TailoredProfile (tp_Meta tp) (cm_Meta (newTailoredProfileCM tp))
       (rtp_scheme r) = Inr meta \<Longrightarrow>
     output_object r tp meta
       (ConfigMapObj ((newTailoredProfileCM tp)\<lparr>cm_Data := [tailoringFile \<mapsto> xml], cm_Meta := meta\<rparr>))"
| policy:
    "tps_OutputType (tp_Spec tp) = PolicyOutput \<Longrightarrow>
     tailoring_doc (rtp_env r) tp p pb xml \<Longrightarrow>
     cm = (newTailoredProfileCM tp)\<lparr>cm_Data := [tailoringFile \<mapsto> xml],
            cm_Meta := (cm_Meta (newTailoredProfileCM tp))\<lparr>om_Namespace := []\<rparr>\<rparr> \<Longrightarrow>
     rtp_ToUnstructured r cm = Inr j \<Longrightarrow>
     output_object r tp (cm_Meta cm) (UnstructuredObj (policyObj tp j (suiteObj tp cm pb)))"

text \<open>
  The specification of one reconciliation: the writes it may issue with the error it then
  returns. It is quiet; or it reports an error in the status; or it amends the object; or it
  announces the object as ready and, only if that succeeded, creates the output. The error
  of a failed write is the error returned.
\<close>

inductive reconcile_trace ::
  "'w ReconcileTailoredProfile \<Rightarrow> api_write list \<Rightarrow> go_error option \<Rightarrow> bool"
  for r :: "'w ReconcileTailoredProfile" where
  quiet: "reconcile_trace r [] err"
| report: "tpst_State (tp_Status tp) = TailoredProfileStateError \<Longrightarrow>
    reconcile_trace r [wr StatusUpdate_verb (TailoredProfileObj tp) e] e"
| amend: "reconcile_trace r [wr Update_verb (TailoredProfileObj tp) e] e"
| ready_failed:
    "output_object r tp out x \<Longrightarrow> tps_Extends (tp_Spec tp) \<noteq> [] \<Longrightarrow>
     reconcile_trace r
       [wr StatusUpdate_verb (TailoredProfileObj (ready_status tp out)) (Some e)] (Some e)"
| produce:
    "output_object r tp out x \<Longrightarrow> tps_Extends (tp_Spec tp) \<noteq> [] \<Longrightarrow>
     reconcile_trace r
       [wr StatusUpdate_verb (TailoredProfileObj (ready_status tp out)) None, wr Create_verb x e] e"

lemmas trace_intros = reconcile_trace.intros

lemma effects_status_error [effects_intro]:
  assumes "\<And>e ws. reconcile_trace r ws e \<Longrightarrow> Q e ws"
  shows "effects (updateTailoredProfileStatusError r tp err) Q"
  unfolding updateTailoredProfileStatusError_def Let_def
  by (rule effects_writes) (rule assms, rule reconcile_trace.report, simp)

lemma effects_surface [effects_intro]:
  assumes "\<And>e ws. reconcile_trace r ws e \<Longrightarrow> Q (Inr (Result0, e)) ws"
  shows "effects (surface_error r tp err) Q"
  unfolding surface_error_def by (auto intro!: effects_intro assms)

lemma effects_validate [effects_intro]:
  assumes "tps_Extends (tp_Spec tp) \<noteq> [] \<Longrightarrow> Q (True, None) []"
    and "\<And>e ws. reconcile_trace r ws e \<Longrightarrow> Q (False, e) ws"
  shows "effects (validateTailoredProfile r tp) Q"
  unfolding validateTailoredProfile_def
  by (auto intro!: effects_intro assms reconcile_trace.amend)

lemma effects_ready [effects_intro]:
  assumes "\<And>e. Q e [wr StatusUpdate_verb (TailoredProfileObj (ready_status tp out)) e]"
  shows "effects (updateTailoredProfileStatusReady r tp out) Q"
  unfolding updateTailoredProfileStatusReady_def Let_def
  by (rule effects_writes) (use assms in \<open>simp add: ready_status_def\<close>)

lemma effects_ensure:
  assumes doc: "tailoring_doc (rtp_env r) tp p pb xml" and ext: "tps_Extends (tp_Spec tp) \<noteq> []"
    and cm: "cm = (newTailoredProfileCM tp)\<lparr>cm_Data := [tailoringFile \<mapsto> xml]\<rparr>"
    and Q: "\<And>e ws. reconcile_trace r ws e \<Longrightarrow> Q (Result0, e) ws"
  shows "effects (ensureOutputObject r tp cm pb) Q"
proof -
  have "effects (ensureConfigMapOutputObject r tp cm) Q"
    if ty: "tps_OutputType (tp_Spec tp) = ConfigMapOutput"
  proof -
    have "output_object r tp meta (ConfigMapObj (cm\<lparr>cm_Meta := meta\<rparr>))"
      if "SetControllerReference T_TailoredProfile (tp_Meta tp) (cm_Meta cm) (rtp_scheme r) = Inr meta"
      for meta
      using output_object.config_map [OF ty doc, of meta] that by (simp add: cm)
    then show ?thesis unfolding ensureConfigMapOutputObject_def using ext
      by (auto intro!: effects_intro Q intro: reconcile_trace.quiet reconcile_trace.ready_failed
          reconcile_trace.produce)
  qed
  moreover have "effects (ensurePolicyOutputObject r tp cm pb) Q"
    if ty: "tps_OutputType (tp_Spec tp) = PolicyOutput"
  proof -
    let ?cm = "cm\<lparr>cm_Meta := (cm_Meta cm)\<lparr>om_Namespace := []\<rparr>\<rparr>"
    have "output_object r tp (cm_Meta ?cm) (UnstructuredObj (policyObj tp j (suiteObj tp ?cm pb)))"
      if "rtp_ToUnstructured r ?cm = Inr j" for j
      using output_object.policy [OF ty doc refl, of j] that by (simp add: cm)
    then show ?thesis unfolding ensurePolicyOutputObject_def Let_def using ext
      by (auto intro!: effects_intro Q intro: reconcile_trace.quiet reconcile_trace.ready_failed
          reconcile_trace.produce)
  qed
  ultimately show ?thesis unfolding ensureOutputObject_def
    by (auto intro!: effects_intro Q trace_intros)
qed

section \<open>Reconcile follows its specification\<close>

definition reconcile_post ::
  "'w ReconcileTailoredProfile \<Rightarrow> go_panic + reconcile_return \<Rightarrow> api_write list \<Rightarrow> bool" where
  "reconcile_post r out ws \<longleftrightarrow> (\<exists>err. out = Inr (Result0, err) \<and> reconcile_trace r ws err)"

lemma reconcile_post_simps [simp]:
  "reconcile_post r (Inr (Result0, err)) ws \<longleftrightarrow> reconcile_trace r ws err"
  "\<not> reconcile_post r (Inl panic) ws"
  by (auto simp: reconcile_post_def)

lemma effects_Reconcile: "effects (Reconcile r req) (reconcile_post r)"
proof -
  have final: "effects (ensureOutputObject r inst ((newTailoredProfileCM inst)
        \<lparr>cm_Data := (cm_Data (newTailoredProfileCM inst))(tailoringFile \<mapsto> xml)\<rparr>) pb)
      (\<lambda>a ws. effects (ret (Inr a)) (\<lambda>b ws'. reconcile_post r b (ws @ ws')))"
    if "tps_Extends (tp_Spec inst) \<noteq> []" and "dom rules = set (selected_names inst)"
      and "distinct (selected_names inst)"
      and "map va_Value variables = map vv_Value (tps_SetValues (tp_Spec inst))"
      and "TailoredProfileToXML (rtp_env r) inst p pb rules variables = Inr (Inr xml)"
    for inst p pb rules variables xml
  proof -
    have doc: "tailoring_doc (rtp_env r) inst p pb xml"
      unfolding tailoring_doc_def using that by blast
    show ?thesis
      by (intro effects_ensure [OF doc that(1)])
        (auto simp: newTailoredProfileCM_def intro!: effects_ret)
  qed
  have no_panic: "TailoredProfileToXML (rtp_env r) inst p pb rules variables \<noteq> Inl panic"
    if "dom rules = set (selected_names inst)" for inst p pb rules variables panic
    using TailoredProfileToXML_eq [of inst rules] that by simp
  show ?thesis
    unfolding Reconcile_def reconcile_instance_def reconcile_owned_def Let_def
    by (intro effects_intro; (simp add: trace_intros no_panic; fail)?) (auto intro: final)
qed

text \<open>
  C8: whatever the API server answers, a reconciliation follows its specification: it ends
  without a panic in an empty result and an error value, and the writes it issues are one of
  the traces above, with that error.
\<close>

theorem Reconcile_refines_trace:
  "\<exists>ws err. fst (run_state (Reconcile r req) s) = Inr (Result0, err)
     \<and> w_writes (snd (run_state (Reconcile r req) s)) = w_writes s @ ws
     \<and> reconcile_trace r ws err"
  using effectsD [OF effects_Reconcile, of r req s] by (auto simp: reconcile_post_def)

end
