(* ===== verification/Api_Server.thy ===== *)
theory Api_Server
  imports Effects
begin

text \<open>
  The contract between the program and the API server: what the Kubernetes documentation
  says of a server without other writers, as locales over a view of the cluster, one for a server
  that may refuse calls for a while (\<open>refusing_server\<close>) and one for an available server
  (\<open>api_server\<close>); the rules that run a computation against them; and in-memory servers that
  keep the contracts.
\<close>

section \<open>The cluster\<close>

record cluster =
  k_ProfileBundles :: "nsname \<rightharpoonup> profile_bundle"
  k_Profiles :: "nsname \<rightharpoonup> profile"
  k_Rules :: "nsname \<rightharpoonup> rule"
  k_Variables :: "nsname \<rightharpoonup> variable"
  k_TailoredProfiles :: "nsname \<rightharpoonup> tailored_profile"
  k_ConfigMaps :: "nsname \<rightharpoonup> config_map"
  k_Pods :: "nsname \<rightharpoonup> pod"
  k_Policies :: "nsname \<rightharpoonup> json"

text \<open>The name and namespace of unstructured content.\<close>

fun json_field :: "string \<Rightarrow> json \<Rightarrow> json option" where
  "json_field f (JObject kvs) = map_of kvs f"
| "json_field f j = None"

fun json_text :: "json option \<Rightarrow> string" where
  "json_text (Some (JString t)) = t"
| "json_text j = []"

definition json_key :: "json \<Rightarrow> nsname" where
  "json_key j =
     (case json_field ''metadata'' j of
        None \<Rightarrow> nsn [] []
      | Some m \<Rightarrow> nsn (json_text (json_field ''namespace'' m)) (json_text (json_field ''name'' m)))"

fun exists_object :: "cluster \<Rightarrow> kobject \<Rightarrow> bool" where
  "exists_object c (ProfileBundleObj x) \<longleftrightarrow> k_ProfileBundles c (key_of (pb_Meta x)) \<noteq> None"
| "exists_object c (ProfileObj x) \<longleftrightarrow> k_Profiles c (key_of (pr_Meta x)) \<noteq> None"
| "exists_object c (RuleObj x) \<longleftrightarrow> k_Rules c (key_of (ru_Meta x)) \<noteq> None"
| "exists_object c (VariableObj x) \<longleftrightarrow> k_Variables c (key_of (va_Meta x)) \<noteq> None"
| "exists_object c (TailoredProfileObj x) \<longleftrightarrow> k_TailoredProfiles c (key_of (tp_Meta x)) \<noteq> None"
| "exists_object c (ConfigMapObj x) \<longleftrightarrow> k_ConfigMaps c (key_of (cm_Meta x)) \<noteq> None"
| "exists_object c (PodObj x) \<longleftrightarrow> k_Pods c (key_of (pod_Meta x)) \<noteq> None"
| "exists_object c (UnstructuredObj j) \<longleftrightarrow> k_Policies c (json_key j) \<noteq> None"

text \<open>Storing an object under its key; the server gives a new object its UID.\<close>

fun store_object :: "string \<Rightarrow> kobject \<Rightarrow> cluster \<Rightarrow> cluster" where
  "store_object u (ProfileBundleObj x) c = c\<lparr>k_ProfileBundles := (k_ProfileBundles c)
     (key_of (pb_Meta x) \<mapsto> x\<lparr>pb_Meta := (pb_Meta x)\<lparr>om_UID := u\<rparr>\<rparr>)\<rparr>"
| "store_object u (ProfileObj x) c = c\<lparr>k_Profiles := (k_Profiles c)
     (key_of (pr_Meta x) \<mapsto> x\<lparr>pr_Meta := (pr_Meta x)\<lparr>om_UID := u\<rparr>\<rparr>)\<rparr>"
| "store_object u (RuleObj x) c = c\<lparr>k_Rules := (k_Rules c)
     (key_of (ru_Meta x) \<mapsto> x\<lparr>ru_Meta := (ru_Meta x)\<lparr>om_UID := u\<rparr>\<rparr>)\<rparr>"
| "store_object u (VariableObj x) c = c\<lparr>k_Variables := (k_Variables c)
     (key_of (va_Meta x) \<mapsto> x\<lparr>va_Meta := (va_Meta x)\<lparr>om_UID := u\<rparr>\<rparr>)\<rparr>"
| "store_object u (TailoredProfileObj x) c = c\<lparr>k_TailoredProfiles := (k_TailoredProfiles c)
     (key_of (tp_Meta x) \<mapsto> x\<lparr>tp_Meta := (tp_Meta x)\<lparr>om_UID := u\<rparr>\<rparr>)\<rparr>"
| "store_object u (ConfigMapObj x) c = c\<lparr>k_ConfigMaps := (k_ConfigMaps c)
     (key_of (cm_Meta x) \<mapsto> x\<lparr>cm_Meta := (cm_Meta x)\<lparr>om_UID := u\<rparr>\<rparr>)\<rparr>"
| "store_object u (PodObj x) c = c\<lparr>k_Pods := (k_Pods c)
     (key_of (pod_Meta x) \<mapsto> x\<lparr>pod_Meta := (pod_Meta x)\<lparr>om_UID := u\<rparr>\<rparr>)\<rparr>"
| "store_object u (UnstructuredObj j) c = c\<lparr>k_Policies := (k_Policies c)(json_key j \<mapsto> j)\<rparr>"

text \<open>
  TailoredProfiles and ProfileBundles have a status subresource: an update leaves the stored
  status alone, a status update leaves everything else alone.
\<close>

definition store_update :: "tailored_profile \<Rightarrow> cluster \<Rightarrow> cluster" where
  "store_update tp c =
     (case k_TailoredProfiles c (key_of (tp_Meta tp)) of
        None \<Rightarrow> c
      | Some old \<Rightarrow> c\<lparr>k_TailoredProfiles := (k_TailoredProfiles c)
          (key_of (tp_Meta tp) \<mapsto> tp\<lparr>tp_Status := tp_Status old\<rparr>)\<rparr>)"

fun store_status :: "kobject \<Rightarrow> cluster \<Rightarrow> cluster" where
  "store_status (TailoredProfileObj tp) c =
     (case k_TailoredProfiles c (key_of (tp_Meta tp)) of
        None \<Rightarrow> c
      | Some old \<Rightarrow> c\<lparr>k_TailoredProfiles := (k_TailoredProfiles c)
          (key_of (tp_Meta tp) \<mapsto> old\<lparr>tp_Status := tp_Status tp\<rparr>)\<rparr>)"
| "store_status (ProfileBundleObj pb) c =
     (case k_ProfileBundles c (key_of (pb_Meta pb)) of
        None \<Rightarrow> c
      | Some old \<Rightarrow> c\<lparr>k_ProfileBundles := (k_ProfileBundles c)
          (key_of (pb_Meta pb) \<mapsto> old\<lparr>pb_Status := pb_Status pb\<rparr>)\<rparr>)"
| "store_status x c = c"

text \<open>A read answers with the stored object, or with a not-found error.\<close>

definition answers :: "go_error + 'a \<Rightarrow> 'a option \<Rightarrow> bool" where
  "answers r x \<longleftrightarrow>
     (case x of Some v \<Rightarrow> r = Inr v | None \<Rightarrow> (\<exists>e. r = Inl e \<and> IsNotFound e))"

definition reads ::
  "('w \<Rightarrow> cluster) \<Rightarrow> (nsname \<Rightarrow> 'w \<Rightarrow> (go_error + 'a) \<times> 'w) \<Rightarrow> (cluster \<Rightarrow> nsname \<Rightarrow> 'a option)
   \<Rightarrow> bool" where
  "reads view getter table \<longleftrightarrow>
     (\<forall>k w. answers (fst (getter k w)) (table (view w) k) \<and> view (snd (getter k w)) = view w)"

text \<open>The same, except that the server may refuse to answer, with an error of its own.\<close>

definition tries ::
  "('w \<Rightarrow> cluster) \<Rightarrow> (go_error \<Rightarrow> bool) \<Rightarrow> (nsname \<Rightarrow> 'w \<Rightarrow> (go_error + 'a) \<times> 'w)
   \<Rightarrow> (cluster \<Rightarrow> nsname \<Rightarrow> 'a option) \<Rightarrow> bool" where
  "tries view refusal getter table \<longleftrightarrow>
     (\<forall>k w. ((\<exists>e. fst (getter k w) = Inl e \<and> refusal e) \<or> answers (fst (getter k w)) (table (view w) k))
        \<and> view (snd (getter k w)) = view w)"

lemma tries_reliable [simp]: "tries view (\<lambda>_. False) getter table = reads view getter table"
  by (simp add: tries_def reads_def)

section \<open>The contract\<close>

text \<open>
  A server that may refuse any call, which then has no effect, and otherwise keeps the contract.
  A refusal is never mistaken for the absence or the presence of an object.
\<close>

locale refusing_server =
  fixes cl :: "'w client"
    and view :: "'w \<Rightarrow> cluster"
    and admits :: "kobject \<Rightarrow> bool"
    and refusal :: "go_error \<Rightarrow> bool"
  assumes refusal_kind: "refusal e \<Longrightarrow> \<not> IsNotFound e \<and> \<not> IsAlreadyExists e"
    and try_ProfileBundle: "tries view refusal (cl_Get_ProfileBundle cl) k_ProfileBundles"
    and try_Profile: "tries view refusal (cl_Get_Profile cl) k_Profiles"
    and try_Rule: "tries view refusal (cl_Get_Rule cl) k_Rules"
    and try_Variable: "tries view refusal (cl_Get_Variable cl) k_Variables"
    and try_TailoredProfile: "tries view refusal (cl_Get_TailoredProfile cl) k_TailoredProfiles"
    and try_ConfigMap: "tries view refusal (cl_Get_ConfigMap cl) k_ConfigMaps"
    and try_Pod: "tries view refusal (cl_Get_Pod cl) k_Pods"
    and try_Policy: "tries view refusal (cl_Get_Policy cl) k_Policies"
    and try_create_new: "admits x \<Longrightarrow> \<not> exists_object (view w) x \<Longrightarrow>
      (\<exists>e. fst (cl_Create cl x w) = Some e \<and> refusal e) \<and> view (snd (cl_Create cl x w)) = view w
      \<or> fst (cl_Create cl x w) = None \<and> (\<exists>u. view (snd (cl_Create cl x w)) = store_object u x (view w))"
    and try_create_existing: "exists_object (view w) x \<Longrightarrow>
      (\<exists>e. fst (cl_Create cl x w) = Some e \<and> (refusal e \<or> IsAlreadyExists e))
      \<and> view (snd (cl_Create cl x w)) = view w"
    and try_update: "exists_object (view w) (TailoredProfileObj tp) \<Longrightarrow>
      (\<exists>e. fst (cl_Update cl (TailoredProfileObj tp) w) = Some e \<and> refusal e)
        \<and> view (snd (cl_Update cl (TailoredProfileObj tp) w)) = view w
      \<or> fst (cl_Update cl (TailoredProfileObj tp) w) = None
        \<and> view (snd (cl_Update cl (TailoredProfileObj tp) w)) = store_update tp (view w)"
    and try_status: "exists_object (view w) x \<Longrightarrow>
      (\<exists>e. fst (cl_StatusUpdate cl x w) = Some e \<and> refusal e) \<and> view (snd (cl_StatusUpdate cl x w)) = view w
      \<or> fst (cl_StatusUpdate cl x w) = None
        \<and> view (snd (cl_StatusUpdate cl x w)) = store_status x (view w)"

text \<open>An available server refuses nothing.\<close>

locale api_server =
  refusing_server cl view admits "\<lambda>_. False"
  for cl :: "'w client" and view :: "'w \<Rightarrow> cluster" and admits :: "kobject \<Rightarrow> bool"
begin

lemmas get_ProfileBundle = try_ProfileBundle [unfolded tries_reliable]
lemmas get_Profile = try_Profile [unfolded tries_reliable]
lemmas get_Rule = try_Rule [unfolded tries_reliable]
lemmas get_Variable = try_Variable [unfolded tries_reliable]
lemmas get_TailoredProfile = try_TailoredProfile [unfolded tries_reliable]
lemmas get_ConfigMap = try_ConfigMap [unfolded tries_reliable]
lemmas get_Pod = try_Pod [unfolded tries_reliable]
lemmas get_Policy = try_Policy [unfolded tries_reliable]

lemmas gets = get_ProfileBundle get_Profile get_Rule get_Variable get_TailoredProfile
  get_ConfigMap get_Pod get_Policy

end

section \<open>Running against the contract\<close>

text \<open>
  \<open>yields view m c Q\<close>: from every state whose cluster looks like \<open>c\<close>, \<open>m\<close> ends with a
  result, writes and a cluster that satisfy \<open>Q\<close>.
\<close>

definition yields ::
  "('w \<Rightarrow> cluster) \<Rightarrow> ('w world, 'a) state \<Rightarrow> cluster
   \<Rightarrow> ('a \<Rightarrow> api_write list \<Rightarrow> cluster \<Rightarrow> bool) \<Rightarrow> bool" where
  "yields view m c Q \<longleftrightarrow>
     (\<forall>s. view (w_cluster s) = c \<longrightarrow>
        (\<exists>ws. w_writes (snd (run_state m s)) = w_writes s @ ws
           \<and> Q (fst (run_state m s)) ws (view (w_cluster (snd (run_state m s))))))"

named_theorems yields_intro \<open>syntax-directed rules for yields\<close>

lemma yieldsD:
  "yields view m (view (w_cluster s)) Q \<Longrightarrow>
     \<exists>ws. w_writes (snd (run_state m s)) = w_writes s @ ws
        \<and> Q (fst (run_state m s)) ws (view (w_cluster (snd (run_state m s))))"
  by (simp add: yields_def)

lemma yields_mono:
  "yields view m c P \<Longrightarrow> (\<And>a ws c'. P a ws c' \<Longrightarrow> Q a ws c') \<Longrightarrow> yields view m c Q"
  unfolding yields_def by (elim all_forward imp_forward ex_forward conj_forward)

lemma yields_ret [yields_intro]: "Q a [] c \<Longrightarrow> yields view (ret a) c Q"
  by (simp add: yields_def)

lemma yields_bind [yields_intro]:
  fixes m :: "('w world, 'a) state"
  assumes "yields view m c (\<lambda>a ws c'. yields view (f a) c' (\<lambda>b ws'. Q b (ws @ ws')))"
  shows "yields view (State_Monad.bind m f) c Q"
  unfolding yields_def
proof (intro allI impI)
  fix s :: "'w world"
  assume "view (w_cluster s) = c"
  with assms have "yields view m (view (w_cluster s))
    (\<lambda>a ws c'. yields view (f a) c' (\<lambda>b ws'. Q b (ws @ ws')))" by simp
  from yieldsD [OF this]
  obtain a s1 ws where m: "run_state m s = (a, s1)" and ws: "w_writes s1 = w_writes s @ ws"
    and f: "yields view (f a) (view (w_cluster s1)) (\<lambda>b ws'. Q b (ws @ ws'))"
    by (cases "run_state m s") auto
  from yieldsD [OF f] m ws
  show "\<exists>ws. w_writes (snd (run_state (State_Monad.bind m f) s)) = w_writes s @ ws
      \<and> Q (fst (run_state (State_Monad.bind m f) s)) ws
          (view (w_cluster (snd (run_state (State_Monad.bind m f) s))))"
    by auto
qed

lemma yields_get:
  assumes "reads view getter table"
    and "\<And>v. table c k = Some v \<Longrightarrow> Q (Inr v) [] c"
    and "\<And>e. table c k = None \<Longrightarrow> IsNotFound e \<Longrightarrow> Q (Inl e) [] c"
  shows "yields view (client_get getter k) c Q"
  unfolding yields_def
proof (intro allI impI)
  fix s :: "'a world"
  assume c: "view (w_cluster s) = c"
  have a: "answers (fst (getter k (w_cluster s))) (table c k)"
    and v: "view (snd (getter k (w_cluster s))) = c"
    using assms(1) c by (auto simp: reads_def)
  show "\<exists>ws. w_writes (snd (run_state (client_get getter k) s)) = w_writes s @ ws
      \<and> Q (fst (run_state (client_get getter k) s)) ws
          (view (w_cluster (snd (run_state (client_get getter k) s))))"
    using a v assms(2,3) by (cases "table c k") (auto simp: go_run answers_def)
qed

lemma yields_write:
  assumes "\<And>w. view w = c \<Longrightarrow> Q (fst (f x w)) [\<lparr>wr_Verb = v, wr_Object = x, wr_Error = fst (f x w)\<rparr>]
    (view (snd (f x w)))"
  shows "yields view (client_write v f x) c Q"
  using assms by (simp add: yields_def go_run)

lemma yields_if [yields_intro]:
  "(b \<Longrightarrow> yields view m c Q) \<Longrightarrow> (\<not> b \<Longrightarrow> yields view n c Q)
     \<Longrightarrow> yields view (if b then m else n) c Q"
  by simp

lemma yields_case_prod [yields_intro]:
  "(\<And>a b. x = (a, b) \<Longrightarrow> yields view (f a b) c Q)
     \<Longrightarrow> yields view (case x of (a, b) \<Rightarrow> f a b) c Q"
  by (cases x) simp

lemma yields_case_sum [yields_intro]:
  "(\<And>e. x = Inl e \<Longrightarrow> yields view (f e) c Q) \<Longrightarrow> (\<And>v. x = Inr v \<Longrightarrow> yields view (g v) c Q)
     \<Longrightarrow> yields view (case x of Inl e \<Rightarrow> f e | Inr v \<Rightarrow> g v) c Q"
  by (cases x) simp_all

lemma yields_case_option [yields_intro]:
  "(x = None \<Longrightarrow> yields view m c Q) \<Longrightarrow> (\<And>v. x = Some v \<Longrightarrow> yields view (g v) c Q)
     \<Longrightarrow> yields view (case x of None \<Rightarrow> m | Some v \<Rightarrow> g v) c Q"
  by (cases x) simp_all

lemma yields_try:
  assumes "tries view refusal getter table"
    and "\<And>v. table c k = Some v \<Longrightarrow> Q (Inr v) [] c"
    and "\<And>e. table c k = None \<Longrightarrow> IsNotFound e \<Longrightarrow> Q (Inl e) [] c"
    and "\<And>e. refusal e \<Longrightarrow> Q (Inl e) [] c"
  shows "yields view (client_get getter k) c Q"
  unfolding yields_def
proof (intro allI impI)
  fix s :: "'a world"
  assume c: "view (w_cluster s) = c"
  have a: "(\<exists>e. fst (getter k (w_cluster s)) = Inl e \<and> refusal e)
      \<or> answers (fst (getter k (w_cluster s))) (table c k)"
    and v: "view (snd (getter k (w_cluster s))) = c"
    using assms(1) c by (auto simp: tries_def)
  show "\<exists>ws. w_writes (snd (run_state (client_get getter k) s)) = w_writes s @ ws
      \<and> Q (fst (run_state (client_get getter k) s)) ws
          (view (w_cluster (snd (run_state (client_get getter k) s))))"
    using a v assms(2-4) by (cases "table c k") (auto simp: go_run answers_def)
qed

context refusing_server
begin

lemma yields_try_create:
  assumes "admits x" and "\<not> exists_object c x"
    and "\<And>u. Q None [wr Create_verb x None] (store_object u x c)"
    and "\<And>e. refusal e \<Longrightarrow> Q (Some e) [wr Create_verb x (Some e)] c"
  shows "yields view (Create cl x) c Q"
  unfolding Create_def
  by (rule yields_write) (use try_create_new [OF assms(1)] assms(2-4) in fastforce)

lemma yields_try_update:
  assumes "exists_object c (TailoredProfileObj tp)"
    and "Q None [wr Update_verb (TailoredProfileObj tp) None] (store_update tp c)"
    and "\<And>e. refusal e \<Longrightarrow> Q (Some e) [wr Update_verb (TailoredProfileObj tp) (Some e)] c"
  shows "yields view (Update cl (TailoredProfileObj tp)) c Q"
  unfolding Update_def
  by (rule yields_write) (use try_update assms in fastforce)

lemma yields_try_status:
  assumes "exists_object c x" and "Q None [wr StatusUpdate_verb x None] (store_status x c)"
    and "\<And>e. refusal e \<Longrightarrow> Q (Some e) [wr StatusUpdate_verb x (Some e)] c"
  shows "yields view (StatusUpdate cl x) c Q"
  unfolding StatusUpdate_def
  by (rule yields_write) (use try_status assms in fastforce)

end

context api_server
begin

lemmas yields_gets = gets [THEN yields_get]

lemma yields_create_new:
  "admits x \<Longrightarrow> \<not> exists_object c x \<Longrightarrow> (\<And>u. Q None [wr Create_verb x None] (store_object u x c))
    \<Longrightarrow> yields view (Create cl x) c Q"
  by (rule yields_try_create) simp_all

lemma yields_create_existing:
  assumes "exists_object c x"
    and "\<And>e. IsAlreadyExists e \<Longrightarrow> Q (Some e) [wr Create_verb x (Some e)] c"
  shows "yields view (Create cl x) c Q"
  unfolding Create_def
proof (rule yields_write)
  fix w
  assume "view w = c"
  with try_create_existing [of w x] assms(1) obtain e
    where "fst (cl_Create cl x w) = Some e" "IsAlreadyExists e" "view (snd (cl_Create cl x w)) = c"
    by auto
  with assms(2) show "Q (fst (cl_Create cl x w)) [wr Create_verb x (fst (cl_Create cl x w))]
      (view (snd (cl_Create cl x w)))" by simp
qed

lemma yields_update:
  "exists_object c (TailoredProfileObj tp)
    \<Longrightarrow> Q None [wr Update_verb (TailoredProfileObj tp) None] (store_update tp c)
    \<Longrightarrow> yields view (Update cl (TailoredProfileObj tp)) c Q"
  by (rule yields_try_update) simp_all

lemma yields_status:
  "exists_object c x \<Longrightarrow> Q None [wr StatusUpdate_verb x None] (store_status x c)
    \<Longrightarrow> yields view (StatusUpdate cl x) c Q"
  by (rule yields_try_status) simp_all

lemmas yields_calls = yields_gets yields_update yields_status

end

section \<open>An in-memory server\<close>

text \<open>
  A server that keeps its objects in memory, with a counter for fresh UIDs, is one that
  keeps the contract.
\<close>

record mem_server =
  ms_cluster :: cluster
  ms_next :: nat

definition not_found :: go_error where
  "not_found = StatusError ''NotFound'' ''not found''"

definition already_exists :: go_error where
  "already_exists = StatusError ''AlreadyExists'' ''already exists''"

definition mem_get ::
  "(cluster \<Rightarrow> nsname \<rightharpoonup> 'a) \<Rightarrow> nsname \<Rightarrow> mem_server \<Rightarrow> (go_error + 'a) \<times> mem_server" where
  "mem_get table k w =
     (case table (ms_cluster w) k of None \<Rightarrow> Inl not_found | Some v \<Rightarrow> Inr v, w)"

definition mem_create :: "kobject \<Rightarrow> mem_server \<Rightarrow> go_error option \<times> mem_server" where
  "mem_create x w =
     (if exists_object (ms_cluster w) x then (Some already_exists, w)
      else (None, \<lparr>ms_cluster = store_object (''uid-'' @ replicate (ms_next w) (CHR ''i'')) x (ms_cluster w),
                   ms_next = Suc (ms_next w)\<rparr>))"

definition mem_write ::
  "(cluster \<Rightarrow> cluster) \<Rightarrow> kobject \<Rightarrow> mem_server \<Rightarrow> go_error option \<times> mem_server" where
  "mem_write upd x w =
     (if exists_object (ms_cluster w) x then (None, w\<lparr>ms_cluster := upd (ms_cluster w)\<rparr>)
      else (Some not_found, w))"

fun mem_store_update :: "kobject \<Rightarrow> cluster \<Rightarrow> cluster" where
  "mem_store_update (TailoredProfileObj tp) c = store_update tp c"
| "mem_store_update x c = store_object [] x c"

definition mem_client :: "mem_server client" where
  "mem_client =
     \<lparr>cl_Get_ProfileBundle = mem_get k_ProfileBundles, cl_Get_Profile = mem_get k_Profiles,
      cl_Get_Rule = mem_get k_Rules, cl_Get_Variable = mem_get k_Variables,
      cl_Get_TailoredProfile = mem_get k_TailoredProfiles,
      cl_Get_ConfigMap = mem_get k_ConfigMaps, cl_Get_Pod = mem_get k_Pods,
      cl_Get_Policy = mem_get k_Policies, cl_Create = mem_create,
      cl_Update = (\<lambda>x. mem_write (mem_store_update x) x),
      cl_StatusUpdate = (\<lambda>x. mem_write (store_status x) x)\<rparr>"

lemma reads_mem_get: "reads ms_cluster (mem_get table) table"
  by (auto simp: reads_def answers_def mem_get_def not_found_def IsNotFound_def ReasonForError_def
      split: option.split)

interpretation mem: api_server mem_client ms_cluster "\<lambda>_. True"
  by unfold_locales
    (auto simp: mem_client_def reads_mem_get mem_create_def mem_write_def already_exists_def
      IsAlreadyExists_def ReasonForError_def)

text \<open>A server that refuses its first calls, as many as a counter says, and then answers from memory.\<close>

definition unavailable :: go_error where
  "unavailable = StatusError ''ServiceUnavailable'' ''try again later''"

fun at_first_refused ::
  "'a \<Rightarrow> (mem_server \<Rightarrow> 'a \<times> mem_server) \<Rightarrow> nat \<times> mem_server \<Rightarrow> 'a \<times> nat \<times> mem_server" where
  "at_first_refused refused_answer call (0, w) = (let (answer, w') = call w in (answer, 0, w'))"
| "at_first_refused refused_answer call (Suc n, w) = (refused_answer, n, w)"

definition busy_get ::
  "(cluster \<Rightarrow> nsname \<rightharpoonup> 'a) \<Rightarrow> nsname \<Rightarrow> nat \<times> mem_server \<Rightarrow> (go_error + 'a) \<times> nat \<times> mem_server" where
  "busy_get table k = at_first_refused (Inl unavailable) (mem_get table k)"

definition busy_write ::
  "(kobject \<Rightarrow> mem_server \<Rightarrow> go_error option \<times> mem_server) \<Rightarrow> kobject \<Rightarrow> nat \<times> mem_server
   \<Rightarrow> go_error option \<times> nat \<times> mem_server" where
  "busy_write f x = at_first_refused (Some unavailable) (f x)"

definition busy_client :: "(nat \<times> mem_server) client" where
  "busy_client =
     \<lparr>cl_Get_ProfileBundle = busy_get k_ProfileBundles, cl_Get_Profile = busy_get k_Profiles,
      cl_Get_Rule = busy_get k_Rules, cl_Get_Variable = busy_get k_Variables,
      cl_Get_TailoredProfile = busy_get k_TailoredProfiles,
      cl_Get_ConfigMap = busy_get k_ConfigMaps, cl_Get_Pod = busy_get k_Pods,
      cl_Get_Policy = busy_get k_Policies, cl_Create = busy_write mem_create,
      cl_Update = busy_write (\<lambda>x. mem_write (mem_store_update x) x),
      cl_StatusUpdate = busy_write (\<lambda>x. mem_write (store_status x) x)\<rparr>"

definition busy_view :: "nat \<times> mem_server \<Rightarrow> cluster" where
  "busy_view w = ms_cluster (snd w)"

lemma busy_cases [case_names answers refuses]:
  fixes w :: "nat \<times> mem_server"
  obtains s where "w = (0, s)" | m s where "w = (Suc m, s)"
  by (metis not0_implies_Suc surj_pair)

lemma tries_busy_get: "tries busy_view (\<lambda>e. e = unavailable) (busy_get table) table"
  unfolding tries_def
proof (intro allI)
  fix k w
  show "((\<exists>e. fst (busy_get table k w) = Inl e \<and> e = unavailable)
      \<or> answers (fst (busy_get table k w)) (table (busy_view w) k))
    \<and> busy_view (snd (busy_get table k w)) = busy_view w"
    using reads_mem_get [of table]
    by (cases w rule: busy_cases)
      (auto simp: busy_get_def busy_view_def reads_def split_beta)
qed

interpretation busy: refusing_server busy_client busy_view "\<lambda>_. True" "\<lambda>e. e = unavailable"
proof
  note simps = busy_client_def busy_write_def busy_view_def mem_create_def mem_write_def already_exists_def
      IsAlreadyExists_def ReasonForError_def Let_def
  show "e = unavailable \<Longrightarrow> \<not> IsNotFound e \<and> \<not> IsAlreadyExists e" for e
    by (simp add: unavailable_def IsNotFound_def IsAlreadyExists_def ReasonForError_def)
  show "\<not> exists_object (busy_view w) x \<Longrightarrow>
      (\<exists>e. fst (cl_Create busy_client x w) = Some e \<and> e = unavailable)
        \<and> busy_view (snd (cl_Create busy_client x w)) = busy_view w
      \<or> fst (cl_Create busy_client x w) = None
        \<and> (\<exists>u. busy_view (snd (cl_Create busy_client x w)) = store_object u x (busy_view w))" for x w
    by (cases w rule: busy_cases) (auto simp: simps)
  show "exists_object (busy_view w) x \<Longrightarrow>
      (\<exists>e. fst (cl_Create busy_client x w) = Some e \<and> (e = unavailable \<or> IsAlreadyExists e))
      \<and> busy_view (snd (cl_Create busy_client x w)) = busy_view w" for x w
    by (cases w rule: busy_cases) (auto simp: simps)
  show "exists_object (busy_view w) (TailoredProfileObj tp) \<Longrightarrow>
      (\<exists>e. fst (cl_Update busy_client (TailoredProfileObj tp) w) = Some e \<and> e = unavailable)
        \<and> busy_view (snd (cl_Update busy_client (TailoredProfileObj tp) w)) = busy_view w
      \<or> fst (cl_Update busy_client (TailoredProfileObj tp) w) = None
        \<and> busy_view (snd (cl_Update busy_client (TailoredProfileObj tp) w)) = store_update tp (busy_view w)" for tp w
    by (cases w rule: busy_cases) (auto simp: simps)
  show "exists_object (busy_view w) x \<Longrightarrow>
      (\<exists>e. fst (cl_StatusUpdate busy_client x w) = Some e \<and> e = unavailable)
        \<and> busy_view (snd (cl_StatusUpdate busy_client x w)) = busy_view w
      \<or> fst (cl_StatusUpdate busy_client x w) = None
        \<and> busy_view (snd (cl_StatusUpdate busy_client x w)) = store_status x (busy_view w)" for x w
    by (cases w rule: busy_cases) (auto simp: simps)
qed (simp_all add: busy_client_def tries_busy_get)

end
