(* ===== verification/Tailored_Profile_Converges.thy ===== *)
theory Tailored_Profile_Converges
  imports Tailored_Profile_Correct Api_Server
begin

text \<open>
  Repeated reconciliation of a well-posed TailoredProfile against a server that keeps the
  contract: at most three reconciliations, after which the ConfigMap with the tailoring
  document exists, the status says so, and nothing is written any more.
\<close>

section \<open>Well-posed TailoredProfiles\<close>

definition tp_ns :: "tailored_profile \<Rightarrow> string" where
  "tp_ns tp = om_Namespace (tp_Meta tp)"

definition output_key :: "tailored_profile \<Rightarrow> nsname" where
  "output_key tp = nsn (tp_ns tp) (om_Name (tp_Meta tp) @ ''-tp'')"

lemma output_key_updates [simp]:
  "output_key (tp\<lparr>tp_Status := st\<rparr>) = output_key tp"
  "output_key (tp\<lparr>tp_Spec := sp\<rparr>) = output_key tp"
  by (simp_all add: output_key_def tp_ns_def)

definition expected_rules :: "cluster \<Rightarrow> tailored_profile \<Rightarrow> string \<rightharpoonup> rule" where
  "expected_rules c tp =
     (\<lambda>n. if n \<in> set (selected_names tp) then k_Rules c (nsn (tp_ns tp) n) else None)"

definition expected_variables :: "cluster \<Rightarrow> tailored_profile \<Rightarrow> variable list" where
  "expected_variables c tp =
     map (\<lambda>sv. (the (k_Variables c (nsn (tp_ns tp) (vv_Name sv))))\<lparr>va_Value := vv_Value sv\<rparr>)
       (tps_SetValues (tp_Spec tp))"

text \<open>Everything the TailoredProfile refers to exists, and every set value is admissible.\<close>

definition selections_exist :: "cluster \<Rightarrow> tailored_profile \<Rightarrow> bool" where
  "selections_exist c tp \<longleftrightarrow>
     distinct (selected_names tp)
     \<and> (\<forall>n \<in> set (selected_names tp). k_Rules c (nsn (tp_ns tp) n) \<noteq> None)
     \<and> (\<forall>sv \<in> set (tps_SetValues (tp_Spec tp)).
          \<exists>v. k_Variables c (nsn (tp_ns tp) (vv_Name sv)) = Some v
            \<and> variable_admits v (vv_Value sv))"

definition extends_profile ::
  "cluster \<Rightarrow> tailored_profile \<Rightarrow> profile \<Rightarrow> profile_bundle \<Rightarrow> bool" where
  "extends_profile c tp p pb \<longleftrightarrow>
     tps_Extends (tp_Spec tp) \<noteq> []
     \<and> k_Profiles c (nsn (tp_ns tp) (tps_Extends (tp_Spec tp))) = Some p
     \<and> om_Namespace (pr_Meta p) = tp_ns tp
     \<and> (\<exists>ref. getProfileBundleReferenceFromProfile p = Inr ref
          \<and> k_ProfileBundles c (nsn (tp_ns tp) (or_Name ref)) = Some pb)"

definition registered :: "scheme \<Rightarrow> bool" where
  "registered sch \<longleftrightarrow>
     (\<exists>g. GVKForObject T_Profile sch = Inr g) \<and> (\<exists>g. GVKForObject T_TailoredProfile sch = Inr g)"

definition expected_document ::
  "go_env \<Rightarrow> cluster \<Rightarrow> tailored_profile \<Rightarrow> profile \<Rightarrow> profile_bundle \<Rightarrow> string" where
  "expected_document env c tp p pb =
     XMLHeader @ [CHR 0x0A] @ marshal_elem 0 (tailoring_xml (tailoring_of env tp p pb
       (map (select_of (expected_rules c tp) True) (tps_EnableRules (tp_Spec tp))
        @ map (select_of (expected_rules c tp) False) (tps_DisableRules (tp_Spec tp)))
       (expected_variables c tp)))"

lemma dom_expected_rules:
  "selections_exist c tp \<Longrightarrow> dom (expected_rules c tp) = set (selected_names tp)"
  by (auto simp: expected_rules_def selections_exist_def split: if_splits)

lemma document_expected:
  "selections_exist c tp \<Longrightarrow>
     TailoredProfileToXML env tp p pb (expected_rules c tp) (expected_variables c tp) =
       Inr (Inr (expected_document env c tp p pb))"
  by (simp add: TailoredProfileToXML_eq dom_expected_rules expected_document_def)

section \<open>The collecting loops\<close>

context refusing_server
begin

lemma yields_rules_loop:
  assumes "\<forall>n \<in> set (map rr_Name sels). k_Rules c (nsn ns n) \<noteq> None"
    and "distinct (map rr_Name sels)" and "set (map rr_Name sels) \<inter> dom rules = {}"
    and "Q (Inr (\<lambda>n. if n \<in> set (map rr_Name sels) then k_Rules c (nsn ns n) else rules n)) [] c"
    and "\<And>e. refusal e \<Longrightarrow> Q (Inl (e, True)) [] c"
  shows "yields view (rules_loop cl ns sels rules) c Q"
  using assms
proof (induction sels arbitrary: rules)
  case Nil
  then show ?case by (simp add: yields_ret)
next
  case (Cons sel sels)
  let ?n = "rr_Name sel"
  from Cons.prems(1) obtain ru where ru: "k_Rules c (nsn ns ?n) = Some ru" by auto
  have new: "rules ?n = None" using Cons.prems(3) by auto
  have "yields view (rules_loop cl ns sels (rules(?n \<mapsto> ru))) c Q"
  proof (rule Cons.IH)
    have "(\<lambda>n. if n \<in> set (map rr_Name sels) then k_Rules c (nsn ns n) else (rules(?n \<mapsto> ru)) n)
        = (\<lambda>n. if n \<in> set (map rr_Name (sel # sels)) then k_Rules c (nsn ns n) else rules n)"
      using ru by auto
    with Cons.prems(4) show "Q (Inr (\<lambda>n. if n \<in> set (map rr_Name sels) then k_Rules c (nsn ns n)
        else (rules(?n \<mapsto> ru)) n)) [] c" by simp
  qed (use Cons.prems new in \<open>auto simp del: fun_upd_apply\<close>)
  with ru new Cons.prems(5) show ?case
    by (auto intro!: yields_bind yields_try [OF try_Rule] yields_ret dest: refusal_kind)
qed

lemma yields_variables_loop:
  assumes "\<forall>sv \<in> set svs. \<exists>v. k_Variables c (nsn ns (vv_Name sv)) = Some v
      \<and> variable_admits v (vv_Value sv)"
    and "Q (Inr (vars @ map (\<lambda>sv. (the (k_Variables c (nsn ns (vv_Name sv))))
      \<lparr>va_Value := vv_Value sv\<rparr>) svs)) [] c"
    and "\<And>e. refusal e \<Longrightarrow> Q (Inl (e, True)) [] c"
  shows "yields view (variables_loop cl ns svs vars) c Q"
  using assms
proof (induction svs arbitrary: vars)
  case Nil
  then show ?case by (simp add: yields_ret)
next
  case (Cons sv svs)
  from Cons.prems(1) obtain v where v: "k_Variables c (nsn ns (vv_Name sv)) = Some v"
    "variable_admits v (vv_Value sv)" by auto
  then have "SetValue v (vv_Value sv) = (None, v\<lparr>va_Value := vv_Value sv\<rparr>)"
    by (simp add: SetValue_None)
  moreover have "yields view (variables_loop cl ns svs (vars @ [v\<lparr>va_Value := vv_Value sv\<rparr>])) c Q"
    using Cons.prems v by (intro Cons.IH) auto
  ultimately show ?case using v(1) Cons.prems(3)
    by (auto intro!: yields_bind yields_try [OF try_Variable] yields_ret dest: refusal_kind)
qed

end

text \<open>The server behind a reconciler's client, which may refuse calls.\<close>

locale tailored_profile_server =
  refusing_server "rtp_client r" view admits refusal
  for r :: "'w ReconcileTailoredProfile" and view :: "'w \<Rightarrow> cluster" and admits :: "kobject \<Rightarrow> bool"
    and refusal :: "go_error \<Rightarrow> bool"
begin

lemma yields_getRules:
  assumes "selections_exist c tp"
    and "Q (Inr (expected_rules c tp)) [] c"
    and "\<And>e. refusal e \<Longrightarrow> Q (Inl (e, True)) [] c"
  shows "yields view (getRulesFromSelections r tp) c Q"
  unfolding getRulesFromSelections_def
proof (rule yields_rules_loop)
  let ?sels = "tps_EnableRules (tp_Spec tp) @ tps_DisableRules (tp_Spec tp)"
  show "Q (Inr (\<lambda>n. if n \<in> set (map rr_Name ?sels) then k_Rules c (nsn (om_Namespace (tp_Meta tp)) n)
      else Map.empty n)) [] c"
    using assms(2) unfolding expected_rules_def tp_ns_def selected_names_def by simp
qed (use assms(1,3) in \<open>simp_all add: selections_exist_def selected_names_def tp_ns_def\<close>)

lemma yields_getVariables:
  assumes "selections_exist c tp"
    and "Q (Inr (expected_variables c tp)) [] c"
    and "\<And>e. refusal e \<Longrightarrow> Q (Inl (e, True)) [] c"
  shows "yields view (getVariablesFromSelections r tp) c Q"
  unfolding getVariablesFromSelections_def
  by (rule yields_variables_loop)
    (use assms in \<open>simp_all add: selections_exist_def expected_variables_def tp_ns_def\<close>)

lemma yields_getProfileBundle:
  assumes "extends_profile c tp p pb" and "Q (Inr pb) [] c" and "\<And>e. refusal e \<Longrightarrow> Q (Inl e) [] c"
  shows "yields view (getProfileBundleFromProfile r p) c Q"
  unfolding getProfileBundleFromProfile_def using assms
  by (auto simp: extends_profile_def intro!: yields_try [OF try_ProfileBundle])

end

section \<open>One reconciliation\<close>

definition set_tp :: "tailored_profile \<Rightarrow> cluster \<Rightarrow> cluster" where
  "set_tp tp c = c\<lparr>k_TailoredProfiles := (k_TailoredProfiles c)(key_of (tp_Meta tp) \<mapsto> tp)\<rparr>"

definition with_output :: "tailored_profile \<Rightarrow> tailored_profile" where
  "with_output tp = tp\<lparr>tp_Spec := (tp_Spec tp)\<lparr>tps_OutputType := ConfigMapOutput\<rparr>\<rparr>"

text \<open>The result of a step without a problem.\<close>

abbreviation finished :: "go_panic + reconcile_return" where
  "finished \<equiv> Inr (Result0, None)"

text \<open>The result of a step that was refused a call: the error comes back, to be tried again.\<close>

definition refused :: "(go_error \<Rightarrow> bool) \<Rightarrow> go_panic + reconcile_return \<Rightarrow> bool" where
  "refused refusal out \<longleftrightarrow> (\<exists>e. out = Inr (Result0, Some e) \<and> refusal e)"

lemma refused_simps [simp]:
  "refused refusal (Inr (Result0, Some e)) \<longleftrightarrow> refusal e" "\<not> refused refusal finished"
  "\<not> refused (\<lambda>_. False) out"
  by (auto simp: refused_def)

context tailored_profile_server
begin

lemma yields_amend:
  assumes "k_TailoredProfiles c (key_of (tp_Meta tp)) = Some tp"
    and "tps_Extends (tp_Spec tp) \<noteq> []" and "tps_OutputType (tp_Spec tp) = []"
  shows "yields view (Reconcile r (key_of (tp_Meta tp))) c
    (\<lambda>out ws c'. out = finished \<and> length ws = Suc 0 \<and> writes_for T_TailoredProfile sch (key_of (tp_Meta tp)) ws
       \<and> c' = set_tp (with_output tp) c
     \<or> refused refusal out \<and> succeeded ws = [] \<and> c' = c)"
  unfolding Reconcile_def
  by (intro yields_bind yields_try [OF try_TailoredProfile])
    (use assms in \<open>auto simp: validateTailoredProfile_def ConfigMapOutput_def PolicyOutput_def
      store_update_def set_tp_def with_output_def intro!: yields_intro yields_try_update dest: refusal_kind\<close>)

lemma yields_validated:
  assumes "k_TailoredProfiles c k = Some tp"
    and "tps_Extends (tp_Spec tp) \<noteq> []"
    and "tps_OutputType (tp_Spec tp) \<in> {ConfigMapOutput, PolicyOutput}"
    and "yields view (reconcile_instance r tp) c Q"
    and "\<And>e. refusal e \<Longrightarrow> Q (Inr (Result0, Some e)) [] c"
  shows "yields view (Reconcile r k) c Q"
  unfolding Reconcile_def
  by (intro yields_bind yields_try [OF try_TailoredProfile])
    (use assms in \<open>auto simp: validateTailoredProfile_def intro!: yields_intro dest: refusal_kind\<close>)

lemma yields_adopt:
  assumes "k_TailoredProfiles c (key_of (tp_Meta tp)) = Some tp"
    and "extends_profile c tp p pb" and "\<not> isOwnedBy (tp_Meta tp) (pr_Meta p)"
    and "SetOwnerReference T_Profile (pr_Meta p) (tp_Meta tp) (rtp_scheme r) = Inr m"
  shows "yields view (reconcile_instance r tp) c
    (\<lambda>out ws c'. out = finished \<and> length ws = Suc 0 \<and> writes_for T_TailoredProfile sch (key_of (tp_Meta tp)) ws
       \<and> c' = set_tp (tp\<lparr>tp_Meta := m\<rparr>) c
     \<or> refused refusal out \<and> succeeded ws = [] \<and> c' = c)"
proof -
  have "key_of m = key_of (tp_Meta tp)"
    using owner_ref.frame [OF assms(4)] by (simp add: key_of_def)
  with assms show ?thesis
    unfolding reconcile_instance_def
    by (intro yields_bind yields_try [OF try_Profile])
      (auto simp: extends_profile_def tp_ns_def store_update_def set_tp_def
        intro!: yields_intro yields_try_update dest: refusal_kind)
qed

text \<open>An owned TailoredProfile gets as far as its output.\<close>

lemma yields_owned:
  assumes "extends_profile c tp p pb" and "isOwnedBy (tp_Meta tp) (pr_Meta p)"
    and "selections_exist c tp"
    and "yields view (ensureOutputObject r tp ((newTailoredProfileCM tp)
        \<lparr>cm_Data := [tailoringFile \<mapsto> expected_document (rtp_env r) c tp p pb]\<rparr>) pb) c
      (\<lambda>out ws c'. Q (Inr out) ws c')"
    and "\<And>e. refusal e \<Longrightarrow> Q (Inr (Result0, Some e)) [] c"
  shows "yields view (reconcile_instance r tp) c Q"
  unfolding reconcile_instance_def
proof (intro yields_bind yields_try [OF try_Profile])
  fix v
  assume "k_Profiles c (nsn (om_Namespace (tp_Meta tp)) (tps_Extends (tp_Spec tp))) = Some v"
  with assms(1) have v: "v = p" by (simp add: extends_profile_def tp_ns_def)
  have cm: "(cm_Data (newTailoredProfileCM tp))(tailoringFile \<mapsto> d) = [tailoringFile \<mapsto> d]" for d
    by (simp add: newTailoredProfileCM_def)
  show "yields view (case Inr v of
       Inl err \<Rightarrow> if IsNotFound err then surface_error r tp err else ret (Inr (Result0, Some err))
     | Inr p \<Rightarrow> if \<not> isOwnedBy (tp_Meta tp) (pr_Meta p) then
           (case SetOwnerReference T_Profile (pr_Meta p) (tp_Meta tp) (rtp_scheme r) of
              Inl err \<Rightarrow> ret (Inr (Result0, Some err))
            | Inr meta \<Rightarrow> do {
                err \<leftarrow> Update (rtp_client r) (TailoredProfileObj (tp\<lparr>tp_Meta := meta\<rparr>));
                ret (Inr (Result0, err))
              })
         else reconcile_owned r tp p) c (\<lambda>b ws. Q b ([] @ ws))"
    unfolding v reconcile_owned_def Let_def using assms
    by (auto simp: document_expected cm yields_ret elim!: yields_mono
        intro!: yields_bind yields_getProfileBundle yields_getRules yields_getVariables)
qed (use assms in \<open>auto simp: extends_profile_def tp_ns_def intro!: yields_intro dest: refusal_kind\<close>)

lemma yields_ensure_existing:
  assumes "tps_OutputType (tp_Spec tp) = ConfigMapOutput"
    and "om_Namespace (cm_Meta cm) = tp_ns tp" and "om_OwnerReferences (cm_Meta cm) = []"
    and "GVKForObject T_TailoredProfile (rtp_scheme r) = Inr g"
    and "k_ConfigMaps c (key_of (cm_Meta cm)) \<noteq> None"
  shows "yields view (ensureOutputObject r tp cm pb) c
    (\<lambda>out ws c'. (out = (Result0, None) \<or> refused refusal (Inr out)) \<and> ws = [] \<and> c' = c)"
  using assms
  by (auto simp: ensureOutputObject_def ensureConfigMapOutputObject_def
      SetControllerReference_def validateOwner_def tp_ns_def GetControllerOf_def Let_def key_of_def
      intro!: yields_bind yields_try [OF try_ConfigMap] yields_ret dest: refusal_kind)

lemma yields_ensure_new:
  assumes "tps_OutputType (tp_Spec tp) = ConfigMapOutput"
    and "om_Namespace (cm_Meta cm) = tp_ns tp" and "om_OwnerReferences (cm_Meta cm) = []"
    and "GVKForObject T_TailoredProfile (rtp_scheme r) = Inr g"
    and "k_TailoredProfiles c (key_of (tp_Meta tp)) = Some tp"
    and "k_ConfigMaps c (key_of (cm_Meta cm)) = None"
    and "\<forall>x. key_of (cm_Meta x) = key_of (cm_Meta cm) \<longrightarrow> admits (ConfigMapObj x)"
    and "\<And>x m ws. cm_Data x = cm_Data cm \<Longrightarrow> key_of m = key_of (cm_Meta cm) \<Longrightarrow>
      length ws = 2 \<Longrightarrow> writes_for T_TailoredProfile (rtp_scheme r) (key_of (tp_Meta tp)) ws \<Longrightarrow>
      Q (Result0, None) ws ((set_tp (ready_status tp m) c)
        \<lparr>k_ConfigMaps := (k_ConfigMaps c)(key_of (cm_Meta cm) \<mapsto> x)\<rparr>)"
    and "\<And>e ws. refusal e \<Longrightarrow> succeeded ws = [] \<Longrightarrow> Q (Result0, Some e) ws c"
    and "\<And>e m ws. refusal e \<Longrightarrow> length (succeeded ws) = Suc 0 \<Longrightarrow>
      writes_for T_TailoredProfile (rtp_scheme r) (key_of (tp_Meta tp)) (succeeded ws) \<Longrightarrow>
      Q (Result0, Some e) ws (set_tp (ready_status tp m) c)"
  shows "yields view (ensureOutputObject r tp cm pb) c Q"
proof -
  obtain m where m: "SetControllerReference T_TailoredProfile (tp_Meta tp) (cm_Meta cm)
      (rtp_scheme r) = Inr m"
    using SetControllerReference_fresh [OF _ assms(3,4), of "tp_Meta tp"] assms(2)
    by (auto simp: tp_ns_def)
  from controller_ref.frame [OF m] have key: "key_of m = key_of (cm_Meta cm)"
    by (simp add: key_of_def)
  have own: "writes_for T_TailoredProfile (rtp_scheme r) (key_of (tp_Meta tp))
      [wr v (ConfigMapObj (cm\<lparr>cm_Meta := m\<rparr>)) None]" for v
    using controlled_for_fresh [OF m assms(3)] assms(2) by (simp add: tp_ns_def)
  have status: "yields view (updateTailoredProfileStatusReady r tp m) c R"
    if "\<And>ws. length ws = Suc 0 \<Longrightarrow> writes_for T_TailoredProfile (rtp_scheme r) (key_of (tp_Meta tp)) ws \<Longrightarrow>
      R None ws (set_tp (ready_status tp m) c)"
      and "\<And>e ws. refusal e \<Longrightarrow> succeeded ws = [] \<Longrightarrow> R (Some e) ws c" for R
    unfolding updateTailoredProfileStatusReady_def Let_def
    by (rule yields_try_status) (use assms(5) that in \<open>auto simp: ready_status_def set_tp_def\<close>)
  have create: "yields view (Create (rtp_client r) (ConfigMapObj (cm\<lparr>cm_Meta := m\<rparr>)))
      (set_tp (ready_status tp m) c) R"
    if "\<And>x ws. cm_Data x = cm_Data cm \<Longrightarrow> length ws = Suc 0 \<Longrightarrow>
      writes_for T_TailoredProfile (rtp_scheme r) (key_of (tp_Meta tp)) ws \<Longrightarrow> R None ws ((set_tp (ready_status tp m) c)
        \<lparr>k_ConfigMaps := (k_ConfigMaps c)(key_of (cm_Meta cm) \<mapsto> x)\<rparr>)"
      and "\<And>e ws. refusal e \<Longrightarrow> succeeded ws = [] \<Longrightarrow> R (Some e) ws (set_tp (ready_status tp m) c)" for R
    by (rule yields_try_create) (use assms(6,7) key own that in \<open>auto simp: set_tp_def\<close>)
  show ?thesis
    using assms(1,6) m key
    by (auto simp: ensureOutputObject_def ensureConfigMapOutputObject_def Let_def
        succeeded_all intro!: yields_bind yields_try [OF try_ConfigMap] yields_ret yields_if status create assms(8-10)
        dest: refusal_kind)
qed

end

section \<open>Progress\<close>

text \<open>
  A well-posed instance: it extends a parsed profile of its namespace, its selections exist,
  its output is (or defaults to) a ConfigMap, and the two types are registered.
\<close>

definition well_posed ::
  "scheme \<Rightarrow> cluster \<Rightarrow> tailored_profile \<Rightarrow> profile \<Rightarrow> profile_bundle \<Rightarrow> bool" where
  "well_posed sch c tp p pb \<longleftrightarrow>
     registered sch \<and> extends_profile c tp p pb \<and> selections_exist c tp
     \<and> k_TailoredProfiles c (key_of (tp_Meta tp)) = Some tp
     \<and> tps_OutputType (tp_Spec tp) \<in> {[], ConfigMapOutput}"

text \<open>A reconciliation changes at most the instance itself and its ConfigMap.\<close>

definition only_touches :: "tailored_profile \<Rightarrow> cluster \<Rightarrow> cluster \<Rightarrow> bool" where
  "only_touches tp c c' \<longleftrightarrow>
     (\<exists>t m. c' = c\<lparr>k_TailoredProfiles := t, k_ConfigMaps := m\<rparr>
        \<and> (\<forall>k. k \<noteq> key_of (tp_Meta tp) \<longrightarrow> t k = k_TailoredProfiles c k)
        \<and> (\<forall>k. k \<noteq> output_key tp \<longrightarrow> m k = k_ConfigMaps c k))"

lemma only_touches_same [simp]: "only_touches tp c c"
  unfolding only_touches_def by (rule exI [of _ "k_TailoredProfiles c"], rule exI [of _ "k_ConfigMaps c"]) simp

lemma only_touches_set_tp:
  "key_of (tp_Meta x) = key_of (tp_Meta tp) \<Longrightarrow> only_touches tp c (set_tp x c)"
  unfolding only_touches_def set_tp_def
  by (rule exI [of _ "(k_TailoredProfiles c)(key_of (tp_Meta x) \<mapsto> x)"], rule exI [of _ "k_ConfigMaps c"]) simp

lemma only_touches_output:
  fixes c :: cluster
  assumes "key_of (tp_Meta x) = key_of (tp_Meta tp)" and "k = output_key tp"
  shows "only_touches tp c ((set_tp x c)\<lparr>k_ConfigMaps := (k_ConfigMaps c)(k \<mapsto> cm)\<rparr>)"
  unfolding only_touches_def set_tp_def
  using assms by (intro exI [of _ "(k_TailoredProfiles c)(key_of (tp_Meta x) \<mapsto> x)"]
      exI [of _ "(k_ConfigMaps c)(output_key tp \<mapsto> cm)"]) simp

lemma only_touches_fields:
  assumes "only_touches tp c c'"
  shows "k_ProfileBundles c' = k_ProfileBundles c" "k_Profiles c' = k_Profiles c"
    "k_Rules c' = k_Rules c" "k_Variables c' = k_Variables c" "k_Pods c' = k_Pods c"
    "k \<noteq> key_of (tp_Meta tp) \<Longrightarrow> k_TailoredProfiles c' k = k_TailoredProfiles c k"
    "k \<noteq> output_key tp \<Longrightarrow> k_ConfigMaps c' k = k_ConfigMaps c k"
  using assms by (auto simp: only_touches_def)

text \<open>What is still to be done, and what it looks like when all is done.\<close>

definition todo :: "cluster \<Rightarrow> tailored_profile \<Rightarrow> profile \<Rightarrow> nat" where
  "todo c tp p =
     of_bool (tps_OutputType (tp_Spec tp) = []) + of_bool (\<not> isOwnedBy (tp_Meta tp) (pr_Meta p))
     + of_bool (k_ConfigMaps c (output_key tp) = None)"

definition produced ::
  "go_env set \<Rightarrow> cluster \<Rightarrow> tailored_profile \<Rightarrow> profile \<Rightarrow> profile_bundle \<Rightarrow> bool" where
  "produced envs c tp p pb \<longleftrightarrow>
     tpst_State (tp_Status tp) = TailoredProfileStateReady
     \<and> tpst_ID (tp_Status tp) = GetXCCDFProfileID tp
     \<and> tpst_OutputRef (tp_Status tp)
         = \<lparr>oref_Name = om_Name (tp_Meta tp) @ ''-tp'', oref_Namespace = tp_ns tp\<rparr>
     \<and> (\<exists>cm. k_ConfigMaps c (output_key tp) = Some cm
          \<and> (\<exists>env \<in> envs. cm_Data cm = [tailoringFile \<mapsto> expected_document env c tp p pb]))"

text \<open>The instance as the user wrote it, up to what the operator fills in.\<close>

definition same_request :: "tailored_profile \<Rightarrow> tailored_profile \<Rightarrow> bool" where
  "same_request tp tp' \<longleftrightarrow>
     om_Name (tp_Meta tp') = om_Name (tp_Meta tp) \<and> om_Namespace (tp_Meta tp') = om_Namespace (tp_Meta tp)
     \<and> (tp_Spec tp')\<lparr>tps_OutputType := []\<rparr> = (tp_Spec tp)\<lparr>tps_OutputType := []\<rparr>"

definition on_track ::
  "go_env set \<Rightarrow> scheme \<Rightarrow> tailored_profile \<Rightarrow> profile \<Rightarrow> profile_bundle \<Rightarrow> cluster \<Rightarrow> nat \<Rightarrow> bool" where
  "on_track envs sch tp0 p pb c n \<longleftrightarrow>
     (\<exists>tp. same_request tp0 tp \<and> well_posed sch c tp p pb \<and> todo c tp p = n
        \<and> (k_ConfigMaps c (output_key tp) \<noteq> None \<longrightarrow> n = 0 \<and> produced envs c tp p pb))"

lemma same_request_fields:
  assumes "same_request tp tp'"
  shows "tps_Extends (tp_Spec tp') = tps_Extends (tp_Spec tp)"
    "tps_EnableRules (tp_Spec tp') = tps_EnableRules (tp_Spec tp)"
    "tps_DisableRules (tp_Spec tp') = tps_DisableRules (tp_Spec tp)"
    "tps_SetValues (tp_Spec tp') = tps_SetValues (tp_Spec tp)"
    "tps_Title (tp_Spec tp') = tps_Title (tp_Spec tp)"
    "tps_Description (tp_Spec tp') = tps_Description (tp_Spec tp)"
    "selected_names tp' = selected_names tp"
    "output_key tp' = output_key tp" "tp_ns tp' = tp_ns tp"
    "key_of (tp_Meta tp') = key_of (tp_Meta tp)"
  using assms unfolding same_request_def selected_names_def output_key_def tp_ns_def key_of_def
  by (cases "tp_Spec tp"; cases "tp_Spec tp'"; simp)+

lemma well_posed_step:
  assumes "well_posed sch c tp p pb" and "same_request tp tp'"
    and "tps_OutputType (tp_Spec tp') \<in> {[], ConfigMapOutput}"
  shows "well_posed sch (set_tp tp' c) tp' p pb"
  using assms unfolding well_posed_def
  by (simp add: set_tp_def extends_profile_def selections_exist_def same_request_fields [OF assms(2)])

lemma same_request_trans: "same_request a b \<Longrightarrow> same_request b c \<Longrightarrow> same_request a c"
  by (simp add: same_request_def)

lemma on_track_step:
  assumes "same_request tp0 tp" and "well_posed sch c tp p pb" and "same_request tp tp'"
    and "tps_OutputType (tp_Spec tp') \<in> {[], ConfigMapOutput}"
    and "k_ConfigMaps c (output_key tp) = None" and "todo c tp' p = n"
  shows "on_track envs sch tp0 p pb (set_tp tp' c) n"
  unfolding on_track_def
proof (intro exI conjI)
  show "well_posed sch (set_tp tp' c) tp' p pb" by (rule well_posed_step) fact+
  show "todo (set_tp tp' c) tp' p = n" using assms(6) by (simp add: todo_def set_tp_def)
  show "k_ConfigMaps (set_tp tp' c) (output_key tp') \<noteq> None \<longrightarrow>
      n = 0 \<and> produced envs (set_tp tp' c) tp' p pb"
    using assms(5) by (simp add: set_tp_def same_request_fields [OF assms(3)])
qed (use assms(1,3) same_request_trans in blast)

lemma expected_document_ready:
  fixes c :: cluster and m :: "nsname \<rightharpoonup> config_map"
  shows
  "expected_document env ((set_tp tp' c)\<lparr>k_ConfigMaps := m\<rparr>) (ready_status tp out) p pb =
     expected_document env c tp p pb"
  unfolding expected_document_def expected_rules_def expected_variables_def
  by (simp add: set_tp_def ready_status_def tailoring_of_def tp_ns_def selected_names_def
      GetXCCDFProfileID_def getTailoringID_def cong: if_cong)

lemma on_track_produced:
  fixes c :: cluster and tp :: tailored_profile and m :: object_meta
  defines "tp' \<equiv> ready_status tp m"
  assumes "same_request tp0 tp" and "well_posed sch c tp p pb"
    and "tps_OutputType (tp_Spec tp) = ConfigMapOutput" and "isOwnedBy (tp_Meta tp) (pr_Meta p)"
    and "key_of m = output_key tp"
    and "env \<in> envs" and "cm_Data x = [tailoringFile \<mapsto> expected_document env c tp p pb]"
  shows "on_track envs sch tp0 p pb
    ((set_tp tp' c)\<lparr>k_ConfigMaps := (k_ConfigMaps c)(output_key tp \<mapsto> x)\<rparr>) 0"
  unfolding on_track_def
proof (intro exI conjI impI)
  let ?c = "(set_tp tp' c)\<lparr>k_ConfigMaps := (k_ConfigMaps c)(output_key tp \<mapsto> x)\<rparr>"
  have same: "same_request tp tp'" by (simp add: tp'_def ready_status_def same_request_def)
  then show "same_request tp0 tp'" using assms(2) same_request_trans by blast
  have "tps_OutputType (tp_Spec tp') = ConfigMapOutput"
    using assms(4) by (simp add: tp'_def ready_status_def)
  then have "well_posed sch (set_tp tp' c) tp' p pb" by (intro well_posed_step [OF assms(3) same]) simp
  then show "well_posed sch ?c tp' p pb"
    by (simp add: well_posed_def extends_profile_def selections_exist_def)
  show "todo ?c tp' p = 0"
    using assms(4,5) by (simp add: todo_def same_request_fields [OF same] tp'_def ready_status_def
        ConfigMapOutput_def)
  show "produced envs ?c tp' p pb"
    unfolding produced_def
  proof (intro conjI)
    have "expected_document env ?c tp' p pb = expected_document env c tp p pb"
      using expected_document_ready [where c = c and tp = tp and out = m] by (simp only: tp'_def)
    with assms(7,8) show "\<exists>cm. k_ConfigMaps ?c (output_key tp') = Some cm
        \<and> (\<exists>env \<in> envs. cm_Data cm = [tailoringFile \<mapsto> expected_document env ?c tp' p pb])"
      unfolding same_request_fields(8) [OF same]
      by (intro exI [of _ x] conjI bexI [of _ env]) simp_all
  qed (use assms(6) in \<open>simp_all add: tp'_def ready_status_def tp_ns_def GetXCCDFProfileID_def
      output_key_def key_of_def\<close>)
qed simp

text \<open>What a reconciliation of another instance leaves alone.\<close>

lemma on_track_other:
  assumes "on_track envs sch tp p pb c n" and "only_touches other c c'"
    and "key_of (tp_Meta tp) \<noteq> key_of (tp_Meta other)"
  shows "on_track envs sch tp p pb c' n"
proof -
  from assms(1) obtain t where t: "same_request tp t" "well_posed sch c t p pb" "todo c t p = n"
    "k_ConfigMaps c (output_key t) \<noteq> None \<longrightarrow> n = 0 \<and> produced envs c t p pb"
    by (auto simp: on_track_def)
  note same = only_touches_fields [OF assms(2)]
  have "output_key tp \<noteq> output_key other" using assms(3) by (auto simp: output_key_def key_of_def tp_ns_def)
  then have cms: "k_ConfigMaps c' (output_key t) = k_ConfigMaps c (output_key t)"
    by (simp add: same(7) same_request_fields(8) [OF t(1)])
  have "k_TailoredProfiles c' (key_of (tp_Meta t)) = k_TailoredProfiles c (key_of (tp_Meta t))"
    using assms(3) by (simp add: same(6) same_request_fields(10) [OF t(1)])
  then have "well_posed sch c' t p pb" "todo c' t p = n" "expected_document env c' t p pb = expected_document env c t p pb"
    for env
    using t(2,3) cms by (simp_all add: well_posed_def extends_profile_def selections_exist_def todo_def same
        expected_document_def expected_rules_def expected_variables_def cong: if_cong)
  with t(1,4) cms show ?thesis unfolding on_track_def produced_def by (intro exI [of _ t]) simp
qed

lemma on_track_done:
  assumes "on_track envs sch tp0 p pb c 0"
  shows "\<exists>tp. same_request tp0 tp \<and> k_TailoredProfiles c (key_of (tp_Meta tp0)) = Some tp
    \<and> isOwnedBy (tp_Meta tp) (pr_Meta p) \<and> produced envs c tp p pb \<and> well_posed sch c tp p pb"
  using assms same_request_fields(10) by (fastforce simp: on_track_def todo_def well_posed_def)

lemma on_track_start:
  "well_posed sch c tp p pb \<Longrightarrow> k_ConfigMaps c (output_key tp) = None
    \<Longrightarrow> \<exists>n \<le> 3. n = todo c tp p \<and> on_track envs sch tp p pb c n"
  by (auto simp: on_track_def same_request_def todo_def)

lemma on_track_here:
  "same_request tp0 tp \<Longrightarrow> well_posed sch c tp p pb \<Longrightarrow> k_ConfigMaps c (output_key tp) = None
    \<Longrightarrow> on_track envs sch tp0 p pb c (todo c tp p)"
  unfolding on_track_def by (rule exI [of _ tp]) simp

text \<open>
  A step that was refused a call: the error comes back, at most one write went through before it,
  and everything that was to be done still is.
\<close>

definition held_up ::
  "(go_error \<Rightarrow> bool) \<Rightarrow> scheme \<Rightarrow> tailored_profile \<Rightarrow> go_panic + reconcile_return \<Rightarrow> api_write list \<Rightarrow> bool" where
  "held_up refusal sch tp out ws \<longleftrightarrow> refused refusal out \<and> length (succeeded ws) \<le> 1
     \<and> writes_for T_TailoredProfile sch (key_of (tp_Meta tp)) (succeeded ws)"

lemma held_up_reliable [simp]: "\<not> held_up (\<lambda>_. False) sch tp out ws"
  by (simp add: held_up_def)

context tailored_profile_server
begin

lemma yields_step_amend:
  assumes "same_request tp0 tp" and "well_posed (rtp_scheme r) c tp p pb"
    and "tps_OutputType (tp_Spec tp) = []" and "k_ConfigMaps c (output_key tp) = None"
  shows "yields view (Reconcile r (key_of (tp_Meta tp0))) c
    (\<lambda>out ws c'. out = finished \<and> length ws = Suc 0 \<and> writes_for T_TailoredProfile sch (key_of (tp_Meta tp0)) ws
       \<and> on_track envs (rtp_scheme r) tp0 p pb c' (todo c tp p - 1) \<and> only_touches tp0 c c'
     \<or> held_up refusal (rtp_scheme r) tp0 out ws \<and> on_track envs (rtp_scheme r) tp0 p pb c' (todo c tp p) \<and> only_touches tp0 c c')"
proof -
  have same: "same_request tp (with_output tp)" by (simp add: same_request_def with_output_def)
  have "on_track envs (rtp_scheme r) tp0 p pb (set_tp (with_output tp) c) (todo c tp p - 1)"
    by (rule on_track_step [OF assms(1,2) same])
      (use assms(3,4) in \<open>simp_all add: todo_def same_request_fields [OF same] with_output_def
        ConfigMapOutput_def\<close>)
  moreover have "only_touches tp0 c (set_tp (with_output tp) c)"
    using same_request_fields(10) [OF same] same_request_fields(10) [OF assms(1)]
    by (intro only_touches_set_tp) simp
  moreover have "yields view (Reconcile r (key_of (tp_Meta tp))) c
    (\<lambda>out ws c'. out = finished \<and> length ws = Suc 0 \<and> writes_for T_TailoredProfile sch (key_of (tp_Meta tp)) ws
       \<and> c' = set_tp (with_output tp) c
     \<or> refused refusal out \<and> succeeded ws = [] \<and> c' = c)"
    using assms(2,3) by (intro yields_amend) (auto simp: well_posed_def extends_profile_def)
  ultimately show ?thesis
    using on_track_here [OF assms(1,2,4)]
    unfolding same_request_fields(10) [OF assms(1), symmetric] by (elim yields_mono) (auto simp: held_up_def)
qed

lemma yields_step_adopt:
  assumes "same_request tp0 tp" and "well_posed (rtp_scheme r) c tp p pb"
    and "tps_OutputType (tp_Spec tp) = ConfigMapOutput"
    and "\<not> isOwnedBy (tp_Meta tp) (pr_Meta p)" and "k_ConfigMaps c (output_key tp) = None"
  shows "yields view (Reconcile r (key_of (tp_Meta tp0))) c
    (\<lambda>out ws c'. out = finished \<and> length ws = Suc 0 \<and> writes_for T_TailoredProfile sch (key_of (tp_Meta tp0)) ws
       \<and> on_track envs (rtp_scheme r) tp0 p pb c' (todo c tp p - 1) \<and> only_touches tp0 c c'
     \<or> held_up refusal (rtp_scheme r) tp0 out ws \<and> on_track envs (rtp_scheme r) tp0 p pb c' (todo c tp p) \<and> only_touches tp0 c c')"
proof -
  from assms(2) obtain m
    where m: "SetOwnerReference T_Profile (pr_Meta p) (tp_Meta tp) (rtp_scheme r) = Inr m"
    unfolding SetOwnerReference_Inr
    by (auto simp: well_posed_def extends_profile_def registered_def validateOwner_None tp_ns_def)
  have same: "same_request tp (tp\<lparr>tp_Meta := m\<rparr>)"
    using owner_ref.frame [OF m] by (simp add: same_request_def)
  have "on_track envs (rtp_scheme r) tp0 p pb (set_tp (tp\<lparr>tp_Meta := m\<rparr>) c) (todo c tp p - 1)"
    by (rule on_track_step [OF assms(1,2) same])
      (use assms(3-5) isOwnedBy_SetOwnerReference [OF m] in
        \<open>simp_all add: todo_def same_request_fields [OF same] ConfigMapOutput_def\<close>)
  moreover have "only_touches tp0 c (set_tp (tp\<lparr>tp_Meta := m\<rparr>) c)"
    using same_request_fields(10) [OF same] same_request_fields(10) [OF assms(1)]
    by (intro only_touches_set_tp) simp
  moreover have "yields view (Reconcile r (key_of (tp_Meta tp))) c
    (\<lambda>out ws c'. out = finished \<and> length ws = Suc 0 \<and> writes_for T_TailoredProfile sch (key_of (tp_Meta tp)) ws
       \<and> c' = set_tp (tp\<lparr>tp_Meta := m\<rparr>) c
     \<or> refused refusal out \<and> succeeded ws = [] \<and> c' = c)"
    using assms(2,3)
    by (intro yields_validated [of c _ tp] yields_adopt [OF _ _ assms(4) m])
      (auto simp: well_posed_def extends_profile_def)
  ultimately show ?thesis
    using on_track_here [OF assms(1,2,5)]
    unfolding same_request_fields(10) [OF assms(1), symmetric] by (elim yields_mono) (auto simp: held_up_def)
qed

lemma yields_step_produce:
  assumes "same_request tp0 tp" and "well_posed (rtp_scheme r) c tp p pb"
    and "tps_OutputType (tp_Spec tp) = ConfigMapOutput"
    and "isOwnedBy (tp_Meta tp) (pr_Meta p)" and "k_ConfigMaps c (output_key tp) = None"
    and "rtp_env r \<in> envs"
    and "\<forall>x. key_of (cm_Meta x) = output_key tp \<longrightarrow> admits (ConfigMapObj x)"
  shows "yields view (Reconcile r (key_of (tp_Meta tp0))) c
    (\<lambda>out ws c'. out = finished \<and> length ws = 2 \<and> writes_for T_TailoredProfile (rtp_scheme r) (key_of (tp_Meta tp0)) ws
       \<and> on_track envs (rtp_scheme r) tp0 p pb c' 0 \<and> only_touches tp0 c c'
     \<or> held_up refusal (rtp_scheme r) tp0 out ws \<and> on_track envs (rtp_scheme r) tp0 p pb c' (todo c tp p) \<and> only_touches tp0 c c')"
proof -
  let ?cm = "(newTailoredProfileCM tp)
    \<lparr>cm_Data := [tailoringFile \<mapsto> expected_document (rtp_env r) c tp p pb]\<rparr>"
  have cm: "key_of (cm_Meta ?cm) = output_key tp" "om_Namespace (cm_Meta ?cm) = tp_ns tp"
    "om_OwnerReferences (cm_Meta ?cm) = []"
    by (simp_all add: newTailoredProfileCM_def zero_meta_def key_of_def output_key_def tp_ns_def)
  from assms(2) obtain g where g: "GVKForObject T_TailoredProfile (rtp_scheme r) = Inr g"
    and ext: "extends_profile c tp p pb" and sel: "selections_exist c tp"
    and tp: "k_TailoredProfiles c (key_of (tp_Meta tp)) = Some tp"
    by (auto simp: well_posed_def registered_def)
  have touch: "only_touches tp0 c ((set_tp (ready_status tp m) c)
      \<lparr>k_ConfigMaps := (k_ConfigMaps c)(output_key tp \<mapsto> x)\<rparr>)" for m x
    by (rule only_touches_output)
      (simp_all add: ready_status_def same_request_fields(8,10) [OF assms(1)])
  let ?left = "\<lambda>c'. on_track envs (rtp_scheme r) tp0 p pb c' (todo c tp p) \<and> only_touches tp0 c c'"
  have here: "?left c" using on_track_here [OF assms(1,2,5)] by simp
  have announced: "?left (set_tp (ready_status tp m) c)" for m
  proof
    show "on_track envs (rtp_scheme r) tp0 p pb (set_tp (ready_status tp m) c) (todo c tp p)"
      by (rule on_track_step [OF assms(1,2)])
        (use assms(3,5) in \<open>simp_all add: same_request_def ready_status_def todo_def output_key_def tp_ns_def\<close>)
    show "only_touches tp0 c (set_tp (ready_status tp m) c)"
      by (rule only_touches_set_tp) (simp add: ready_status_def same_request_fields(10) [OF assms(1)])
  qed
  let ?done = "\<lambda>out ws c'. out = finished \<and> length ws = 2
    \<and> writes_for T_TailoredProfile (rtp_scheme r) (key_of (tp_Meta tp0)) ws
    \<and> on_track envs (rtp_scheme r) tp0 p pb c' 0 \<and> only_touches tp0 c c'
    \<or> held_up refusal (rtp_scheme r) tp0 out ws \<and> ?left c'"
  have "yields view (ensureOutputObject r tp ?cm pb) c (\<lambda>out. ?done (Inr out))"
    by (rule yields_ensure_new [OF assms(3) cm(2,3) g tp])
      (use assms(5,7) cm(1) on_track_produced [OF assms(1-4) _ assms(6)] touch here announced
        same_request_fields(10) [OF assms(1)] in \<open>simp_all add: held_up_def\<close>)
  then have "yields view (reconcile_instance r tp) c ?done"
    by (rule yields_owned [OF ext assms(4) sel]) (use here in \<open>simp add: held_up_def\<close>)
  then show ?thesis
    unfolding same_request_fields(10) [OF assms(1), symmetric]
    using assms(3) ext tp here
    by (intro yields_validated [of c _ tp]) (auto simp: extends_profile_def held_up_def)
qed

lemma yields_step_settled:
  assumes "same_request tp0 tp" and "well_posed (rtp_scheme r) c tp p pb"
    and "tps_OutputType (tp_Spec tp) = ConfigMapOutput"
    and "isOwnedBy (tp_Meta tp) (pr_Meta p)" and "k_ConfigMaps c (output_key tp) \<noteq> None"
  shows "yields view (Reconcile r (key_of (tp_Meta tp0))) c
    (\<lambda>out ws c'. (out = finished \<or> refused refusal out) \<and> ws = [] \<and> c' = c)"
proof -
  let ?cm = "(newTailoredProfileCM tp)
    \<lparr>cm_Data := [tailoringFile \<mapsto> expected_document (rtp_env r) c tp p pb]\<rparr>"
  have cm: "key_of (cm_Meta ?cm) = output_key tp" "om_Namespace (cm_Meta ?cm) = tp_ns tp"
    "om_OwnerReferences (cm_Meta ?cm) = []"
    by (simp_all add: newTailoredProfileCM_def zero_meta_def key_of_def output_key_def tp_ns_def)
  from assms(2) obtain g where g: "GVKForObject T_TailoredProfile (rtp_scheme r) = Inr g"
    and ext: "extends_profile c tp p pb" and sel: "selections_exist c tp"
    and tp: "k_TailoredProfiles c (key_of (tp_Meta tp)) = Some tp"
    by (auto simp: well_posed_def registered_def)
  have "yields view (ensureOutputObject r tp ?cm pb) c
      (\<lambda>out ws c'. (out = (Result0, None) \<or> refused refusal (Inr out)) \<and> ws = [] \<and> c' = c)"
    by (rule yields_ensure_existing [OF assms(3) cm(2,3) g]) (use assms(5) cm(1) in simp)
  then have "yields view (reconcile_instance r tp) c
      (\<lambda>out ws c'. (out = finished \<or> refused refusal out) \<and> ws = [] \<and> c' = c)"
    by (intro yields_owned [OF ext assms(4) sel]) (auto elim: yields_mono)
  then show ?thesis
    unfolding same_request_fields(10) [OF assms(1), symmetric]
    using assms(3) ext tp by (intro yields_validated [of c _ tp]) (auto simp: extends_profile_def)
qed

text \<open>
  One reconciliation does the next thing there is to do, and nothing when there is none, or it is
  held up.
\<close>

lemma yields_step:
  assumes "on_track envs (rtp_scheme r) tp0 p pb c n" and "rtp_env r \<in> envs"
    and "\<forall>x. key_of (cm_Meta x) = output_key tp0 \<longrightarrow> admits (ConfigMapObj x)"
  shows "yields view (Reconcile r (key_of (tp_Meta tp0))) c
    (\<lambda>out ws c'. out = finished \<and> on_track envs (rtp_scheme r) tp0 p pb c' (n - 1)
       \<and> length ws \<le> 1 + of_bool (n = 1) \<and> (n = 0 \<longrightarrow> ws = [] \<and> c' = c)
       \<and> (n \<noteq> 0 \<longrightarrow> ws \<noteq> []) \<and> writes_for T_TailoredProfile (rtp_scheme r) (key_of (tp_Meta tp0)) ws
       \<and> only_touches tp0 c c'
     \<or> held_up refusal (rtp_scheme r) tp0 out ws \<and> on_track envs (rtp_scheme r) tp0 p pb c' n \<and> only_touches tp0 c c')"
proof -
  from assms(1) obtain tp where req: "same_request tp0 tp"
    and wp: "well_posed (rtp_scheme r) c tp p pb" and n: "todo c tp p = n"
    and cm: "k_ConfigMaps c (output_key tp) \<noteq> None \<longrightarrow> n = 0 \<and> produced envs c tp p pb"
    by (auto simp: on_track_def)
  consider "k_ConfigMaps c (output_key tp) = None" "tps_OutputType (tp_Spec tp) = []"
    | "k_ConfigMaps c (output_key tp) = None" "tps_OutputType (tp_Spec tp) = ConfigMapOutput"
      "\<not> isOwnedBy (tp_Meta tp) (pr_Meta p)"
    | "k_ConfigMaps c (output_key tp) = None" "tps_OutputType (tp_Spec tp) = ConfigMapOutput"
      "isOwnedBy (tp_Meta tp) (pr_Meta p)"
    | "n = 0" "k_ConfigMaps c (output_key tp) \<noteq> None"
    using wp cm by (auto simp: well_posed_def)
  then show ?thesis
  proof cases
    case 1
    with n show ?thesis
      by (intro yields_mono [OF yields_step_amend [OF req wp, where envs = envs]]) (auto simp: todo_def)
  next
    case 2
    with n show ?thesis
      by (intro yields_mono [OF yields_step_adopt [OF req wp, where envs = envs]]) (auto simp: todo_def)
  next
    case 3
    with n assms(2,3) same_request_fields(8) [OF req] show ?thesis
      by (intro yields_mono [OF yields_step_produce [OF req wp, where envs = envs]])
        (auto simp: todo_def ConfigMapOutput_def)
  next
    case 4
    with n wp have "tps_OutputType (tp_Spec tp) = ConfigMapOutput" "isOwnedBy (tp_Meta tp) (pr_Meta p)"
      by (auto simp: todo_def well_posed_def)
    with 4 assms(1) show ?thesis
      by (intro yields_mono [OF yields_step_settled [OF req wp]]) (auto simp: held_up_def)
  qed
qed

end

section \<open>Convergence\<close>

text \<open>Reconciling again and again, each time in a run-time environment of its own.\<close>

fun reconcile_all ::
  "'w ReconcileTailoredProfile \<Rightarrow> nsname \<Rightarrow> go_env list
   \<Rightarrow> ('w world, (go_panic + reconcile_return) list) state" where
  "reconcile_all r k [] = ret []"
| "reconcile_all r k (env # envs) = do {
     out \<leftarrow> Reconcile (r\<lparr>rtp_env := env\<rparr>) k;
     outs \<leftarrow> reconcile_all r k envs;
     ret (out # outs)
   }"

lemma yields_all:
  assumes "api_server (rtp_client r) view admits"
    and "\<forall>x. key_of (cm_Meta x) = output_key tp0 \<longrightarrow> admits (ConfigMapObj x)"
    and "on_track S (rtp_scheme r) tp0 p pb c n" and "set envs \<subseteq> S"
  shows "yields view (reconcile_all r (key_of (tp_Meta tp0)) envs) c
    (\<lambda>outs ws c'. outs = replicate (length envs) finished
       \<and> on_track S (rtp_scheme r) tp0 p pb c' (n - length envs)
       \<and> length ws \<le> n + 1 \<and> (n = 0 \<longrightarrow> ws = [] \<and> c' = c))"
  using assms(3,4)
proof (induction envs arbitrary: c n)
  case Nil
  then show ?case by (simp add: yields_ret)
next
  case (Cons env envs)
  let ?r = "r\<lparr>rtp_env := env\<rparr>"
  have server: "tailored_profile_server ?r view admits (\<lambda>_. False)"
    using assms(1) by (simp add: tailored_profile_server_def api_server_def)
  have first: "yields view (Reconcile ?r (key_of (tp_Meta tp0))) c
    (\<lambda>out ws c'. out = finished \<and> on_track S (rtp_scheme r) tp0 p pb c' (n - 1)
       \<and> length ws \<le> 1 + of_bool (n = 1) \<and> (n = 0 \<longrightarrow> ws = [] \<and> c' = c))"
    using tailored_profile_server.yields_step [OF server, of S tp0 p pb c n] assms(2) Cons.prems
    by (auto elim: yields_mono)
  have rest: "yields view (reconcile_all r (key_of (tp_Meta tp0)) envs) c'
      (\<lambda>outs ws' c''. yields view (ret (out # outs)) c'' (\<lambda>outs ws'' c''. outs = replicate (length (env # envs)) finished
         \<and> on_track S (rtp_scheme r) tp0 p pb c'' (n - length (env # envs))
         \<and> length (ws @ ws' @ ws'') \<le> n + 1 \<and> (n = 0 \<longrightarrow> ws @ ws' @ ws'' = [] \<and> c'' = c)))"
    if "out = finished" "on_track S (rtp_scheme r) tp0 p pb c' (n - 1)"
      "length ws \<le> 1 + of_bool (n = 1)" "n = 0 \<longrightarrow> ws = [] \<and> c' = c" for out ws c'
  proof (rule yields_mono [OF Cons.IH [OF that(2)]])
    fix outs c'' and ws' :: "api_write list"
    assume "outs = replicate (length envs) finished
      \<and> on_track S (rtp_scheme r) tp0 p pb c'' (n - 1 - length envs)
      \<and> length ws' \<le> n - 1 + 1 \<and> (n - 1 = 0 \<longrightarrow> ws' = [] \<and> c'' = c')"
    then show "yields view (ret (out # outs)) c'' (\<lambda>outs ws'' c''.
        outs = replicate (length (env # envs)) finished
        \<and> on_track S (rtp_scheme r) tp0 p pb c'' (n - length (env # envs))
        \<and> length (ws @ ws' @ ws'') \<le> n + 1 \<and> (n = 0 \<longrightarrow> ws @ ws' @ ws'' = [] \<and> c'' = c))"
      using that by (intro yields_ret) (cases n; auto simp: of_bool_def split: if_splits)
  qed (use Cons.prems(2) in simp)
  show ?case
    unfolding reconcile_all.simps
    by (intro yields_bind yields_mono [OF first], elim conjE) (erule rest, assumption+)
qed

text \<open>
  C2: a TailoredProfile that extends a parsed profile, selects existing rules and admissible
  values, and has no ConfigMap yet, is finished after three reconciliations against a server
  that keeps its contract and admits that ConfigMap, however many more follow: every one of them succeeds, together
  they write at most four times, the instance is owned by its profile, READY, and refers to
  the ConfigMap with the tailoring document; a further reconciliation writes nothing.
\<close>

theorem Reconcile_converges:
  fixes r :: "'w ReconcileTailoredProfile" and view :: "'w \<Rightarrow> cluster" and s :: "'w world"
    and tp :: tailored_profile and envs :: "go_env list"
  defines "run \<equiv> run_state (reconcile_all r (key_of (tp_Meta tp)) envs) s"
  assumes "api_server (rtp_client r) view admits"
    and "\<forall>x. key_of (cm_Meta x) = output_key tp \<longrightarrow> admits (ConfigMapObj x)"
    and "well_posed (rtp_scheme r) (view (w_cluster s)) tp p pb"
    and "k_ConfigMaps (view (w_cluster s)) (output_key tp) = None"
    and "3 \<le> length envs"
  shows "set (fst run) = {finished}
    \<and> length (w_writes (snd run)) \<le> length (w_writes s) + 4
    \<and> (\<exists>tp'. same_request tp tp'
         \<and> k_TailoredProfiles (view (w_cluster (snd run))) (key_of (tp_Meta tp)) = Some tp'
         \<and> isOwnedBy (tp_Meta tp') (pr_Meta p)
         \<and> produced (set envs) (view (w_cluster (snd run))) tp' p pb)
    \<and> (\<forall>env. w_writes (snd (run_state (reconcile_all r (key_of (tp_Meta tp)) [env]) (snd run)))
         = w_writes (snd run))"
proof -
  let ?c = "view (w_cluster s)" and ?k = "key_of (tp_Meta tp)"
  let ?n = "todo ?c tp p" and ?c' = "view (w_cluster (snd run))"
  from on_track_start [OF assms(4,5)] have "?n \<le> 3"
    and track: "on_track (set envs) (rtp_scheme r) tp p pb ?c ?n" by auto
  from yieldsD [OF yields_all [OF assms(2,3) track subset_refl]]
  obtain ws where ws: "w_writes (snd run) = w_writes s @ ws" "length ws \<le> ?n + 1"
    and outs: "fst run = replicate (length envs) finished"
    and fin: "on_track (set envs) (rtp_scheme r) tp p pb ?c' (?n - length envs)"
    unfolding run_def by auto
  from fin \<open>?n \<le> 3\<close> assms(6) have fin: "on_track (set envs) (rtp_scheme r) tp p pb ?c' 0" by simp
  note on_track_done [OF this]
  moreover have "w_writes (snd (run_state (reconcile_all r ?k [env]) (snd run))) = w_writes (snd run)"
    for env
  proof -
    have "on_track (insert env (set envs)) (rtp_scheme r) tp p pb ?c' 0"
      using fin by (auto simp: on_track_def produced_def)
    from yieldsD [OF yields_all [OF assms(2,3) this, of "[env]"]] show ?thesis by auto
  qed
  moreover have "set (fst run) = {finished}" using assms(6) by (auto simp: outs)
  ultimately show ?thesis using ws \<open>?n \<le> 3\<close> by auto
qed

section \<open>An instance\<close>

text \<open>Any reconciler whose client talks to the store of \<open>Api_Server\<close>.\<close>

definition mem_reconciler ::
  "scheme \<Rightarrow> go_env \<Rightarrow> (config_map \<Rightarrow> go_error + json) \<Rightarrow> mem_server ReconcileTailoredProfile" where
  "mem_reconciler sch env to_unstructured = \<lparr>rtp_client = mem_client, rtp_scheme = sch,
     rtp_env = env, rtp_ToUnstructured = to_unstructured\<rparr>"

interpretation mem_tailored: tailored_profile_server "mem_reconciler sch env tu" ms_cluster "\<lambda>_. True" "\<lambda>_. False"
  for sch env tu
  using mem.api_server_axioms by (simp add: tailored_profile_server_def mem_reconciler_def api_server_def)

definition ex_cluster :: cluster where
  "ex_cluster =
     \<lparr>k_ProfileBundles = [nsn ''ns'' ''rhcos'' \<mapsto> ex_bundle],
      k_Profiles = [nsn ''ns'' ''rhcos-moderate'' \<mapsto> ex_profile],
      k_Rules = [nsn ''ns'' ''rhcos-no-root'' \<mapsto> ex_rule],
      k_Variables = [nsn ''ns'' ''rhcos-banner'' \<mapsto> ex_variable],
      k_TailoredProfiles = [nsn ''ns'' ''mine'' \<mapsto> ex_request],
      k_ConfigMaps = Map.empty, k_Pods = Map.empty, k_Policies = Map.empty\<rparr>"

definition ex_scheme :: scheme where
  "ex_scheme = AddKnownTypes [] SchemeGroupVersion [T_Profile, T_TailoredProfile]"

definition ex_reconciler :: "mem_server ReconcileTailoredProfile" where
  "ex_reconciler = mem_reconciler ex_scheme ex_env (\<lambda>cm. Inr (JObject []))"

lemma ex_well_posed: "well_posed ex_scheme ex_cluster ex_request ex_profile ex_bundle"
  by (simp add: well_posed_def registered_def extends_profile_def selections_exist_def
      ex_scheme_def AddKnownTypes_def GVKForObject_def ObjectKinds_def ex_cluster_def
      ex_request_def ex_profile_def ex_bundle_def ex_meta_def zero_meta_def tp_ns_def
      getProfileBundleReferenceFromProfile_def gv_String_scheme selected_names_def key_of_def
      variable_admits_def type_admits_def ex_variable_def VarTypeNumber_def VarTypeBool_def)

definition ex_world :: "mem_server world" where
  "ex_world = \<lparr>w_cluster = \<lparr>ms_cluster = ex_cluster, ms_next = 0\<rparr>, w_writes = []\<rparr>"

theorem Reconcile_converges_witness:
  "set (fst (run_state (reconcile_all ex_reconciler (key_of (tp_Meta ex_request))
       [ex_env, ex_env, ex_env]) ex_world)) = {finished}
   \<and> (\<exists>tp'. k_TailoredProfiles (ms_cluster (w_cluster (snd (run_state
            (reconcile_all ex_reconciler (key_of (tp_Meta ex_request)) [ex_env, ex_env, ex_env])
            ex_world)))) (key_of (tp_Meta ex_request)) = Some tp'
        \<and> isOwnedBy (tp_Meta tp') (pr_Meta ex_profile)
        \<and> tpst_State (tp_Status tp') = ''READY'')"
proof -
  have "rtp_client ex_reconciler = mem_client" "rtp_scheme ex_reconciler = ex_scheme"
    by (simp_all add: ex_reconciler_def mem_reconciler_def)
  moreover have "k_ConfigMaps ex_cluster (output_key ex_request) = None"
    by (simp add: ex_cluster_def)
  ultimately show ?thesis
    using Reconcile_converges [of ex_reconciler ms_cluster "\<lambda>_. True" ex_request ex_world
        ex_profile ex_bundle "[ex_env, ex_env, ex_env]"] mem.api_server_axioms ex_well_posed
    by (auto simp: ex_world_def produced_def TailoredProfileStateReady_def)
qed

end
