(* ===== verification/Tailored_Profile_Decides.thy ===== *)
theory Tailored_Profile_Decides
  imports Tailored_Profile_Converges
begin

text \<open>
  The whole decision of a reconciliation, well-posed or not: a function from the cluster to what
  has to be done for a TailoredProfile, and the proof that, against a server that keeps its
  contract, \<open>Reconcile\<close> does exactly that.
\<close>

section \<open>Problems with the selections\<close>

text \<open>Why a request is rejected: with a message of the program, or with the server's not-found error.\<close>

datatype reason = Message go_error | Absent

fun explains :: "reason \<Rightarrow> go_error \<Rightarrow> bool" where
  "explains (Message m) e \<longleftrightarrow> e = m"
| "explains Absent e \<longleftrightarrow> IsNotFound e"

text \<open>The first problem, in the order of the spec.\<close>

fun rules_problem :: "cluster \<Rightarrow> string \<Rightarrow> string list \<Rightarrow> string set \<Rightarrow> reason option" where
  "rules_problem c ns [] seen = None"
| "rules_problem c ns (n # names) seen =
     (if n \<in> seen then Some (Message (twice_error n))
      else if k_Rules c (nsn ns n) = None then Some Absent
      else rules_problem c ns names (insert n seen))"

fun values_problem :: "cluster \<Rightarrow> string \<Rightarrow> variable_value_spec list \<Rightarrow> reason option" where
  "values_problem c ns [] = None"
| "values_problem c ns (sv # svs) =
     (case k_Variables c (nsn ns (vv_Name sv)) of
        None \<Rightarrow> Some Absent
      | Some v \<Rightarrow>
          (case SetValue v (vv_Value sv) of
             (Some err, _) \<Rightarrow> Some (Message err)
           | (None, _) \<Rightarrow> values_problem c ns svs))"

definition selections_problem :: "cluster \<Rightarrow> tailored_profile \<Rightarrow> reason option" where
  "selections_problem c tp =
     (case rules_problem c (tp_ns tp) (selected_names tp) {} of
        Some why \<Rightarrow> Some why
      | None \<Rightarrow> values_problem c (tp_ns tp) (tps_SetValues (tp_Spec tp)))"

lemma rules_problem_None:
  "rules_problem c ns names seen = None \<longleftrightarrow>
     distinct names \<and> set names \<inter> seen = {} \<and> (\<forall>n \<in> set names. k_Rules c (nsn ns n) \<noteq> None)"
  by (induction names arbitrary: seen) auto

lemma values_problem_None:
  "values_problem c ns svs = None \<longleftrightarrow>
     (\<forall>sv \<in> set svs. \<exists>v. k_Variables c (nsn ns (vv_Name sv)) = Some v \<and> variable_admits v (vv_Value sv))"
proof (induction svs)
  case (Cons sv svs)
  show ?case
  proof (cases "k_Variables c (nsn ns (vv_Name sv))")
    case (Some v)
    with Cons SetValue_None [of v "vv_Value sv"] SetValue_Some [of v "vv_Value sv"] show ?thesis
      by (cases "SetValue v (vv_Value sv)") (auto split: option.splits)
  qed simp
qed simp

lemma selections_problem_None: "selections_problem c tp = None \<longleftrightarrow> selections_exist c tp"
proof (cases "rules_problem c (tp_ns tp) (selected_names tp) {}")
  case None
  then have "distinct (selected_names tp) \<and> (\<forall>n \<in> set (selected_names tp). k_Rules c (nsn (tp_ns tp) n) \<noteq> None)"
    using rules_problem_None [of c "tp_ns tp" "selected_names tp" "{}"] by simp
  with None show ?thesis by (simp add: selections_problem_def values_problem_None selections_exist_def)
next
  case (Some why)
  then have "\<not> (distinct (selected_names tp) \<and> (\<forall>n \<in> set (selected_names tp). k_Rules c (nsn (tp_ns tp) n) \<noteq> None))"
    using rules_problem_None [of c "tp_ns tp" "selected_names tp" "{}"] by auto
  with Some show ?thesis by (auto simp: selections_problem_def selections_exist_def)
qed

context api_server
begin

lemma yields_rules_decided:
  "yields view (rules_loop cl ns sels rules) c (\<lambda>res ws c'. ws = [] \<and> c' = c
     \<and> (case rules_problem c ns (map rr_Name sels) (dom rules) of
          None \<Rightarrow> res = Inr (\<lambda>n. if n \<in> set (map rr_Name sels) then k_Rules c (nsn ns n) else rules n)
        | Some why \<Rightarrow> \<exists>e. res = Inl (e, False) \<and> explains why e))"
proof (induction sels arbitrary: rules)
  case Nil
  then show ?case by (auto intro!: yields_ret)
next
  case (Cons sel sels)
  let ?n = "rr_Name sel"
  consider ru where "rules ?n = None" "k_Rules c (nsn ns ?n) = Some ru"
    | "rules ?n = None" "k_Rules c (nsn ns ?n) = None" | "rules ?n \<noteq> None" by fastforce
  then show ?case
  proof cases
    case 1
    have eq: "(\<lambda>n. if n \<in> set (map rr_Name sels) then k_Rules c (nsn ns n) else (rules(?n \<mapsto> ru)) n)
        = (\<lambda>n. if n \<in> set (map rr_Name (sel # sels)) then k_Rules c (nsn ns n) else rules n)"
      using 1 by auto
    have "rules_problem c ns (map rr_Name (sel # sels)) (dom rules)
        = rules_problem c ns (map rr_Name sels) (dom (rules(?n \<mapsto> ru)))"
      using 1 by (simp add: domIff)
    note IH = Cons.IH [of "rules(?n \<mapsto> ru)", unfolded eq this [symmetric]]
    show ?thesis
      unfolding rules_loop.simps
      by (intro yields_if yields_bind yields_get [OF get_Rule])
        (use 1 IH in \<open>auto simp del: list.map set_map fun_upd_apply\<close>)
  next
    case 2
    then show ?thesis
      by (auto intro!: yields_bind yields_get [OF get_Rule] yields_ret simp: domIff)
  next
    case 3
    then show ?thesis by (auto intro!: yields_ret simp: domIff)
  qed
qed

lemma yields_values_decided:
  "yields view (variables_loop cl ns svs vars) c (\<lambda>res ws c'. ws = [] \<and> c' = c
     \<and> (case values_problem c ns svs of
          None \<Rightarrow> res = Inr (vars @ map (\<lambda>sv. (the (k_Variables c (nsn ns (vv_Name sv))))
              \<lparr>va_Value := vv_Value sv\<rparr>) svs)
        | Some why \<Rightarrow> \<exists>e. res = Inl (e, False) \<and> explains why e))"
proof (induction svs arbitrary: vars)
  case Nil
  then show ?case by (auto intro!: yields_ret)
next
  case (Cons sv svs)
  show ?case
  proof (cases "k_Variables c (nsn ns (vv_Name sv))")
    case None
    then show ?thesis by (auto intro!: yields_bind yields_get [OF get_Variable] yields_ret)
  next
    case (Some v)
    obtain err v' where set: "SetValue v (vv_Value sv) = (err, v')" by (cases "SetValue v (vv_Value sv)")
    have "err = None \<Longrightarrow> v' = v\<lparr>va_Value := vv_Value sv\<rparr>"
      using set SetValue_None by simp
    moreover have "yields view (variables_loop cl ns svs (vars @ [v\<lparr>va_Value := vv_Value sv\<rparr>])) c (\<lambda>res ws c'.
        ws = [] \<and> c' = c \<and> (case values_problem c ns svs of
          None \<Rightarrow> res = Inr (vars @ map (\<lambda>sv. (the (k_Variables c (nsn ns (vv_Name sv))))
              \<lparr>va_Value := vv_Value sv\<rparr>) (sv # svs))
        | Some why \<Rightarrow> \<exists>e. res = Inl (e, False) \<and> explains why e))"
      using Cons.IH [of "vars @ [v\<lparr>va_Value := vv_Value sv\<rparr>]"] by (simp add: Some cong: option.case_cong)
    ultimately show ?thesis using Some set
      by (cases err) (auto simp del: list.map intro!: yields_bind yields_get [OF get_Variable] yields_ret)
  qed
qed

end

section \<open>The decision\<close>

datatype decision =
    Leave
  | Retry
  | Amend tailored_profile
  | Reject tailored_profile reason
  | Produce tailored_profile object_meta kobject

definition output_map :: "go_env \<Rightarrow> cluster \<Rightarrow> tailored_profile \<Rightarrow> profile \<Rightarrow> profile_bundle \<Rightarrow> config_map" where
  "output_map env c tp p pb = (newTailoredProfileCM tp)\<lparr>cm_Data := [tailoringFile \<mapsto> expected_document env c tp p pb]\<rparr>"

text \<open>What an owned request without a problem still needs, by its output type.\<close>

definition decide_output ::
  "'w ReconcileTailoredProfile \<Rightarrow> cluster \<Rightarrow> tailored_profile \<Rightarrow> config_map \<Rightarrow> profile_bundle \<Rightarrow> decision" where
  "decide_output r c tp cm pb =
     (if tps_OutputType (tp_Spec tp) = ConfigMapOutput then
        (case SetControllerReference T_TailoredProfile (tp_Meta tp) (cm_Meta cm) (rtp_scheme r) of
           Inl err \<Rightarrow> Retry
         | Inr m \<Rightarrow> if k_ConfigMaps c (output_key tp) = None then Produce tp m (ConfigMapObj (cm\<lparr>cm_Meta := m\<rparr>))
             else Leave)
      else let cm = cm\<lparr>cm_Meta := (cm_Meta cm)\<lparr>om_Namespace := []\<rparr>\<rparr> in
        (case rtp_ToUnstructured r cm of
           Inl err \<Rightarrow> Reject tp (Message (ErrorString
             (''Couldn't convert ConfigMap to Unstructured: '' @ error_text (rtp_env r) err)))
         | Inr j \<Rightarrow> if k_Policies c (key_of (tp_Meta tp)) = None
             then Produce tp (cm_Meta cm) (UnstructuredObj (policyObj tp j (suiteObj tp cm pb)))
             else Leave))"

definition decide_owned ::
  "'w ReconcileTailoredProfile \<Rightarrow> cluster \<Rightarrow> tailored_profile \<Rightarrow> profile \<Rightarrow> decision" where
  "decide_owned r c tp p =
     (case getProfileBundleReferenceFromProfile p of
        Inl err \<Rightarrow> Retry
      | Inr ref \<Rightarrow>
          (case k_ProfileBundles c (nsn (om_Namespace (pr_Meta p)) (or_Name ref)) of
             None \<Rightarrow> Retry
           | Some pb \<Rightarrow>
               (case selections_problem c tp of
                  Some why \<Rightarrow> Reject tp why
                | None \<Rightarrow> decide_output r c tp (output_map (rtp_env r) c tp p pb) pb)))"

definition decide_valid :: "'w ReconcileTailoredProfile \<Rightarrow> cluster \<Rightarrow> tailored_profile \<Rightarrow> decision" where
  "decide_valid r c tp =
     (case k_Profiles c (nsn (tp_ns tp) (tps_Extends (tp_Spec tp))) of
        None \<Rightarrow> Reject tp Absent
      | Some p \<Rightarrow>
          if isOwnedBy (tp_Meta tp) (pr_Meta p) then decide_owned r c tp p
          else (case SetOwnerReference T_Profile (pr_Meta p) (tp_Meta tp) (rtp_scheme r) of
                  Inl err \<Rightarrow> Retry
                | Inr m \<Rightarrow> Amend (tp\<lparr>tp_Meta := m\<rparr>)))"

definition decide :: "'w ReconcileTailoredProfile \<Rightarrow> cluster \<Rightarrow> nsname \<Rightarrow> decision" where
  "decide r c k =
     (case k_TailoredProfiles c k of
        None \<Rightarrow> Leave
      | Some tp \<Rightarrow>
          if tps_Extends (tp_Spec tp) = [] then
            Reject tp (Message (ErrorString ''.spec.extends can't be empty''))
          else if tps_OutputType (tp_Spec tp) = [] then Amend (with_output tp)
          else if tps_OutputType (tp_Spec tp) \<notin> {ConfigMapOutput, PolicyOutput} then
            Reject tp (Message (ErrorString ''.spec.outputType is invalid (accepted values: ConfigMap''))
          else decide_valid r c tp)"

text \<open>Carrying a decision out: the result, the writes and the cluster afterwards.\<close>

definition rejected :: "go_env \<Rightarrow> tailored_profile \<Rightarrow> go_error \<Rightarrow> tailored_profile" where
  "rejected env tp e = tp\<lparr>tp_Status := (tp_Status tp)
     \<lparr>tpst_State := TailoredProfileStateError, tpst_ErrorMessage := error_text env e\<rparr>\<rparr>"

fun carries_out ::
  "go_env \<Rightarrow> cluster \<Rightarrow> decision \<Rightarrow> go_panic + reconcile_return \<Rightarrow> api_write list \<Rightarrow> cluster \<Rightarrow> bool" where
  "carries_out env c Leave out ws c' \<longleftrightarrow> out = finished \<and> ws = [] \<and> c' = c"
| "carries_out env c Retry out ws c' \<longleftrightarrow> (\<exists>e. out = Inr (Result0, Some e)) \<and> ws = [] \<and> c' = c"
| "carries_out env c (Amend tp) out ws c' \<longleftrightarrow>
     out = finished \<and> ws = [wr Update_verb (TailoredProfileObj tp) None] \<and> c' = set_tp tp c"
| "carries_out env c (Reject tp why) out ws c' \<longleftrightarrow>
     (\<exists>e. explains why e \<and> out = finished
        \<and> ws = [wr StatusUpdate_verb (TailoredProfileObj (rejected env tp e)) None]
        \<and> c' = set_tp (rejected env tp e) c)"
| "carries_out env c (Produce tp m x) out ws c' \<longleftrightarrow>
     out = finished
     \<and> ws = [wr StatusUpdate_verb (TailoredProfileObj (ready_status tp m)) None, wr Create_verb x None]
     \<and> (\<exists>u. c' = store_object u x (set_tp (ready_status tp m) c))"

section \<open>Reconcile carries the decision out\<close>

locale tailored_profile_available =
  api_server "rtp_client r" view admits
  for r :: "'w ReconcileTailoredProfile" and view :: "'w \<Rightarrow> cluster" and admits :: "kobject \<Rightarrow> bool"
begin

abbreviation does :: "decision \<Rightarrow> cluster \<Rightarrow> ('w world, go_panic + reconcile_return) state \<Rightarrow> bool" where
  "does d c m \<equiv> yields view m c (carries_out (rtp_env r) c d)"

lemma yields_rejected:
  assumes "k_TailoredProfiles c (key_of (tp_Meta tp)) = Some tp"
    and "Q None [wr StatusUpdate_verb (TailoredProfileObj (rejected (rtp_env r) tp e)) None]
      (set_tp (rejected (rtp_env r) tp e) c)"
  shows "yields view (updateTailoredProfileStatusError r tp e) c Q"
  unfolding updateTailoredProfileStatusError_def Let_def
  by (rule yields_status) (use assms in \<open>simp_all add: rejected_def set_tp_def\<close>)

lemma surface_does:
  assumes "k_TailoredProfiles c (key_of (tp_Meta tp)) = Some tp" and "explains why e"
  shows "does (Reject tp why) c (surface_error r tp e)"
  unfolding surface_error_def
  by (intro yields_bind yields_rejected [OF assms(1)]) (auto intro!: yields_ret assms(2))

text \<open>Announcing the output and creating it; the output functions have no panic.\<close>

abbreviation does_output :: "decision \<Rightarrow> cluster \<Rightarrow> ('w world, reconcile_return) state \<Rightarrow> bool" where
  "does_output d c m \<equiv> yields view m c (\<lambda>out. carries_out (rtp_env r) c d (Inr out))"

lemma produce_does:
  assumes "k_TailoredProfiles c (key_of (tp_Meta tp)) = Some tp"
    and "admits x" and "\<not> exists_object (set_tp (ready_status tp m) c) x"
  shows "does_output (Produce tp m x) c (do {
     err \<leftarrow> updateTailoredProfileStatusReady r tp m;
     case err of Some e \<Rightarrow> ret (Result0, Some e)
     | None \<Rightarrow> do { err \<leftarrow> Create (rtp_client r) x; ret (Result0, err) } })"
proof -
  have "yields view (updateTailoredProfileStatusReady r tp m) c
    (\<lambda>err ws c'. err = None \<and> ws = [wr StatusUpdate_verb (TailoredProfileObj (ready_status tp m)) None]
       \<and> c' = set_tp (ready_status tp m) c)"
    unfolding updateTailoredProfileStatusReady_def Let_def
    by (rule yields_status) (use assms(1) in \<open>simp_all add: ready_status_def set_tp_def\<close>)
  then show ?thesis
    by (intro yields_bind, elim yields_mono)
      (auto intro!: yields_bind yields_create_new assms(2,3) yields_ret)
qed

lemma config_map_does:
  assumes "k_TailoredProfiles c (key_of (tp_Meta tp)) = Some tp"
    and "tps_OutputType (tp_Spec tp) = ConfigMapOutput" and "key_of (cm_Meta cm) = output_key tp"
    and "\<And>tp' m x. decide_output r c tp cm pb = Produce tp' m x \<Longrightarrow> admits x"
  shows "does_output (decide_output r c tp cm pb) c (ensureConfigMapOutputObject r tp cm)"
proof (cases "SetControllerReference T_TailoredProfile (tp_Meta tp) (cm_Meta cm) (rtp_scheme r)")
  case (Inl e)
  then show ?thesis
    by (auto simp: decide_output_def ensureConfigMapOutputObject_def assms(2) intro!: yields_ret)
next
  case (Inr m)
  let ?x = "cm\<lparr>cm_Meta := m\<rparr>"
  have key: "key_of m = output_key tp"
    using controller_ref.frame [OF Inr] assms(3) by (simp add: key_of_def)
  have "does_output (Produce tp m (ConfigMapObj ?x)) c (do {
     err \<leftarrow> updateTailoredProfileStatusReady r tp m;
     case err of Some e \<Rightarrow> ret (Result0, Some e)
     | None \<Rightarrow> do { err \<leftarrow> Create (rtp_client r) (ConfigMapObj ?x); ret (Result0, err) } })"
    if "k_ConfigMaps c (output_key tp) = None"
    by (rule produce_does [OF assms(1)])
      (use that assms(2,4) Inr in \<open>simp_all add: decide_output_def set_tp_def key\<close>)
  then show ?thesis
    by (auto simp: decide_output_def ensureConfigMapOutputObject_def Let_def assms(2) Inr key
        intro!: yields_bind yields_get [OF get_ConfigMap] yields_ret)
qed

lemma json_key_policy: "json_key (policyObj tp j suite) = key_of (tp_Meta tp)"
  by (simp add: json_key_def policyObj_def key_of_def)

lemma policy_does:
  assumes "k_TailoredProfiles c (key_of (tp_Meta tp)) = Some tp"
    and "tps_OutputType (tp_Spec tp) = PolicyOutput"
    and "\<And>tp' m x. decide_output r c tp cm pb = Produce tp' m x \<Longrightarrow> admits x"
  shows "does_output (decide_output r c tp cm pb) c (ensurePolicyOutputObject r tp cm pb)"
proof -
  have other: "PolicyOutput \<noteq> ConfigMapOutput" by (simp add: PolicyOutput_def ConfigMapOutput_def)
  let ?cm = "cm\<lparr>cm_Meta := (cm_Meta cm)\<lparr>om_Namespace := []\<rparr>\<rparr>"
  show ?thesis
  proof (cases "rtp_ToUnstructured r ?cm")
    case (Inl e)
    then show ?thesis
      by (auto simp: decide_output_def ensurePolicyOutputObject_def Let_def assms(1,2) other
          intro!: yields_bind yields_rejected yields_ret)
  next
    case (Inr j)
    let ?x = "UnstructuredObj (policyObj tp j (suiteObj tp ?cm pb))"
    have "does_output (Produce tp (cm_Meta ?cm) ?x) c (do {
       err \<leftarrow> updateTailoredProfileStatusReady r tp (cm_Meta ?cm);
       case err of Some e \<Rightarrow> ret (Result0, Some e)
       | None \<Rightarrow> do { err \<leftarrow> Create (rtp_client r) ?x; ret (Result0, err) } })"
      if "k_Policies c (key_of (tp_Meta tp)) = None"
      by (rule produce_does [OF assms(1)])
        (use that assms(2,3) Inr in \<open>simp_all add: decide_output_def set_tp_def json_key_policy other Let_def\<close>)
    then show ?thesis
      by (auto simp: decide_output_def ensurePolicyOutputObject_def Let_def assms(2) Inr other
          intro!: yields_bind yields_get [OF get_Policy] yields_ret)
  qed
qed

lemma yields_getRules_decided:
  "yields view (getRulesFromSelections r tp) c (\<lambda>res ws c'. ws = [] \<and> c' = c
     \<and> (case rules_problem c (tp_ns tp) (selected_names tp) {} of
          None \<Rightarrow> res = Inr (expected_rules c tp)
        | Some why \<Rightarrow> \<exists>e. res = Inl (e, False) \<and> explains why e))"
  using yields_rules_decided [of "tp_ns tp" "tps_EnableRules (tp_Spec tp) @ tps_DisableRules (tp_Spec tp)" Map.empty c]
  by (simp add: getRulesFromSelections_def selected_names_def tp_ns_def expected_rules_def cong: option.case_cong)

lemma yields_getVariables_decided:
  "yields view (getVariablesFromSelections r tp) c (\<lambda>res ws c'. ws = [] \<and> c' = c
     \<and> (case values_problem c (tp_ns tp) (tps_SetValues (tp_Spec tp)) of
          None \<Rightarrow> res = Inr (expected_variables c tp)
        | Some why \<Rightarrow> \<exists>e. res = Inl (e, False) \<and> explains why e))"
  using yields_values_decided [of "tp_ns tp" "tps_SetValues (tp_Spec tp)" "[]" c]
  by (simp add: getVariablesFromSelections_def tp_ns_def expected_variables_def cong: option.case_cong)

lemma owned_does:
  assumes "k_TailoredProfiles c (key_of (tp_Meta tp)) = Some tp"
    and "tps_OutputType (tp_Spec tp) \<in> {ConfigMapOutput, PolicyOutput}"
    and "\<And>tp' m x. decide_owned r c tp p = Produce tp' m x \<Longrightarrow> admits x"
  shows "does (decide_owned r c tp p) c (reconcile_owned r tp p)"
proof (cases "\<exists>ref pb. getProfileBundleReferenceFromProfile p = Inr ref
    \<and> k_ProfileBundles c (nsn (om_Namespace (pr_Meta p)) (or_Name ref)) = Some pb")
  case False
  then show ?thesis
    by (cases "getProfileBundleReferenceFromProfile p")
      (auto simp: decide_owned_def reconcile_owned_def getProfileBundleFromProfile_def
        intro!: yields_bind yields_get [OF get_ProfileBundle] yields_ret)
next
  case True
  then obtain ref pb where pb: "getProfileBundleReferenceFromProfile p = Inr ref"
    "k_ProfileBundles c (nsn (om_Namespace (pr_Meta p)) (or_Name ref)) = Some pb" by blast
  have found: "yields view (getProfileBundleFromProfile r p) c (\<lambda>res ws c'. res = Inr pb \<and> ws = [] \<and> c' = c)"
    by (auto simp: getProfileBundleFromProfile_def pb intro!: yields_get [OF get_ProfileBundle])
  let ?rules = "rules_problem c (tp_ns tp) (selected_names tp) {}"
  let ?vals = "values_problem c (tp_ns tp) (tps_SetValues (tp_Spec tp))"
  have doc: "TailoredProfileToXML (rtp_env r) tp p pb (expected_rules c tp) (expected_variables c tp) =
      Inr (Inr (expected_document (rtp_env r) c tp p pb))" if "?rules = None" "?vals = None"
    using document_expected [of c tp] that by (simp flip: selections_problem_None add: selections_problem_def)
  let ?cm = "output_map (rtp_env r) c tp p pb"
  have cm: "(newTailoredProfileCM tp)\<lparr>cm_Data := (cm_Data (newTailoredProfileCM tp))
      (tailoringFile \<mapsto> expected_document (rtp_env r) c tp p pb)\<rparr> = ?cm"
    by (simp add: output_map_def newTailoredProfileCM_def)
  have written: "does_output (decide_output r c tp ?cm pb) c (ensureOutputObject r tp ?cm pb)"
    if "?rules = None" "?vals = None"
  proof -
    have "decide_owned r c tp p = decide_output r c tp ?cm pb"
      using that by (simp add: decide_owned_def pb selections_problem_def)
    with assms config_map_does [of c tp ?cm pb] policy_does [of c tp ?cm pb] show ?thesis
      by (auto simp: ensureOutputObject_def PolicyOutput_def ConfigMapOutput_def output_map_def
          newTailoredProfileCM_def zero_meta_def key_of_def output_key_def tp_ns_def)
  qed
  consider (rules) why where "?rules = Some why" | (vars) why where "?rules = None" "?vals = Some why"
    | (fine) "?rules = None" "?vals = None" by fastforce
  then show ?thesis
  proof cases
    case rules
    then show ?thesis
      unfolding reconcile_owned_def
      by (intro yields_bind, intro yields_mono [OF found])
        (auto simp: decide_owned_def pb selections_problem_def intro!: yields_bind surface_does assms(1)
          yields_mono [OF yields_getRules_decided])
  next
    case vars
    then show ?thesis
      unfolding reconcile_owned_def
      by (intro yields_bind, intro yields_mono [OF found])
        (auto simp: decide_owned_def pb selections_problem_def intro!: yields_bind surface_does assms(1)
          yields_mono [OF yields_getRules_decided] yields_mono [OF yields_getVariables_decided])
  next
    case fine
    note written = written [OF fine]
    show ?thesis
      unfolding reconcile_owned_def
      by (intro yields_bind, intro yields_mono [OF found])
        (use fine in \<open>auto simp: decide_owned_def pb selections_problem_def doc cm Let_def intro!: yields_bind yields_ret
          yields_mono [OF yields_getRules_decided] yields_mono [OF yields_getVariables_decided] yields_mono [OF written]\<close>)
  qed
qed

lemma valid_does:
  assumes "k_TailoredProfiles c (key_of (tp_Meta tp)) = Some tp"
    and "tps_OutputType (tp_Spec tp) \<in> {ConfigMapOutput, PolicyOutput}"
    and "\<And>tp' m x. decide_valid r c tp = Produce tp' m x \<Longrightarrow> admits x"
  shows "does (decide_valid r c tp) c (reconcile_instance r tp)"
proof (cases "k_Profiles c (nsn (tp_ns tp) (tps_Extends (tp_Spec tp)))")
  case None
  then show ?thesis
    by (auto simp: decide_valid_def reconcile_instance_def tp_ns_def
        intro!: yields_bind yields_get [OF get_Profile] surface_does assms(1))
next
  case (Some p)
  have "does (decide_owned r c tp p) c (reconcile_owned r tp p)" if "isOwnedBy (tp_Meta tp) (pr_Meta p)"
    by (rule owned_does [OF assms(1,2)]) (use assms(3) Some that in \<open>simp add: decide_valid_def\<close>)
  moreover have "key_of m = key_of (tp_Meta tp)"
    if "SetOwnerReference T_Profile (pr_Meta p) (tp_Meta tp) (rtp_scheme r) = Inr m" for m
    using owner_ref.frame [OF that] by (simp add: key_of_def)
  ultimately show ?thesis using Some assms(1)
    by (auto simp: decide_valid_def reconcile_instance_def tp_ns_def store_update_def set_tp_def
        intro!: yields_bind yields_get [OF get_Profile] yields_intro yields_update split: sum.split)
qed

lemma Reconcile_does:
  assumes "\<forall>tp. k_TailoredProfiles c k = Some tp \<longrightarrow> key_of (tp_Meta tp) = k"
    and "\<And>tp m x. decide r c k = Produce tp m x \<Longrightarrow> admits x"
  shows "does (decide r c k) c (Reconcile r k)"
proof (cases "k_TailoredProfiles c k")
  case None
  then show ?thesis
    by (auto simp: decide_def Reconcile_def intro!: yields_bind yields_get [OF get_TailoredProfile] yields_ret)
next
  case (Some tp)
  with assms(1) have tp: "k_TailoredProfiles c (key_of (tp_Meta tp)) = Some tp" by auto
  note found = yields_get [OF get_TailoredProfile, where c = c and k = k, unfolded Some]
  consider (extends) "tps_Extends (tp_Spec tp) = []"
    | (amend) "tps_Extends (tp_Spec tp) \<noteq> []" "tps_OutputType (tp_Spec tp) = []"
    | (other) "tps_Extends (tp_Spec tp) \<noteq> []" "tps_OutputType (tp_Spec tp) \<noteq> []"
        "tps_OutputType (tp_Spec tp) \<noteq> ConfigMapOutput" "tps_OutputType (tp_Spec tp) \<noteq> PolicyOutput"
    | (valid) "tps_Extends (tp_Spec tp) \<noteq> []" "tps_OutputType (tp_Spec tp) \<in> {ConfigMapOutput, PolicyOutput}"
    by blast
  then show ?thesis
  proof cases
    case extends
    then show ?thesis unfolding Reconcile_def validateTailoredProfile_def
      by (intro yields_bind found) (auto simp: decide_def Some intro!: yields_bind yields_rejected [OF tp] yields_ret)
  next
    case amend
    with tp show ?thesis unfolding Reconcile_def validateTailoredProfile_def
      by (intro yields_bind found) (auto simp: decide_def Some ConfigMapOutput_def PolicyOutput_def
          store_update_def set_tp_def with_output_def intro!: yields_bind yields_update yields_ret)
  next
    case other
    then show ?thesis unfolding Reconcile_def validateTailoredProfile_def
      by (intro yields_bind found) (auto simp: decide_def Some intro!: yields_bind yields_rejected [OF tp] yields_ret)
  next
    case valid
    then have eq: "decide r c k = decide_valid r c tp"
      by (auto simp: decide_def Some ConfigMapOutput_def PolicyOutput_def)
    have "does (decide_valid r c tp) c (reconcile_instance r tp)"
      by (rule valid_does [OF tp valid(2)]) (use assms(2) eq in simp)
    with valid show ?thesis unfolding Reconcile_def validateTailoredProfile_def eq
      by (intro yields_bind found) (auto intro!: yields_bind yields_ret)
  qed
qed

end

interpretation mem_available: tailored_profile_available "mem_reconciler sch env tu" ms_cluster "\<lambda>_. True"
  for sch env tu
  using mem.api_server_axioms by (simp add: tailored_profile_available_def mem_reconciler_def)

text \<open>
  C6: what one reconciliation does, for every request and every cluster. Against a server that
  keeps its contract it carries out exactly the decision that a function of the cluster makes: it
  leaves everything as it is, comes back with an error, amends the object, puts the reason of a
  rejection into the status (the first problem in the order of the spec, and nothing is retried),
  or announces the output and creates it.
\<close>

theorem Reconcile_decides:
  assumes "api_server (rtp_client r) view admits" and "c = view (w_cluster s)"
    and "\<forall>tp. k_TailoredProfiles c k = Some tp \<longrightarrow> key_of (tp_Meta tp) = k"
    and "\<forall>tp m x. decide r c k = Produce tp m x \<longrightarrow> admits x"
    and "run = run_state (Reconcile r k) s"
  shows "\<exists>ws. w_writes (snd run) = w_writes s @ ws
    \<and> carries_out (rtp_env r) c (decide r c k) (fst run) ws (view (w_cluster (snd run)))"
proof -
  have "tailored_profile_available r view admits" using assms(1) by (simp add: tailored_profile_available_def)
  note tailored_profile_available.Reconcile_does [OF this, of "view (w_cluster s)" k]
  from yieldsD [OF this] assms(2-4) show ?thesis by (simp add: assms(5))
qed

text \<open>The witness selects one rule twice.\<close>

definition ex_twice_request :: tailored_profile where
  "ex_twice_request = ex_request
     \<lparr>tp_Meta := (ex_meta ''mine'')\<lparr>om_OwnerReferences :=
        [\<lparr>or_APIVersion = ''compliance.openshift.io/v1alpha1'', or_Kind = ''Profile'',
          or_Name = ''rhcos-moderate'', or_UID = ''uid-rhcos-moderate'', or_Controller = None,
          or_BlockOwnerDeletion = None\<rparr>]\<rparr>,
      tp_Spec := (tp_Spec ex_request)\<lparr>tps_OutputType := ''ConfigMap'',
        tps_EnableRules := tps_DisableRules (tp_Spec ex_request)\<rparr>\<rparr>"

definition ex_twice_cluster :: cluster where
  "ex_twice_cluster = ex_cluster\<lparr>k_TailoredProfiles := [nsn ''ns'' ''mine'' \<mapsto> ex_twice_request]\<rparr>"

definition ex_twice_world :: "mem_server world" where
  "ex_twice_world = \<lparr>w_cluster = \<lparr>ms_cluster = ex_twice_cluster, ms_next = 0\<rparr>, w_writes = []\<rparr>"

lemma ex_twice_decision:
  "decide ex_reconciler ex_twice_cluster (nsn ''ns'' ''mine'') =
     Reject ex_twice_request (Message (twice_error ''rhcos-no-root''))"
proof -
  have "isOwnedBy (tp_Meta ex_twice_request) (pr_Meta ex_profile)"
    by (simp add: isOwnedBy_def ex_twice_request_def ex_profile_def ex_meta_def zero_meta_def)
  moreover have "selections_problem ex_twice_cluster ex_twice_request = Some (Message (twice_error ''rhcos-no-root''))"
    by (simp add: selections_problem_def selected_names_def ex_twice_request_def ex_twice_cluster_def ex_cluster_def
        ex_request_def ex_meta_def zero_meta_def tp_ns_def)
  ultimately have "decide_owned ex_reconciler ex_twice_cluster ex_twice_request ex_profile =
      Reject ex_twice_request (Message (twice_error ''rhcos-no-root''))"
    by (simp add: decide_owned_def getProfileBundleReferenceFromProfile_def ex_profile_def ex_meta_def zero_meta_def
        gv_String_scheme ex_twice_cluster_def ex_cluster_def)
  moreover have "k_TailoredProfiles ex_twice_cluster (nsn ''ns'' ''mine'') = Some ex_twice_request"
    "k_Profiles ex_twice_cluster (nsn ''ns'' ''rhcos-moderate'') = Some ex_profile"
    by (simp_all add: ex_twice_cluster_def ex_cluster_def)
  moreover have "tps_Extends (tp_Spec ex_twice_request) = ''rhcos-moderate''" "tp_ns ex_twice_request = ''ns''"
    "tps_OutputType (tp_Spec ex_twice_request) = ConfigMapOutput"
    by (simp_all add: ex_twice_request_def ex_request_def tp_ns_def ex_meta_def zero_meta_def ConfigMapOutput_def)
  ultimately show ?thesis
    using \<open>isOwnedBy _ _\<close> by (simp add: decide_def decide_valid_def ConfigMapOutput_def)
qed

theorem Reconcile_decides_witness:
  "\<exists>tp. k_TailoredProfiles (ms_cluster (w_cluster (snd (run_state
        (Reconcile ex_reconciler (nsn ''ns'' ''mine'')) ex_twice_world)))) (nsn ''ns'' ''mine'') = Some tp
     \<and> tpst_State (tp_Status tp) = ''ERROR''
     \<and> tpst_ErrorMessage (tp_Status tp) =
         ''Rule '' @ [CHR 0x27] @ ''rhcos-no-root'' @ [CHR 0x27] @ '' appears twice in selections (enableRules or disableRules)''"
proof -
  have "key_of (tp_Meta ex_twice_request) = nsn ''ns'' ''mine''"
    by (simp add: ex_twice_request_def key_of_def ex_meta_def zero_meta_def)
  then show ?thesis
    using Reconcile_decides [of ex_reconciler ms_cluster "\<lambda>_. True" ex_twice_cluster ex_twice_world "nsn ''ns'' ''mine''"]
      mem.api_server_axioms ex_twice_decision
    by (auto simp: ex_twice_world_def ex_reconciler_def mem_reconciler_def ex_twice_cluster_def twice_error_def
        rejected_def set_tp_def TailoredProfileStateError_def)
qed

text \<open>
  A rejection is final as long as the spec and what it refers to stay as they are: the decision
  about the rejected object is to reject it for the same reason, however often it is taken.
\<close>

lemma selections_problem_status:
  "selections_problem (set_tp tp' c) (tp\<lparr>tp_Status := st\<rparr>) = selections_problem c tp"
proof -
  have "rules_problem (set_tp tp' c) ns names seen = rules_problem c ns names seen" for ns names seen
    by (induction names arbitrary: seen) (simp_all add: set_tp_def)
  moreover have "values_problem (set_tp tp' c) ns svs = values_problem c ns svs" for ns svs
    by (induction svs) (simp_all add: set_tp_def split: option.split prod.split)
  ultimately show ?thesis by (simp add: selections_problem_def tp_ns_def selected_names_def cong: option.case_cong)
qed

lemma output_map_status:
  "output_map env (set_tp tp' c) (tp\<lparr>tp_Status := st\<rparr>) p pb = output_map env c tp p pb"
  unfolding output_map_def expected_document_def expected_rules_def expected_variables_def
  by (simp add: set_tp_def tailoring_of_def tp_ns_def selected_names_def newTailoredProfileCM_def
      GetXCCDFProfileID_def getTailoringID_def cong: if_cong)

lemma rejected_again:
  assumes "k_TailoredProfiles c k = Some tp" and "key_of (tp_Meta tp) = k" and "decide r c k = Reject tp why"
  shows "decide r (set_tp (rejected env tp e) c) k = Reject (rejected env tp e) why"
proof -
  define tp' where "tp' = rejected env tp e"
  define c' where "c' = set_tp tp' c"
  have same: "tp_Spec tp' = tp_Spec tp" "tp_Meta tp' = tp_Meta tp" "tp_ns tp' = tp_ns tp"
    by (simp_all add: tp'_def rejected_def tp_ns_def)
  have stored: "k_TailoredProfiles c' k = Some tp'" "k_Profiles c' = k_Profiles c" "k_ProfileBundles c' = k_ProfileBundles c"
    using assms(2) by (simp_all add: c'_def set_tp_def same)
  have problem: "selections_problem c' tp' = selections_problem c tp"
    and map: "output_map env' c' tp' p pb = output_map env' c tp p pb" for env' p pb
    by (simp_all add: tp'_def c'_def rejected_def selections_problem_status output_map_status)
  have written: "decide_output r c' tp' cm pb = Reject tp' why" if "decide_output r c tp cm pb = Reject tp why" for cm pb
    using that by (simp add: decide_output_def same Let_def split: if_splits sum.splits)
  have owned: "decide_owned r c' tp' p = Reject tp' why" if "decide_owned r c tp p = Reject tp why" for p
    using that by (auto simp: decide_owned_def stored problem map intro: written split: sum.splits option.splits)
  have valid: "decide_valid r c' tp' = Reject tp' why" if "decide_valid r c tp = Reject tp why"
    using that by (auto simp: decide_valid_def stored same intro: owned split: if_splits sum.splits option.splits)
  show ?thesis
    using assms(3) unfolding tp'_def [symmetric] c'_def [symmetric]
    by (auto simp: decide_def stored same assms(1) ConfigMapOutput_def PolicyOutput_def intro: valid split: if_splits)
qed

end
