(* ===== verification/Tailored_Profile_Verdict.thy ===== *)
theory Tailored_Profile_Verdict
  imports Tailored_Profile_Decides
begin

text \<open>
  Any TailoredProfile, well-posed or not, comes to a verdict: the decisions of repeated
  reconciliations run out of amendments and outputs after three, and from then on are the same
  again and again.
\<close>

section \<open>How far a request is from its verdict\<close>

definition stored_under_key :: "cluster \<Rightarrow> nsname \<Rightarrow> bool" where
  "stored_under_key c k \<longleftrightarrow> (\<forall>tp. k_TailoredProfiles c k = Some tp \<longrightarrow> key_of (tp_Meta tp) = k)"

definition steps_left :: "'w ReconcileTailoredProfile \<Rightarrow> cluster \<Rightarrow> nsname \<Rightarrow> nat" where
  "steps_left r c k =
     (case decide r c k of
        Amend tp \<Rightarrow>
          (case k_TailoredProfiles c k of
             Some old \<Rightarrow> if tps_OutputType (tp_Spec old) = [] then 3 else 2
           | None \<Rightarrow> 0)
      | Produce tp m x \<Rightarrow> 1
      | _ \<Rightarrow> 0)"

text \<open>
  The verdict, with the result of the reconciliation that confirmed it: nothing is missing, an error
  keeps coming back, or the status says why the request is rejected.
\<close>

fun verdict_result :: "decision \<Rightarrow> go_panic + reconcile_return \<Rightarrow> bool" where
  "verdict_result Leave out \<longleftrightarrow> out = finished"
| "verdict_result Retry out \<longleftrightarrow> (\<exists>e. out = Inr (Result0, Some e))"
| "verdict_result (Reject tp why) out \<longleftrightarrow> out = finished"
| "verdict_result d out \<longleftrightarrow> False"

fun same_verdict :: "decision \<Rightarrow> decision \<Rightarrow> bool" where
  "same_verdict Leave d \<longleftrightarrow> d = Leave"
| "same_verdict Retry d \<longleftrightarrow> d = Retry"
| "same_verdict (Reject tp why) d \<longleftrightarrow>
     (\<exists>tp'. d = Reject tp' why \<and> tp_Meta tp' = tp_Meta tp \<and> tp_Spec tp' = tp_Spec tp)"
| "same_verdict d d' \<longleftrightarrow> False"

definition verdict :: "'w ReconcileTailoredProfile \<Rightarrow> cluster \<Rightarrow> nsname \<Rightarrow> go_panic + reconcile_return \<Rightarrow> bool" where
  "verdict r c k out \<longleftrightarrow> verdict_result (decide r c k) out
     \<and> (\<forall>tp why. decide r c k = Reject tp why \<longrightarrow> k_TailoredProfiles c k = Some tp
          \<and> (\<exists>e. explains why e \<and> tpst_State (tp_Status tp) = TailoredProfileStateError
               \<and> tpst_ErrorMessage (tp_Status tp) = error_text (rtp_env r) e))"

lemma same_verdict_trans: "same_verdict d d' \<Longrightarrow> same_verdict d' d'' \<Longrightarrow> same_verdict d d''"
  by (cases d) auto

lemma same_verdict_result: "same_verdict d d' \<Longrightarrow> verdict_result d' out = verdict_result d out"
  by (cases d) auto

definition other_writes :: "api_write list \<Rightarrow> nat" where
  "other_writes ws = length (filter (\<lambda>w. wr_Verb w \<noteq> StatusUpdate_verb) ws)"

lemma other_writes_simps [simp]:
  "other_writes [] = 0" "other_writes (ws @ us) = other_writes ws + other_writes us"
  "other_writes (w # ws) = of_bool (wr_Verb w \<noteq> StatusUpdate_verb) + other_writes ws"
  by (simp_all add: other_writes_def)

text \<open>The shape of a decision does not depend on the clock or the environment of the process.\<close>

definition converts :: "'w ReconcileTailoredProfile \<Rightarrow> bool" where
  "converts r \<longleftrightarrow> (\<forall>cm. \<exists>j. rtp_ToUnstructured r cm = Inr j)"

lemma converts_env [simp]: "converts (r\<lparr>rtp_env := env\<rparr>) = converts r"
  by (simp add: converts_def)

fun shape :: "decision \<Rightarrow> nat" where
  "shape Leave = 0" | "shape Retry = 0" | "shape (Reject tp why) = 0" | "shape (Produce tp m x) = 1"
| "shape (Amend tp) = 2"

lemma steps_left_shape:
  "steps_left r c k = (if shape (decide r c k) = 2
     then (case k_TailoredProfiles c k of
        Some old \<Rightarrow> if tps_OutputType (tp_Spec old) = [] then 3 else 2 | None \<Rightarrow> 0)
     else shape (decide r c k))"
  by (cases "decide r c k") (simp_all add: steps_left_def)

lemma shape_output:
  assumes "converts r"
  shows "shape (decide_output r c tp cm pb) =
     (if tps_OutputType (tp_Spec tp) = ConfigMapOutput then
        (case SetControllerReference T_TailoredProfile (tp_Meta tp) (cm_Meta cm) (rtp_scheme r) of
           Inl err \<Rightarrow> 0 | Inr m \<Rightarrow> of_bool (k_ConfigMaps c (output_key tp) = None))
      else of_bool (k_Policies c (key_of (tp_Meta tp)) = None))"
proof -
  obtain j where "rtp_ToUnstructured r (cm\<lparr>cm_Meta := (cm_Meta cm)\<lparr>om_Namespace := []\<rparr>\<rparr>) = Inr j"
    using assms by (auto simp: converts_def)
  then show ?thesis by (simp add: decide_output_def Let_def split: sum.split)
qed

lemma decide_env:
  assumes "converts r"
  shows "shape (decide (r\<lparr>rtp_env := env\<rparr>) c k) = shape (decide r c k)"
proof -
  have "shape (decide_output (r\<lparr>rtp_env := env\<rparr>) c tp (output_map env c tp p pb) pb)
      = shape (decide_output r c tp (output_map (rtp_env r) c tp p pb) pb)" for tp p pb
    using assms by (simp add: shape_output output_map_def)
  then have "shape (decide_owned (r\<lparr>rtp_env := env\<rparr>) c tp p) = shape (decide_owned r c tp p)" for tp p
    by (simp add: decide_owned_def split: sum.split option.split)
  then have "shape (decide_valid (r\<lparr>rtp_env := env\<rparr>) c tp) = shape (decide_valid r c tp)" for tp
    by (simp add: decide_valid_def split: sum.split option.split)
  then show ?thesis by (simp add: decide_def split: option.split)
qed

text \<open>And neither does a verdict: the environment is only in the text of a document.\<close>

lemma verdict_env:
  assumes "converts r" and "shape (decide r c k) = 0"
  shows "decide (r\<lparr>rtp_env := env\<rparr>) c k = decide r c k"
proof -
  have out: "decide_output (r\<lparr>rtp_env := env\<rparr>) c tp (output_map env c tp p pb) pb
      = decide_output r c tp (output_map (rtp_env r) c tp p pb) pb"
    if zero: "shape (decide_output r c tp (output_map (rtp_env r) c tp p pb) pb) = 0" for tp p pb
  proof -
    obtain j where "rtp_ToUnstructured r ((output_map env c tp p pb)\<lparr>cm_Meta := (cm_Meta (output_map env c tp p pb))
        \<lparr>om_Namespace := []\<rparr>\<rparr>) = Inr j" using assms(1) by (auto simp: converts_def)
    moreover obtain j' where "rtp_ToUnstructured r ((output_map (rtp_env r) c tp p pb)
        \<lparr>cm_Meta := (cm_Meta (output_map (rtp_env r) c tp p pb))\<lparr>om_Namespace := []\<rparr>\<rparr>) = Inr j'"
      using assms(1) by (auto simp: converts_def)
    ultimately show ?thesis
      using zero by (auto simp: decide_output_def Let_def output_map_def split: sum.splits if_splits)
  qed
  have owned: "decide_owned (r\<lparr>rtp_env := env\<rparr>) c tp p = decide_owned r c tp p" if "shape (decide_owned r c tp p) = 0" for tp p
    using that out by (simp add: decide_owned_def split: sum.splits option.splits)
  have valid: "decide_valid (r\<lparr>rtp_env := env\<rparr>) c tp = decide_valid r c tp" if "shape (decide_valid r c tp) = 0" for tp
    using that owned by (simp add: decide_valid_def split: sum.splits option.splits if_splits)
  show ?thesis
    using assms(2) valid by (cases "k_TailoredProfiles c k") (auto simp: decide_def split: if_splits)
qed

lemma steps_left_env: "converts r \<Longrightarrow> steps_left (r\<lparr>rtp_env := env\<rparr>) c k = steps_left r c k"
  by (simp add: steps_left_shape decide_env)

section \<open>One step nearer\<close>

lemma owned_no_amendment: "shape (decide_owned r c tp p) \<noteq> 2"
  by (auto simp: decide_owned_def decide_output_def Let_def split: sum.split option.split)

lemma decide_stored:
  assumes "decide r c k = d" and "d = Reject tp why \<or> d = Produce tp m x"
  shows "k_TailoredProfiles c k = Some tp"
  using assms
  by (auto simp: decide_def decide_valid_def decide_owned_def decide_output_def Let_def
      split: option.splits if_splits sum.splits)

text \<open>An amendment by its two kinds.\<close>

lemma decide_AmendE:
  assumes "decide r c k = Amend tp'"
  obtains (defaulted) tp where "k_TailoredProfiles c k = Some tp" "tps_Extends (tp_Spec tp) \<noteq> []"
      "tps_OutputType (tp_Spec tp) = []" "tp' = with_output tp"
    | (owned) tp p m where "k_TailoredProfiles c k = Some tp" "tps_Extends (tp_Spec tp) \<noteq> []"
      "tps_OutputType (tp_Spec tp) \<in> {ConfigMapOutput, PolicyOutput}"
      "k_Profiles c (nsn (tp_ns tp) (tps_Extends (tp_Spec tp))) = Some p"
      "SetOwnerReference T_Profile (pr_Meta p) (tp_Meta tp) (rtp_scheme r) = Inr m" "tp' = tp\<lparr>tp_Meta := m\<rparr>"
proof -
  have "decide_owned r c tp p \<noteq> Amend tp'" for tp p
    using owned_no_amendment [of r c tp p] by auto
  with assms that show thesis
    by (auto simp: decide_def decide_valid_def split: option.splits if_splits sum.splits)
qed

lemma decide_ProduceE:
  assumes "decide r c k = Produce tp m x" and "key_of (tp_Meta tp) = k"
  obtains (config_map) y where "x = ConfigMapObj y" "key_of (cm_Meta y) = output_key tp"
      "tps_OutputType (tp_Spec tp) = ConfigMapOutput"
    | (policy) j where "x = UnstructuredObj j" "json_key j = k" "tps_OutputType (tp_Spec tp) = PolicyOutput"
proof -
  have tp: "k_TailoredProfiles c k = Some tp" using decide_stored assms(1) by blast
  have key: "key_of m' = output_key tp" if "SetControllerReference T_TailoredProfile (tp_Meta tp)
      (cm_Meta (output_map env c tp p pb)) (rtp_scheme r) = Inr m'" for env p pb m'
    using controller_ref.frame [OF that]
    by (simp add: key_of_def output_map_def newTailoredProfileCM_def zero_meta_def output_key_def tp_ns_def)
  have "json_key (policyObj tp j suite) = k" for j suite
    by (simp add: json_key_def policyObj_def key_of_def flip: assms(2))
  with assms(1) tp that show thesis
    by (auto simp: decide_def decide_valid_def decide_owned_def decide_output_def Let_def key
        split: option.splits if_splits sum.splits)
qed

lemma steps_left_le: "k_TailoredProfiles c k = Some tp \<Longrightarrow> tps_OutputType (tp_Spec tp) \<noteq> [] \<Longrightarrow> steps_left r c k \<le> 2"
  by (simp add: steps_left_def split: decision.split)

lemma steps_left_owned:
  assumes "k_TailoredProfiles c k = Some tp" and "tps_Extends (tp_Spec tp) \<noteq> []"
    and "tps_OutputType (tp_Spec tp) \<in> {ConfigMapOutput, PolicyOutput}"
    and "k_Profiles c (nsn (tp_ns tp) (tps_Extends (tp_Spec tp))) = Some p" and "isOwnedBy (tp_Meta tp) (pr_Meta p)"
  shows "steps_left r c k = shape (decide_owned r c tp p)"
proof -
  have "decide r c k = decide_owned r c tp p"
    using assms by (auto simp: decide_def decide_valid_def ConfigMapOutput_def PolicyOutput_def)
  with owned_no_amendment [of r c tp p] show ?thesis by (simp add: steps_left_shape)
qed

text \<open>An output that exists leaves nothing to do.\<close>

lemma steps_left_produced:
  assumes "k_TailoredProfiles c k = Some tp" and "tps_OutputType (tp_Spec tp) = PolicyOutput \<longrightarrow> k_Policies c (key_of (tp_Meta tp)) \<noteq> None"
    and "tps_OutputType (tp_Spec tp) = ConfigMapOutput \<longrightarrow> k_ConfigMaps c (output_key tp) \<noteq> None"
    and "tps_OutputType (tp_Spec tp) \<in> {ConfigMapOutput, PolicyOutput}"
    and "k_Profiles c (nsn (tp_ns tp) (tps_Extends (tp_Spec tp))) = Some p" and "isOwnedBy (tp_Meta tp) (pr_Meta p)"
    and "tps_Extends (tp_Spec tp) \<noteq> []" and "converts r"
  shows "steps_left r c k = 0"
proof -
  have "ConfigMapOutput \<noteq> PolicyOutput" by (simp add: PolicyOutput_def ConfigMapOutput_def)
  with assms(2-4) have "shape (decide_output r c tp cm pb) = 0" for cm pb
    by (auto simp: shape_output [OF assms(8)] split: sum.split)
  then have "shape (decide_owned r c tp p) = 0"
    by (simp add: decide_owned_def split: sum.split option.split)
  then show ?thesis by (simp add: steps_left_owned [OF assms(1,7,4-6)])
qed

lemma carries_out_step:
  assumes "stored_under_key c k" and "converts r" and "carries_out (rtp_env r) c (decide r c k) out ws c'"
  shows "stored_under_key c' k \<and> other_writes ws + steps_left r c' k \<le> steps_left r c k
    \<and> (steps_left r c k \<noteq> 0 \<longrightarrow> other_writes ws = 1)
    \<and> (steps_left r c k = 0 \<longrightarrow> other_writes ws = 0 \<and> verdict r c' k out
         \<and> same_verdict (decide r c k) (decide r c' k))"
proof (cases "decide r c k")
  case Leave
  with assms show ?thesis by (simp add: steps_left_def verdict_def)
next
  case Retry
  with assms show ?thesis by (auto simp: steps_left_def verdict_def)
next
  case (Reject tp why)
  then have tp: "k_TailoredProfiles c k = Some tp" using decide_stored by blast
  with assms(1) have key: "key_of (tp_Meta tp) = k" by (simp add: stored_under_key_def)
  from assms(3) Reject obtain e where e: "explains why e" "out = finished" "other_writes ws = 0"
    "c' = set_tp (rejected (rtp_env r) tp e) c" by auto
  have "k_TailoredProfiles c' k = Some (rejected (rtp_env r) tp e)"
    using key by (simp add: e(4) set_tp_def rejected_def)
  moreover have again: "decide r c' k = Reject (rejected (rtp_env r) tp e) why"
    unfolding e(4) by (rule rejected_again [OF tp key Reject])
  moreover have "same_verdict (decide r c k) (decide r c' k)"
    by (simp add: Reject again rejected_def)
  moreover have "steps_left r c k = 0" using Reject by (simp add: steps_left_def)
  ultimately show ?thesis using e(1-3) key
    by (auto simp: stored_under_key_def verdict_def steps_left_def rejected_def)
next
  case (Amend tp')
  then show ?thesis
  proof (cases rule: decide_AmendE)
    case (defaulted tp)
    with assms(1) have key: "key_of (tp_Meta tp') = k" by (simp add: stored_under_key_def with_output_def)
    with assms(3) Amend have new: "k_TailoredProfiles c' k = Some tp'" "other_writes ws = 1"
      by (auto simp: set_tp_def)
    with steps_left_le [of c' k tp' r] defaulted have "steps_left r c' k \<le> 2"
      by (simp add: with_output_def ConfigMapOutput_def)
    with new key Amend defaulted show ?thesis by (simp add: steps_left_def stored_under_key_def)
  next
    case (owned tp p m)
    have key: "key_of m = k" using assms(1) owner_ref.frame [OF owned(5)] owned(1)
      by (simp add: stored_under_key_def key_of_def)
    with assms(3) Amend owned have new: "k_TailoredProfiles c' k = Some tp'" "other_writes ws = 1"
      "k_Profiles c' = k_Profiles c" by (auto simp: set_tp_def)
    have ns: "tp_ns tp' = tp_ns tp" using owner_ref.frame [OF owned(5)] by (simp add: tp_ns_def owned(6))
    have "steps_left r c' k = shape (decide_owned r c' tp' p)"
      by (rule steps_left_owned)
        (use new(1,3) owned ns isOwnedBy_SetOwnerReference [OF owned(5)] in simp_all)
    with owned_no_amendment [of r c' tp' p] have "steps_left r c' k \<le> 1"
      by (cases "decide_owned r c' tp' p") simp_all
    moreover have "steps_left r c k = 2"
      using Amend owned(1,3) by (auto simp: steps_left_def ConfigMapOutput_def PolicyOutput_def)
    ultimately show ?thesis using new key by (simp add: stored_under_key_def owned(6))
  qed
next
  case (Produce tp m x)
  then have tp: "k_TailoredProfiles c k = Some tp" using decide_stored by blast
  with assms(1) have key: "key_of (tp_Meta tp) = k" by (simp add: stored_under_key_def)
  let ?tp = "ready_status tp m"
  have same: "tp_Spec ?tp = tp_Spec tp" "tp_Meta ?tp = tp_Meta tp" "tp_ns ?tp = tp_ns tp" "output_key ?tp = output_key tp"
    by (simp_all add: ready_status_def tp_ns_def output_key_def)
  from assms(3) Produce obtain u where c': "c' = store_object u x (set_tp ?tp c)" "other_writes ws = 1" by auto
  obtain p where p: "k_Profiles c (nsn (tp_ns tp) (tps_Extends (tp_Spec tp))) = Some p"
    "isOwnedBy (tp_Meta tp) (pr_Meta p)" "tps_Extends (tp_Spec tp) \<noteq> []"
    using Produce tp by (auto simp: decide_def decide_valid_def split: option.splits if_splits sum.splits)
  have "ConfigMapOutput \<noteq> PolicyOutput" by (simp add: PolicyOutput_def ConfigMapOutput_def)
  with decide_ProduceE [OF Produce key] have "k_TailoredProfiles c' k = Some ?tp \<and> k_Profiles c' = k_Profiles c
      \<and> (tps_OutputType (tp_Spec tp) = PolicyOutput \<longrightarrow> k_Policies c' (key_of (tp_Meta tp)) \<noteq> None)
      \<and> (tps_OutputType (tp_Spec tp) = ConfigMapOutput \<longrightarrow> k_ConfigMaps c' (output_key tp) \<noteq> None)
      \<and> tps_OutputType (tp_Spec tp) \<in> {ConfigMapOutput, PolicyOutput}"
    by cases (use key in \<open>auto simp: c'(1) set_tp_def same key_of_def\<close>)
  moreover from this p have "steps_left r c' k = 0"
    by (intro steps_left_produced [where tp = ?tp and p = p]) (simp_all add: same assms(2))
  ultimately show ?thesis using Produce key c'(2) by (simp add: stored_under_key_def steps_left_def same)
qed

section \<open>Reconciling until the verdict\<close>

text \<open>The objects that a TailoredProfile may ask the server to create.\<close>

fun own_output :: "nsname \<Rightarrow> kobject \<Rightarrow> bool" where
  "own_output k (ConfigMapObj y) \<longleftrightarrow> key_of (cm_Meta y) = nsn (nn_Namespace k) (nn_Name k @ ''-tp'')"
| "own_output k (UnstructuredObj j) \<longleftrightarrow> json_key j = k"
| "own_output k x \<longleftrightarrow> False"

lemma produces_own_output:
  assumes "stored_under_key c k" and "decide r c k = Produce tp m x"
  shows "own_output k x"
proof -
  have "key_of (tp_Meta tp) = k" using assms decide_stored by (fastforce simp: stored_under_key_def)
  moreover from this have "output_key tp = nsn (nn_Namespace k) (nn_Name k @ ''-tp'')"
    by (auto simp: output_key_def tp_ns_def key_of_def)
  ultimately show ?thesis using decide_ProduceE [OF assms(2)] by (metis own_output.simps(1,2))
qed

context tailored_profile_available
begin

lemma yields_nearer:
  assumes "\<forall>x. own_output k x \<longrightarrow> admits x" and "converts r" and "stored_under_key c k"
  shows "yields view (Reconcile r k) c (\<lambda>out ws c'. stored_under_key c' k
    \<and> other_writes ws + steps_left r c' k \<le> steps_left r c k
    \<and> (steps_left r c k \<noteq> 0 \<longrightarrow> other_writes ws = 1)
    \<and> (steps_left r c k = 0 \<longrightarrow> other_writes ws = 0 \<and> verdict r c' k out
         \<and> same_verdict (decide r c k) (decide r c' k)))"
proof -
  have key: "\<forall>tp. k_TailoredProfiles c k = Some tp \<longrightarrow> key_of (tp_Meta tp) = k"
    using assms(3) by (simp add: stored_under_key_def)
  have "admits x" if "decide r c k = Produce tp m x" for tp m x
    using produces_own_output [OF assms(3) that] assms(1) by blast
  then have "does (decide r c k) c (Reconcile r k)" by (rule Reconcile_does [OF key])
  then show ?thesis by (rule yields_mono) (rule carries_out_step [OF assms(3,2)])
qed

end

lemma reconciles_nearer:
  assumes "api_server (rtp_client r) view admits" and "\<forall>x. own_output k x \<longrightarrow> admits x" and "converts r"
    and "stored_under_key c k"
  shows "yields view (Reconcile (r\<lparr>rtp_env := env\<rparr>) k) c (\<lambda>out ws c'. stored_under_key c' k
    \<and> other_writes ws + steps_left r c' k \<le> steps_left r c k
    \<and> (steps_left r c k \<noteq> 0 \<longrightarrow> other_writes ws = 1)
    \<and> (steps_left r c k = 0 \<longrightarrow> other_writes ws = 0 \<and> verdict (r\<lparr>rtp_env := env\<rparr>) c' k out
         \<and> same_verdict (decide r c k) (decide r c' k)))"
proof -
  have "tailored_profile_available (r\<lparr>rtp_env := env\<rparr>) view admits"
    using assms(1) by (simp add: tailored_profile_available_def)
  note one = tailored_profile_available.yields_nearer [OF this assms(2) _ assms(4)]
  have "decide (r\<lparr>rtp_env := env\<rparr>) d k = decide r d k" if "steps_left r d k = 0" "stored_under_key d k" for d
  proof (rule verdict_env [OF assms(3)])
    show "shape (decide r d k) = 0"
      using that(1) by (cases "decide r d k") (auto simp: steps_left_def decide_def split: option.splits if_splits)
  qed
  then show ?thesis
    using assms(3,4) by (auto simp: steps_left_env intro!: yields_mono [OF one])
qed

lemma yields_verdict:
  assumes "api_server (rtp_client r) view admits" and "\<forall>x. own_output k x \<longrightarrow> admits x" and "converts r"
    and "stored_under_key c k" and "steps_left r c k < length envs"
  shows "yields view (reconcile_all r k envs) c (\<lambda>outs ws c'. stored_under_key c' k
    \<and> steps_left r c' k = 0 \<and> other_writes ws \<le> steps_left r c k
    \<and> outs \<noteq> [] \<and> verdict (r\<lparr>rtp_env := last envs\<rparr>) c' k (last outs))"
  using assms(4,5)
proof (induction envs arbitrary: c)
  case (Cons env envs)
  note first = reconciles_nearer [OF assms(1-3) Cons.prems(1), of env]
  show ?case
  proof (cases "envs = []")
    case True
    with Cons.prems(2) first show ?thesis
      by (auto intro!: yields_bind yields_ret elim!: yields_mono)
  next
    case False
    have again: "yields view (reconcile_all r k envs) c' (\<lambda>outs ws c''. stored_under_key c'' k
        \<and> steps_left r c'' k = 0 \<and> other_writes ws \<le> steps_left r c' k
        \<and> outs \<noteq> [] \<and> verdict (r\<lparr>rtp_env := last envs\<rparr>) c'' k (last outs))"
      if "stored_under_key c' k" "other_writes ws + steps_left r c' k \<le> steps_left r c k"
        "steps_left r c k \<noteq> 0 \<longrightarrow> other_writes ws = 1" for c' ws
      by (rule Cons.IH [OF that(1)]) (use that Cons.prems(2) False in \<open>cases "steps_left r c k"; simp\<close>)
    show ?thesis unfolding reconcile_all.simps
    proof (intro yields_bind, rule yields_mono [OF first], elim conjE)
      fix out ws c'
      assume c': "stored_under_key c' k" "other_writes ws + steps_left r c' k \<le> steps_left r c k"
        "steps_left r c k \<noteq> 0 \<longrightarrow> other_writes ws = 1"
      show "yields view (State_Monad.bind (reconcile_all r k envs) (\<lambda>outs. ret (out # outs))) c' (\<lambda>outs ws' c''.
          stored_under_key c'' k \<and> steps_left r c'' k = 0 \<and> other_writes (ws @ ws') \<le> steps_left r c k
          \<and> outs \<noteq> [] \<and> verdict (r\<lparr>rtp_env := last (env # envs)\<rparr>) c'' k (last outs))"
        by (intro yields_bind, rule yields_mono [OF again [OF c']])
          (use c'(2) False in \<open>auto intro!: yields_ret\<close>)
    qed
  qed
qed simp

text \<open>Once nothing is left to do, the decision stays the same and every result agrees with it.\<close>

lemma yields_kept:
  assumes "api_server (rtp_client r) view admits" and "\<forall>x. own_output k x \<longrightarrow> admits x" and "converts r"
    and "stored_under_key c k" and "steps_left r c k = 0" and "same_verdict d (decide r c k)"
  shows "yields view (reconcile_all r k envs) c (\<lambda>outs ws c'. other_writes ws = 0
    \<and> same_verdict d (decide r c' k) \<and> list_all (verdict_result d) outs)"
  using assms(4-6)
proof (induction envs arbitrary: c)
  case Nil
  then show ?case by (auto intro!: yields_ret)
next
  case (Cons env envs)
  show ?case unfolding reconcile_all.simps
  proof (intro yields_bind, rule yields_mono [OF reconciles_nearer [OF assms(1-3) Cons.prems(1), of env]], elim conjE)
    fix out ws c'
    assume c': "stored_under_key c' k" "other_writes ws + steps_left r c' k \<le> steps_left r c k"
      and kept: "steps_left r c k = 0 \<longrightarrow> other_writes ws = 0 \<and> verdict (r\<lparr>rtp_env := env\<rparr>) c' k out
        \<and> same_verdict (decide r c k) (decide r c' k)"
    have none: "steps_left r c' k = 0" and ws: "other_writes ws = 0" using c'(2) Cons.prems(2) by simp_all
    have same: "same_verdict d (decide r c' k)" using kept Cons.prems(2,3) same_verdict_trans by blast
    have "shape (decide r c' k) = 0" using same by (cases d) auto
    from verdict_env [OF assms(3) this] have "verdict_result d out"
      using kept Cons.prems(2) same_verdict_result [OF same] by (simp add: verdict_def)
    note this [simp]
    show "yields view (State_Monad.bind (reconcile_all r k envs) (\<lambda>outs. ret (out # outs))) c' (\<lambda>outs ws' c''.
        other_writes (ws @ ws') = 0 \<and> same_verdict d (decide r c'' k) \<and> list_all (verdict_result d) outs)"
      by (intro yields_bind, rule yields_mono [OF Cons.IH [OF c'(1) none same]])
        (auto simp: ws intro!: yields_ret)
  qed
qed

text \<open>
  C7: every TailoredProfile comes to a verdict within four reconciliations, each in an environment
  of its own: its output exists, or its status is ERROR with the first problem as its message, or
  an error came back (the bundle is missing or an owner cannot be set), or it does not exist.
  Besides status updates there are at most three writes: the default output type, the owner, and
  the output. And it keeps the verdict: however many reconciliations follow, in whatever
  environments, each has the same result, only the status is written, and the decision is still
  the same, a rejection for the same reason. The server keeps its contract and admits the ConfigMap
  and the Policy of this request, and the conversion of a ConfigMap to unstructured content never
  fails.
\<close>

theorem every_request_settles:
  assumes "api_server (rtp_client r) view admits" and "\<forall>x. own_output k x \<longrightarrow> admits x" and "converts r"
    and "stored_under_key (view (w_cluster s)) k" and "4 \<le> length envs"
    and "run = run_state (reconcile_all r k envs) s" and "later = run_state (reconcile_all r k envs') (snd run)"
    and "c = view (w_cluster (snd run))" and "c' = view (w_cluster (snd later))"
  shows "\<exists>ws us. w_writes (snd run) = w_writes s @ ws \<and> other_writes ws \<le> 3
    \<and> verdict (r\<lparr>rtp_env := last envs\<rparr>) c k (last (fst run))
    \<and> w_writes (snd later) = w_writes s @ ws @ us \<and> other_writes us = 0
    \<and> same_verdict (decide r c k) (decide r c' k) \<and> list_all (verdict_result (decide r c k)) (fst later)"
proof -
  have le: "steps_left r (view (w_cluster s)) k \<le> 3"
    by (simp add: steps_left_def split: decision.split option.split)
  with assms(5) have "steps_left r (view (w_cluster s)) k < length envs" by simp
  from yieldsD [OF yields_verdict [OF assms(1-4) this]] obtain ws where ws: "w_writes (snd run) = w_writes s @ ws"
    "other_writes ws \<le> steps_left r (view (w_cluster s)) k"
    and c: "stored_under_key c k" "steps_left r c k = 0"
    and v: "verdict (r\<lparr>rtp_env := last envs\<rparr>) c k (last (fst run))"
    by (auto simp: assms(6,8))
  have "same_verdict (decide r c k) (decide r c k)"
    using v c(2) by (cases "decide r c k") (auto simp: steps_left_def decide_def split: option.splits if_splits)
  from yieldsD [OF yields_kept [OF assms(1-3) c [unfolded assms(8)] this [unfolded assms(8)]], of envs'] obtain us where
    "w_writes (snd later) = w_writes (snd run) @ us" "other_writes us = 0"
    "same_verdict (decide r c k) (decide r c' k)" "list_all (verdict_result (decide r c k)) (fst later)"
    by (auto simp: assms(7-9))
  with ws v le show ?thesis by auto
qed

theorem every_request_settles_witness:
  "\<exists>run later. run = run_state (reconcile_all ex_reconciler (nsn ''ns'' ''mine'') [ex_env, ex_env, ex_env, ex_env])
        ex_twice_world
     \<and> later = run_state (reconcile_all ex_reconciler (nsn ''ns'' ''mine'') [ex_env, ex_env]) (snd run)
     \<and> other_writes (w_writes (snd later)) \<le> 3
     \<and> verdict ex_reconciler (ms_cluster (w_cluster (snd run))) (nsn ''ns'' ''mine'') (last (fst run))
     \<and> list_all (verdict_result (decide ex_reconciler (ms_cluster (w_cluster (snd run))) (nsn ''ns'' ''mine''))) (fst later)"
proof -
  have "stored_under_key ex_twice_cluster (nsn ''ns'' ''mine'')"
    by (simp add: stored_under_key_def ex_twice_cluster_def ex_twice_request_def key_of_def ex_meta_def zero_meta_def)
  moreover have "ex_reconciler\<lparr>rtp_env := ex_env\<rparr> = ex_reconciler" "rtp_client ex_reconciler = mem_client"
    "converts ex_reconciler" by (simp_all add: ex_reconciler_def mem_reconciler_def converts_def)
  ultimately show ?thesis
    using every_request_settles [of ex_reconciler ms_cluster "\<lambda>_. True" "nsn ''ns'' ''mine''" ex_twice_world
        "[ex_env, ex_env, ex_env, ex_env]" _ _ "[ex_env, ex_env]", OF _ _ _ _ _ refl refl refl refl] mem.api_server_axioms
    by (auto simp: ex_twice_world_def simp del: reconcile_all.simps)
qed

end
