(* ===== verification/Tailored_Profile_Outcomes.thy ===== *)
theory Tailored_Profile_Outcomes
  imports Tailored_Profile_Verdict
begin

text \<open>
  More of what a reconciliation of a TailoredProfile does against a server that keeps its
  contract: which selections are refused, what an existing output means, and what the status
  of a Policy output refers to.
\<close>

section \<open>Selections\<close>

definition selections_found :: "cluster \<Rightarrow> string \<Rightarrow> string list \<Rightarrow> bool" where
  "selections_found c ns names \<longleftrightarrow>
     distinct names \<and> list_all (\<lambda>n. k_Rules c (nsn ns n) \<noteq> None) names"

lemma selections_found_problem:
  "selections_found c (om_Namespace (tp_Meta tp)) (selected_names tp) \<longleftrightarrow>
     rules_problem c (tp_ns tp) (selected_names tp) {} = None"
  by (simp add: rules_problem_None selections_found_def list_all_iff tp_ns_def)

text \<open>
  Collecting the rules of a TailoredProfile succeeds exactly when no name is selected
  twice and every selected rule exists, and then gives the stored rules; any other outcome is
  an error that is not worth a retry. Nothing is written.
\<close>

theorem getRules_outcome:
  assumes "api_server (rtp_client r) view admits" and "c = view (w_cluster s)"
    and "run = run_state (getRulesFromSelections r tp) s"
  shows "w_writes (snd run) = w_writes s \<and> view (w_cluster (snd run)) = c
    \<and> (if selections_found c (om_Namespace (tp_Meta tp)) (selected_names tp)
       then fst run = Inr (expected_rules c tp) else \<exists>e. fst run = Inl (e, False))"
proof -
  have "tailored_profile_available r view admits" using assms(1) by (simp add: tailored_profile_available_def)
  note tailored_profile_available.yields_getRules_decided [OF this, of tp "view (w_cluster s)"]
  from yieldsD [OF this] show ?thesis
    by (auto simp: assms(2,3) selections_found_problem split: option.splits)
qed

theorem getRules_outcome_witness:
  "fst (run_state (getRulesFromSelections ex_reconciler ex_request) ex_world) =
     Inr (expected_rules ex_cluster ex_request)"
proof -
  have "selections_found ex_cluster (om_Namespace (tp_Meta ex_request)) (selected_names ex_request)"
    by (simp add: selections_found_def selected_names_def ex_cluster_def ex_request_def ex_meta_def
        zero_meta_def)
  with getRules_outcome [of ex_reconciler ms_cluster "\<lambda>_. True" ex_cluster ex_world _ ex_request]
    mem.api_server_axioms
  show ?thesis by (simp add: ex_world_def ex_reconciler_def mem_reconciler_def)
qed

section \<open>An output that exists\<close>

text \<open>
  C34: let a TailoredProfile with output type ConfigMap be owned by its profile and have no problem
  (its profile and bundle exist, its rules exist and are selected once, its variables admit their
  values). Once its ConfigMap exists, whatever it holds and whatever the status says, a
  reconciliation against a server that keeps its contract succeeds without writing anything: later
  changes of the spec do not reach the ConfigMap, and an error in the status stays there.
\<close>

theorem existing_output_is_final:
  assumes "api_server (rtp_client r) view admits"
    and "well_posed (rtp_scheme r) (view (w_cluster s)) tp p pb"
    and "tps_OutputType (tp_Spec tp) = ConfigMapOutput" and "isOwnedBy (tp_Meta tp) (pr_Meta p)"
    and "k_ConfigMaps (view (w_cluster s)) (output_key tp) \<noteq> None"
    and "run = run_state (Reconcile r (key_of (tp_Meta tp))) s"
  shows "fst run = Inr (Result0, None) \<and> w_writes (snd run) = w_writes s
    \<and> view (w_cluster (snd run)) = view (w_cluster s)"
proof -
  have "tailored_profile_server r view admits (\<lambda>_. False)" "same_request tp tp"
    using assms(1) by (simp_all add: tailored_profile_server_def api_server_def same_request_def)
  from yieldsD [OF tailored_profile_server.yields_step_settled [OF this assms(2-5)]]
  show ?thesis by (auto simp: assms(6))
qed

text \<open>The witness has an empty ConfigMap and an error in the status.\<close>

definition ex_stale_request :: tailored_profile where
  "ex_stale_request = ex_request
     \<lparr>tp_Meta := (ex_meta ''mine'')\<lparr>om_OwnerReferences :=
        [\<lparr>or_APIVersion = ''compliance.openshift.io/v1alpha1'', or_Kind = ''Profile'',
          or_Name = ''rhcos-moderate'', or_UID = ''uid-rhcos-moderate'', or_Controller = None,
          or_BlockOwnerDeletion = None\<rparr>]\<rparr>,
      tp_Spec := (tp_Spec ex_request)\<lparr>tps_OutputType := ''ConfigMap''\<rparr>,
      tp_Status := (tp_Status ex_request)\<lparr>tpst_State := ''ERROR''\<rparr>\<rparr>"

definition ex_stale_cluster :: cluster where
  "ex_stale_cluster = ex_cluster
     \<lparr>k_TailoredProfiles := [nsn ''ns'' ''mine'' \<mapsto> ex_stale_request],
      k_ConfigMaps := [nsn ''ns'' ''mine-tp'' \<mapsto>
        \<lparr>cm_TypeMeta = ex_type, cm_Meta = ex_meta ''mine-tp'', cm_Data = Map.empty\<rparr>]\<rparr>"

definition ex_stale_world :: "mem_server world" where
  "ex_stale_world = \<lparr>w_cluster = \<lparr>ms_cluster = ex_stale_cluster, ms_next = 0\<rparr>, w_writes = []\<rparr>"

theorem existing_output_is_final_witness:
  "w_writes (snd (run_state (Reconcile ex_reconciler (key_of (tp_Meta ex_stale_request))) ex_stale_world)) = []
   \<and> tpst_State (tp_Status ex_stale_request) = ''ERROR''"
proof -
  have "well_posed ex_scheme ex_stale_cluster ex_stale_request ex_profile ex_bundle"
    by (simp add: well_posed_def registered_def extends_profile_def selections_exist_def
        ex_scheme_def AddKnownTypes_def GVKForObject_def ObjectKinds_def ex_cluster_def
        ex_stale_cluster_def ex_stale_request_def
        ex_request_def ex_profile_def ex_bundle_def ex_meta_def zero_meta_def tp_ns_def
        getProfileBundleReferenceFromProfile_def gv_String_scheme selected_names_def key_of_def
        variable_admits_def type_admits_def ex_variable_def ConfigMapOutput_def)
  moreover have "isOwnedBy (tp_Meta ex_stale_request) (pr_Meta ex_profile)"
    by (simp add: isOwnedBy_def ex_stale_request_def ex_profile_def ex_meta_def zero_meta_def)
  moreover have "k_ConfigMaps ex_stale_cluster (output_key ex_stale_request) \<noteq> None"
    by (simp add: ex_stale_cluster_def ex_stale_request_def output_key_def tp_ns_def ex_meta_def zero_meta_def)
  moreover have "tps_OutputType (tp_Spec ex_stale_request) = ConfigMapOutput"
    by (simp add: ex_stale_request_def ConfigMapOutput_def)
  ultimately show ?thesis
    using existing_output_is_final [of ex_reconciler ms_cluster "\<lambda>_. True" ex_stale_world
        ex_stale_request ex_profile ex_bundle] mem.api_server_axioms
    by (simp add: ex_stale_world_def ex_reconciler_def mem_reconciler_def) (simp add: ex_stale_request_def)
qed

section \<open>The status of a Policy output\<close>

lemma effects_policy:
  "effects (ensurePolicyOutputObject r tp cm pb) (\<lambda>out ws. \<forall>w \<in> set ws.
     wr_Verb w = StatusUpdate_verb \<longrightarrow>
       (\<exists>tp'. wr_Object w = TailoredProfileObj tp'
          \<and> (tpst_State (tp_Status tp') = TailoredProfileStateError
             \<or> tpst_OutputRef (tp_Status tp')
                 = \<lparr>oref_Name = om_Name (cm_Meta cm), oref_Namespace = []\<rparr>)))"
  unfolding ensurePolicyOutputObject_def Let_def updateTailoredProfileStatusError_def
    updateTailoredProfileStatusReady_def
  by (auto intro!: effects_intro)

text \<open>
  When the output is a Policy, the status that announces the TailoredProfile as ready
  refers to the name of the ConfigMap inside the Policy, without a namespace, and never to the
  Policy.
\<close>

theorem policy_status_reference:
  assumes "w_writes (snd (run_state (ensurePolicyOutputObject r tp cm pb) s)) = w_writes s @ ws"
    and "wr StatusUpdate_verb (TailoredProfileObj tp') e \<in> set ws"
    and "tpst_State (tp_Status tp') = TailoredProfileStateReady"
  shows "tpst_OutputRef (tp_Status tp') = \<lparr>oref_Name = om_Name (cm_Meta cm), oref_Namespace = []\<rparr>"
  using effectsD [OF effects_policy, of r tp cm pb s] assms
  by (auto simp: TailoredProfileStateReady_def TailoredProfileStateError_def)

theorem policy_status_reference_witness:
  "\<exists>tp' e. wr StatusUpdate_verb (TailoredProfileObj tp') e
       \<in> set (w_writes (snd (run_state (ensurePolicyOutputObject ex_reconciler ex_request
           (newTailoredProfileCM ex_request) ex_bundle) ex_world)))
     \<and> tpst_State (tp_Status tp') = ''READY''
     \<and> tpst_OutputRef (tp_Status tp') = \<lparr>oref_Name = ''mine-tp'', oref_Namespace = []\<rparr>"
proof -
  let ?run = "run_state (ensurePolicyOutputObject ex_reconciler ex_request
      (newTailoredProfileCM ex_request) ex_bundle) ex_world"
  let ?ready = "ready_status ex_request (cm_Meta ((newTailoredProfileCM ex_request)
      \<lparr>cm_Meta := (cm_Meta (newTailoredProfileCM ex_request))\<lparr>om_Namespace := []\<rparr>\<rparr>))"
  have notfound: "IsNotFound not_found" by (simp add: IsNotFound_def not_found_def ReasonForError_def)
  have "\<exists>e. wr StatusUpdate_verb (TailoredProfileObj ?ready) e \<in> set (w_writes (snd ?run))"
    by (auto simp: ensurePolicyOutputObject_def ex_reconciler_def mem_reconciler_def Let_def go_run mem_client_def
        mem_get_def ex_world_def ex_cluster_def notfound updateTailoredProfileStatusReady_def
        StatusUpdate_def Create_def ready_status_def split: option.split)
  then obtain e where e: "wr StatusUpdate_verb (TailoredProfileObj ?ready) e \<in> set (w_writes (snd ?run))" ..
  have "w_writes (snd ?run) = w_writes ex_world @ w_writes (snd ?run)" by (simp add: ex_world_def)
  from policy_status_reference [OF this e] e show ?thesis
    by (auto simp: ready_status_def TailoredProfileStateReady_def newTailoredProfileCM_def ex_request_def
        ex_meta_def)
qed

end
