(* ===== verification/Go_Heap.thy ===== *)
theory Go_Heap
  imports Kube_Client
begin

text \<open>
  Go's memory where aliasing matters, for the generated copy functions: slices, maps and
  pointers refer to cells of a heap, structs hold such references. The shapes of the
  generated code (a pointer, a slice copied at once, a slice copied element by element) are
  combinators, with one contract for all of them.
\<close>

section \<open>Structs in memory\<close>

type_synonym addr = nat

text \<open>
  Fields of a reference type hold an address, or nothing for nil. A slice is the array it
  refers to: no slice of these objects starts in the middle of an array.
\<close>

record owner_reference_mem =
  orm_APIVersion :: string
  orm_Kind :: string
  orm_Name :: string
  orm_UID :: string
  orm_Controller :: "addr option"
  orm_BlockOwnerDeletion :: "addr option"

record object_meta_mem =
  omm_Name :: string
  omm_Namespace :: string
  omm_UID :: string
  omm_Labels :: "addr option"
  omm_Annotations :: "addr option"
  omm_OwnerReferences :: "addr option"

record list_meta_mem =
  lmm_ResourceVersion :: string
  lmm_Continue :: string
  lmm_RemainingItemCount :: "addr option"

text \<open>
  An \<open>interface{}\<close> that holds JSON: the dynamic type and the value, which is a reference for an
  array (\<open>[]interface{}\<close>) and for an object (\<open>map[string]interface{}\<close>).
\<close>

datatype json_mem =
    JM_Nil
  | JM_String string
  | JM_Bool bool
  | JM_Int64 "64 word"
  | JM_Float64 "64 word"
  | JM_Number string
  | JM_Array "addr option"
  | JM_Map "addr option"

record unstructured_mem =
  um_Object :: "addr option"

record fix_definition_mem =
  fdm_Platform :: string
  fdm_Disruption :: string
  fdm_FixObject :: "addr option"

record profile_mem =
  prm_TypeMeta :: type_meta
  prm_Meta :: object_meta_mem
  prm_Title :: string
  prm_Description :: string
  prm_ID :: string
  prm_Rules :: "addr option"
  prm_Values :: "addr option"

record profile_bundle_mem =
  pbm_TypeMeta :: type_meta
  pbm_Meta :: object_meta_mem
  pbm_Spec :: profile_bundle_spec
  pbm_Status :: profile_bundle_status

record rule_mem =
  rum_TypeMeta :: type_meta
  rum_Meta :: object_meta_mem
  rum_ID :: string
  rum_Title :: string
  rum_Description :: string
  rum_Rationale :: string
  rum_Warning :: string
  rum_Severity :: string
  rum_AvailableFixes :: "addr option"

record variable_mem =
  vam_TypeMeta :: type_meta
  vam_Meta :: object_meta_mem
  vam_ID :: string
  vam_Title :: string
  vam_Description :: string
  vam_Type :: string
  vam_Value :: string
  vam_Selections :: "addr option"

record tailored_profile_spec_mem =
  tpsm_Extends :: string
  tpsm_Title :: string
  tpsm_Description :: string
  tpsm_OutputType :: string
  tpsm_EnableRules :: "addr option"
  tpsm_DisableRules :: "addr option"
  tpsm_SetValues :: "addr option"

record tailored_profile_mem =
  tpm_TypeMeta :: type_meta
  tpm_Meta :: object_meta_mem
  tpm_Spec :: tailored_profile_spec_mem
  tpm_Status :: tailored_profile_status

text \<open>The five list types differ in the type of their items only.\<close>

record object_list_mem =
  olm_TypeMeta :: type_meta
  olm_Meta :: list_meta_mem
  olm_Items :: "addr option"

type_synonym profile_list_mem = object_list_mem
type_synonym profile_bundle_list_mem = object_list_mem
type_synonym rule_list_mem = object_list_mem
type_synonym tailored_profile_list_mem = object_list_mem
type_synonym variable_list_mem = object_list_mem

section \<open>The heap\<close>

text \<open>
  A cell is an array of one type; a pointer refers to an array of length one, and a map is
  the one value of its cell, or for JSON the array of its entries, in some order. \<open>make\<close> and \<open>new\<close> give an array of zero values.
\<close>

datatype cell =
    Zeroed nat
  | Bools (bools_of: "bool list")
  | Int64s (int64s_of: "64 word list")
  | Strings (strings_of: "string list")
  | StringMaps (maps_of: "(string \<rightharpoonup> string) list")
  | Owners (owners_of: "owner_reference_mem list")
  | RuleRefs (rule_refs_of: "rule_reference_spec list")
  | VariableValues (variable_values_of: "variable_value_spec list")
  | ValueSelections (selections_of: "value_selection list")
  | JsonArray (json_array_of: "json_mem list")
  | JsonMap (json_map_of: "(string \<times> json_mem) list")
  | Unstructureds (unstructureds_of: "unstructured_mem list")
  | Fixes (fixes_of: "fix_definition_mem list")
  | OutputRefs (output_refs_of: "output_ref list")
  | BundleSpecs (bundle_specs_of: "profile_bundle_spec list")
  | BundleStatuses (bundle_statuses_of: "profile_bundle_status list")
  | TailoredSpecs (tailored_specs_of: "tailored_profile_spec_mem list")
  | TailoredStatuses (tailored_statuses_of: "tailored_profile_status list")
  | Profiles (profiles_of: "profile_mem list")
  | Bundles (bundles_of: "profile_bundle_mem list")
  | Rules (rules_of: "rule_mem list")
  | Variables (variables_of: "variable_mem list")
  | Tailoreds (tailoreds_of: "tailored_profile_mem list")
  | ProfileLists (profile_lists_of: "object_list_mem list")
  | BundleLists (bundle_lists_of: "object_list_mem list")
  | RuleLists (rule_lists_of: "object_list_mem list")
  | VariableLists (variable_lists_of: "object_list_mem list")
  | TailoredLists (tailored_lists_of: "object_list_mem list")

text \<open>The addresses below \<open>hp_next\<close> are in use.\<close>

record go_heap =
  hp_next :: addr
  hp_cell :: "addr \<Rightarrow> cell"

definition alloc :: "nat \<Rightarrow> (go_heap, addr) state" where
  "alloc n = State (\<lambda>h. (hp_next h,
     \<lparr>hp_next = Suc (hp_next h), hp_cell = (hp_cell h)(hp_next h := Zeroed n)\<rparr>))"

definition load :: "addr \<Rightarrow> (go_heap, cell) state" where
  "load a = State (\<lambda>h. (hp_cell h a, h))"

definition store :: "addr \<Rightarrow> cell \<Rightarrow> (go_heap, unit) state" where
  "store a c = State (\<lambda>h. ((), h\<lparr>hp_cell := (hp_cell h)(a := c)\<rparr>))"

section \<open>The shapes of the generated code\<close>

text \<open>\<open>for i := range *in { (*in)[i].DeepCopyInto(&(*out)[i]) }\<close>\<close>

fun copy_each :: "('m \<Rightarrow> (go_heap, 'm) state) \<Rightarrow> 'm list \<Rightarrow> (go_heap, 'm list) state" where
  "copy_each into [] = ret []"
| "copy_each into (x # xs) = do {
     y \<leftarrow> into x;
     ys \<leftarrow> copy_each into xs;
     ret (y # ys)
   }"

text \<open>
  A slice: nil stays nil, any other is a new array of the same length. \<open>copy(*out, *in)\<close> is
  the case where an element is copied by assignment (\<open>into = ret\<close>).
\<close>

definition deep_slice ::
  "('m list \<Rightarrow> cell) \<Rightarrow> (cell \<Rightarrow> 'm list) \<Rightarrow> ('m \<Rightarrow> (go_heap, 'm) state) \<Rightarrow> addr option
   \<Rightarrow> (go_heap, addr option) state" where
  "deep_slice mk elems into inp =
     (case inp of
        None \<Rightarrow> ret None
      | Some a \<Rightarrow> do {
          c \<leftarrow> load a;
          out \<leftarrow> alloc (length (elems c));
          ys \<leftarrow> copy_each into (elems c);
          store out (mk ys);
          ret (Some out)
        })"

text \<open>A pointer: nil stays nil, any other becomes a new struct that \<open>DeepCopyInto\<close> fills.\<close>

definition deep_pointer ::
  "('m list \<Rightarrow> cell) \<Rightarrow> (cell \<Rightarrow> 'm list) \<Rightarrow> ('m \<Rightarrow> (go_heap, 'm) state) \<Rightarrow> addr option
   \<Rightarrow> (go_heap, addr option) state" where
  "deep_pointer mk elems into inp =
     (case inp of
        None \<Rightarrow> ret None
      | Some a \<Rightarrow> do {
          out \<leftarrow> alloc 1;
          c \<leftarrow> load a;
          y \<leftarrow> into (hd (elems c));
          store out (mk [y]);
          ret (Some out)
        })"

section \<open>What a deep copy promises\<close>

text \<open>The new heap differs from the old one in new cells only; these are \<open>fresh\<close>.\<close>

definition extends :: "go_heap \<Rightarrow> go_heap \<Rightarrow> bool" where
  "extends h h' \<longleftrightarrow> hp_next h \<le> hp_next h' \<and> (\<forall>a < hp_next h. hp_cell h' a = hp_cell h a)"

definition fresh :: "go_heap \<Rightarrow> go_heap \<Rightarrow> addr set" where
  "fresh h h' = {hp_next h..<hp_next h'}"

definition in_use :: "go_heap \<Rightarrow> addr set" where
  "in_use h = {..<hp_next h}"

definition builds ::
  "go_heap \<Rightarrow> (go_heap, 'a) state \<Rightarrow> ('a \<Rightarrow> go_heap \<Rightarrow> bool) \<Rightarrow> bool" where
  "builds h prog Q \<longleftrightarrow> (case run_state prog h of (x, h') \<Rightarrow> extends h h' \<and> Q x h')"

lemma extends_refl [simp]: "extends h h"
  by (simp add: extends_def)

lemma extends_trans: "extends h h1 \<Longrightarrow> extends h1 h2 \<Longrightarrow> extends h h2"
  by (auto simp: extends_def)

lemma extends_cell: "extends h h' \<Longrightarrow> R \<subseteq> in_use h \<Longrightarrow> a \<in> R \<Longrightarrow> hp_cell h' a = hp_cell h a"
  by (auto simp: extends_def in_use_def)

lemma fresh_in_use: "fresh h h' \<subseteq> in_use h'"
  by (auto simp: fresh_def in_use_def)

lemma fresh_disjoint: "R \<subseteq> in_use h \<Longrightarrow> fresh h h' \<inter> R = {}"
  by (auto simp: fresh_def in_use_def)

lemma fresh_mono: "extends h0 h \<Longrightarrow> extends h h' \<Longrightarrow> fresh h h' \<subseteq> fresh h0 h' \<and> fresh h0 h \<subseteq> fresh h0 h'"
  by (auto simp: fresh_def extends_def)

lemma in_use_mono: "extends h h' \<Longrightarrow> R \<subseteq> in_use h \<Longrightarrow> R \<subseteq> in_use h'"
  by (auto simp: in_use_def extends_def)

lemma builds_ret: "Q x h \<Longrightarrow> builds h (ret x) Q"
  by (simp add: builds_def)

lemma builds_bind: "builds h p (\<lambda>x h1. builds h1 (f x) Q) \<Longrightarrow> builds h (State_Monad.bind p f) Q"
  by (auto simp: builds_def intro: extends_trans split: prod.splits)

lemma builds_mono: "builds h p P \<Longrightarrow> (\<And>x h'. extends h h' \<Longrightarrow> P x h' \<Longrightarrow> Q x h') \<Longrightarrow> builds h p Q"
  by (auto simp: builds_def split: prod.splits)

lemma buildsD: "builds h p Q \<Longrightarrow> run_state p h = (x, h') \<Longrightarrow> extends h h' \<and> Q x h'"
  by (simp add: builds_def)

text \<open>
  \<open>rep h R m v\<close>: in the heap \<open>h\<close> the struct \<open>m\<close> holds the value \<open>v\<close>, and everything it
  refers to lies in \<open>R\<close>. Copying gives the same value in new cells.
\<close>

locale deep_copy =
  fixes into :: "'m \<Rightarrow> (go_heap, 'm) state"
    and rep :: "go_heap \<Rightarrow> addr set \<Rightarrow> 'm \<Rightarrow> 'v \<Rightarrow> bool"
  assumes frame: "rep h R m v \<Longrightarrow> (\<And>a. a \<in> R \<Longrightarrow> hp_cell h' a = hp_cell h a) \<Longrightarrow> R \<subseteq> S \<Longrightarrow> rep h' S m v"
    and copies: "rep h R m v \<Longrightarrow> R \<subseteq> in_use h \<Longrightarrow> builds h (into m) (\<lambda>m' h'. rep h' (fresh h h') m' v)"
begin

lemma keeps: "rep h R m v \<Longrightarrow> R \<subseteq> in_use h \<Longrightarrow> extends h h' \<Longrightarrow> rep h' R m v"
  using frame extends_cell by blast

text \<open>One field of a struct: the copy stays valid while the other fields are copied.\<close>

lemma field:
  assumes "rep h0 R m v" and "R \<subseteq> in_use h0" and "extends h0 h"
    and "\<And>m' h'. extends h h' \<Longrightarrow> extends h0 h' \<Longrightarrow> (\<And>h''. extends h' h'' \<Longrightarrow> rep h'' (fresh h0 h'') m' v)
      \<Longrightarrow> builds h' (f m') Q"
  shows "builds h (State_Monad.bind (into m) f) Q"
proof (rule builds_bind, rule builds_mono [OF copies])
  show "rep h R m v" "R \<subseteq> in_use h"
    using assms(1-3) keeps in_use_mono by blast+
next
  fix m' h'
  assume ext: "extends h h'" and rep: "rep h' (fresh h h') m' v"
  have "rep h'' (fresh h0 h'') m' v" if "extends h' h''" for h''
  proof (rule frame [OF rep])
    show "hp_cell h'' a = hp_cell h' a" if "a \<in> fresh h h'" for a
      using \<open>extends h' h''\<close> that fresh_in_use extends_cell by blast
    show "fresh h h' \<subseteq> fresh h0 h''"
      using fresh_mono [OF assms(3) ext] fresh_mono [OF extends_trans [OF assms(3) ext] that] by blast
  qed
  with ext assms(3,4) show "builds h' (f m') Q" using extends_trans by blast
qed

lemma each:
  assumes "list_all2 (rep h0 R) ms vs" and "R \<subseteq> in_use h0" and "extends h0 h"
  shows "builds h (copy_each into ms) (\<lambda>ms' h'. list_all2 (rep h' (fresh h0 h')) ms' vs)"
  using assms
proof (induction ms arbitrary: vs h)
  case Nil
  then show ?case by (simp add: builds_ret)
next
  case (Cons m ms)
  then obtain v vs' where vs: "vs = v # vs'" "rep h0 R m v" "list_all2 (rep h0 R) ms vs'"
    by (auto simp: list_all2_Cons1)
  have "builds h (State_Monad.bind (into m) (\<lambda>y. State_Monad.bind (copy_each into ms) (\<lambda>ys. ret (y # ys))))
      (\<lambda>ms' h'. list_all2 (rep h' (fresh h0 h')) ms' vs)"
  proof (rule field [OF vs(2) Cons.prems(2,3)])
    fix m' h'
    assume "extends h0 h'" and m': "\<And>h''. extends h' h'' \<Longrightarrow> rep h'' (fresh h0 h'') m' v"
    from Cons.IH [OF vs(3) Cons.prems(2) this(1)]
    show "builds h' (State_Monad.bind (copy_each into ms) (\<lambda>ys. ret (m' # ys)))
        (\<lambda>ms' h'. list_all2 (rep h' (fresh h0 h')) ms' vs)"
      by (rule builds_bind [OF builds_mono]) (simp add: vs(1) builds_ret m')
  qed
  then show ?case by simp
qed

end

text \<open>A struct without references is copied by assignment.\<close>

definition rep_plain :: "go_heap \<Rightarrow> addr set \<Rightarrow> 'm \<Rightarrow> 'm \<Rightarrow> bool" where
  "rep_plain h R m v \<longleftrightarrow> m = v"

definition rep_slice ::
  "('m list \<Rightarrow> cell) \<Rightarrow> (go_heap \<Rightarrow> addr set \<Rightarrow> 'm \<Rightarrow> 'v \<Rightarrow> bool)
   \<Rightarrow> go_heap \<Rightarrow> addr set \<Rightarrow> addr option \<Rightarrow> 'v list \<Rightarrow> bool" where
  "rep_slice mk rep h R s vs \<longleftrightarrow>
     (case s of
        None \<Rightarrow> vs = []
      | Some a \<Rightarrow> a \<in> R \<and> (\<exists>ms. hp_cell h a = mk ms \<and> list_all2 (rep h R) ms vs))"

definition rep_pointer ::
  "('m list \<Rightarrow> cell) \<Rightarrow> (go_heap \<Rightarrow> addr set \<Rightarrow> 'm \<Rightarrow> 'v \<Rightarrow> bool)
   \<Rightarrow> go_heap \<Rightarrow> addr set \<Rightarrow> addr option \<Rightarrow> 'v option \<Rightarrow> bool" where
  "rep_pointer mk rep h R p v \<longleftrightarrow>
     (case p of
        None \<Rightarrow> v = None
      | Some a \<Rightarrow> a \<in> R \<and> (\<exists>m w. hp_cell h a = mk [m] \<and> v = Some w \<and> rep h R m w))"

text \<open>The heap after an allocation, and after the store that fills the new cell.\<close>

definition allocated :: "nat \<Rightarrow> go_heap \<Rightarrow> go_heap" where
  "allocated n h = \<lparr>hp_next = Suc (hp_next h), hp_cell = (hp_cell h)(hp_next h := Zeroed n)\<rparr>"

definition filled :: "addr \<Rightarrow> cell \<Rightarrow> go_heap \<Rightarrow> go_heap" where
  "filled a c h = h\<lparr>hp_cell := (hp_cell h)(a := c)\<rparr>"

lemma run_heap [go_run]:
  "run_state (alloc n) h = (hp_next h, allocated n h)"
  "run_state (load a) h = (hp_cell h a, h)"
  "run_state (store a c) h = ((), filled a c h)"
  by (simp_all add: alloc_def load_def store_def allocated_def filled_def)

lemma extends_allocated: "extends h (allocated n h)"
  by (simp add: extends_def allocated_def)

lemma filled_cell [simp]: "hp_cell (filled a c h) = (hp_cell h)(a := c)" "hp_next (filled a c h) = hp_next h"
  by (simp_all add: filled_def)

text \<open>What is built after the allocation does not touch the new cell.\<close>

lemma extends_filled:
  assumes "extends (allocated n h) h2"
  shows "extends h (filled (hp_next h) c h2) \<and> hp_next h \<in> fresh h h2
    \<and> fresh (allocated n h) h2 \<subseteq> fresh h h2 - {hp_next h}"
  using assms by (auto simp: extends_def allocated_def fresh_def)

locale deep_copy_array = deep_copy into rep
  for into :: "'m \<Rightarrow> (go_heap, 'm) state" and rep :: "go_heap \<Rightarrow> addr set \<Rightarrow> 'm \<Rightarrow> 'v \<Rightarrow> bool" +
  fixes mk :: "'m list \<Rightarrow> cell" and elems :: "cell \<Rightarrow> 'm list"
  assumes elems_mk [simp]: "elems (mk ms) = ms"
begin

lemma filled_frame:
  assumes "extends (allocated n h) h2" and "rep h2 (fresh (allocated n h) h2) m v"
  shows "rep (filled (hp_next h) c h2) (fresh h (filled (hp_next h) c h2) - {hp_next h}) m v"
proof (rule frame [OF assms(2)])
  show "hp_cell (filled (hp_next h) c h2) a = hp_cell h2 a" if "a \<in> fresh (allocated n h) h2" for a
    using that extends_filled [OF assms(1)] by auto
  show "fresh (allocated n h) h2 \<subseteq> fresh h (filled (hp_next h) c h2) - {hp_next h}"
    by (auto simp: fresh_def allocated_def)
qed

lemma filled_weaken: "rep h' (fresh h h' - A) m v \<Longrightarrow> rep h' (fresh h h') m v"
  by (rule frame) auto

lemma slice_copies:
  assumes "rep_slice mk rep h R s vs" and "R \<subseteq> in_use h"
  shows "builds h (deep_slice mk elems into s) (\<lambda>s' h'. rep_slice mk rep h' (fresh h h') s' vs)"
proof (cases s)
  case None
  with assms(1) show ?thesis by (simp add: deep_slice_def rep_slice_def builds_ret)
next
  case (Some a)
  with assms(1) obtain ms where a: "a \<in> R" "hp_cell h a = mk ms" "list_all2 (rep h R) ms vs"
    by (auto simp: rep_slice_def)
  let ?h1 = "allocated (length ms) h"
  obtain ms' h2 where run: "run_state (copy_each into ms) ?h1 = (ms', h2)" by fastforce
  have "list_all2 (rep ?h1 R) ms vs"
    using a(3) keeps [OF _ assms(2) extends_allocated] by (auto elim: list_all2_mono)
  from buildsD [OF each [OF this in_use_mono [OF extends_allocated assms(2)] extends_refl] run]
  have h2: "extends ?h1 h2" "list_all2 (rep h2 (fresh ?h1 h2)) ms' vs" by auto
  have "list_all2 (rep (filled (hp_next h) (mk ms') h2) (fresh h (filled (hp_next h) (mk ms') h2))) ms' vs"
    using h2(2) filled_weaken [OF filled_frame [OF h2(1)]] by (auto elim: list_all2_mono)
  then show ?thesis
    using Some a(2) run extends_filled [OF h2(1), of "mk ms'"]
    by (auto simp: deep_slice_def builds_def go_run rep_slice_def fresh_def)
qed

text \<open>The struct behind the new pointer does not refer back to itself.\<close>

lemma pointer_built:
  assumes "rep_pointer mk rep h R (Some a) (Some w)" and "R \<subseteq> in_use h"
  shows "builds h (deep_pointer mk elems into (Some a)) (\<lambda>q h'. q = Some (hp_next h)
    \<and> hp_next h \<in> fresh h h' \<and> (\<exists>m. hp_cell h' (hp_next h) = mk [m] \<and> rep h' (fresh h h' - {hp_next h}) m w))"
proof -
  from assms(1) obtain m where a: "a \<in> R" "hp_cell h a = mk [m]" "rep h R m w"
    by (auto simp: rep_pointer_def)
  let ?h1 = "allocated 1 h"
  obtain m' h2 where run: "run_state (into m) ?h1 = (m', h2)" by fastforce
  from buildsD [OF copies [OF keeps [OF a(3) assms(2) extends_allocated]
      in_use_mono [OF extends_allocated assms(2)]] run]
  have h2: "extends ?h1 h2" "rep h2 (fresh ?h1 h2) m' w" by auto
  moreover have "hp_cell ?h1 a = mk [m]"
    using extends_cell [OF extends_allocated assms(2) a(1), of 1] a(2) by simp
  ultimately show ?thesis
    using run extends_filled [OF h2(1), of "mk [m']"] filled_frame [OF h2, of "mk [m']"]
    by (auto simp: deep_pointer_def builds_def go_run fresh_def)
qed

lemma pointer_copies:
  assumes "rep_pointer mk rep h R p v" and "R \<subseteq> in_use h"
  shows "builds h (deep_pointer mk elems into p) (\<lambda>p' h'. rep_pointer mk rep h' (fresh h h') p' v)"
proof (cases p)
  case None
  with assms(1) show ?thesis by (simp add: deep_pointer_def rep_pointer_def builds_ret)
next
  case (Some a)
  with assms(1) obtain w where w: "v = Some w" "rep_pointer mk rep h R (Some a) (Some w)"
    by (auto simp: rep_pointer_def)
  obtain q h' where run: "run_state (deep_pointer mk elems into (Some a)) h = (q, h')" by fastforce
  from buildsD [OF pointer_built [OF w(2) assms(2)] run] show ?thesis
    using filled_weaken by (auto simp: Some w(1) run builds_def rep_pointer_def)
qed

text \<open>Assigning to the struct behind the new pointer.\<close>

lemma pointer_assign:
  assumes "rep_pointer mk rep h R (Some a) (Some v)" and "R \<subseteq> in_use h"
    and "\<And>h S m. rep h S m v \<Longrightarrow> rep h S (f m) w"
  shows "builds h (do {
      q \<leftarrow> deep_pointer mk elems into (Some a);
      case q of None \<Rightarrow> ret None | Some b \<Rightarrow> do {
        c \<leftarrow> load b;
        store b (mk [f (hd (elems c))]);
        ret (Some b)
      }
    }) (\<lambda>q h'. \<exists>b. q = Some b \<and> rep_pointer mk rep h' (fresh h h') (Some b) (Some w))"
proof -
  obtain q h1 where run: "run_state (deep_pointer mk elems into (Some a)) h = (q, h1)" by fastforce
  from buildsD [OF pointer_built [OF assms(1,2)] run] obtain m where q: "q = Some (hp_next h)"
    and h1: "extends h h1" "hp_next h \<in> fresh h h1" "hp_cell h1 (hp_next h) = mk [m]"
    and m: "rep h1 (fresh h h1 - {hp_next h}) m v" by blast
  let ?h2 = "filled (hp_next h) (mk [f m]) h1"
  have "rep ?h2 (fresh h ?h2) (f m) w"
    by (rule frame [OF assms(3) [OF m]]) (auto simp: fresh_def)
  then show ?thesis
    using run q h1 by (auto simp: builds_def go_run rep_pointer_def extends_def fresh_def)
qed

sublocale slice: deep_copy "deep_slice mk elems into" "rep_slice mk rep"
proof
  show "rep_slice mk rep h' S s vs"
    if "rep_slice mk rep h R s vs" "\<And>a. a \<in> R \<Longrightarrow> hp_cell h' a = hp_cell h a" "R \<subseteq> S" for h R s vs h' S
    using that frame [of h R _ _ h' S]
    by (fastforce simp: rep_slice_def split: option.splits elim: list_all2_mono)
qed (rule slice_copies)

sublocale pointer: deep_copy "deep_pointer mk elems into" "rep_pointer mk rep"
proof
  show "rep_pointer mk rep h' S p v"
    if "rep_pointer mk rep h R p v" "\<And>a. a \<in> R \<Longrightarrow> hp_cell h' a = hp_cell h a" "R \<subseteq> S" for h R p v h' S
    using that frame [of h R _ _ h' S] by (fastforce simp: rep_pointer_def split: option.splits)
qed (rule pointer_copies)

end

lemma plain_copy: "deep_copy ret rep_plain"
  by unfold_locales (simp_all add: rep_plain_def builds_ret)

end
