(* ===== verification/Deep_Copy_Json.thy ===== *)
theory Deep_Copy_Json
  imports Go_Heap
begin

text \<open>
  Copying free-form JSON in memory (\<open>DeepCopyJSON\<close> and \<open>DeepCopyJSONValue\<close> of
  \<open>k8s.io/apimachinery/pkg/runtime\<close>, \<open>Unstructured.DeepCopy\<close>): arrays and objects are cells that
  refer to further cells, to any depth. A value of finite depth is copied completely, into cells
  of its own.
\<close>

section \<open>The functions\<close>

text \<open>
  The recursion follows the references. It is given a bound on its depth that no value without
  a cycle exceeds; a cyclic value would overflow the stack.
\<close>

fun copy_json :: "nat \<Rightarrow> json_mem \<Rightarrow> (go_heap, json_mem) state" where
  "copy_json (Suc n) (JM_Map p) = do {
     clone \<leftarrow> deep_slice JsonMap json_map_of (\<lambda>(k, v). do { w \<leftarrow> copy_json n v; ret (k, w) }) p;
     ret (JM_Map clone)
   }"
| "copy_json (Suc n) (JM_Array p) = do {
     clone \<leftarrow> deep_slice JsonArray json_array_of (copy_json n) p;
     ret (JM_Array clone)
   }"
| "copy_json n x = ret x"

definition cells_in_use :: "(go_heap, nat) state" where
  "cells_in_use = State (\<lambda>h. (hp_next h, h))"

definition DeepCopyJSONValue :: "json_mem \<Rightarrow> (go_heap, json_mem) state" where
  "DeepCopyJSONValue x = do { n \<leftarrow> cells_in_use; copy_json (Suc n) x }"

fun asserted_map :: "json_mem \<Rightarrow> addr option" where
  "asserted_map (JM_Map p) = p"
| "asserted_map _ = None"

definition DeepCopyJSON :: "addr option \<Rightarrow> (go_heap, addr option) state" where
  "DeepCopyJSON x = do { y \<leftarrow> DeepCopyJSONValue (JM_Map x); ret (asserted_map y) }"

definition unstructured_copy :: "unstructured_mem \<Rightarrow> (go_heap, unstructured_mem) state" where
  "unstructured_copy m = do {
     obj \<leftarrow> DeepCopyJSON (um_Object m);
     ret (m\<lparr>um_Object := obj\<rparr>)
   }"

definition Unstructured_DeepCopy :: "addr option \<Rightarrow> (go_heap, addr option) state" where
  "Unstructured_DeepCopy inp = deep_pointer Unstructureds unstructureds_of unstructured_copy inp"

section \<open>JSON in memory\<close>

text \<open>\<open>rep_json n\<close>: the memory holds a value of depth at most \<open>n\<close>. A nil array or map reads like an empty one.\<close>

definition rep_entry ::
  "(go_heap \<Rightarrow> addr set \<Rightarrow> 'm \<Rightarrow> 'v \<Rightarrow> bool) \<Rightarrow> go_heap \<Rightarrow> addr set \<Rightarrow> string \<times> 'm \<Rightarrow> string \<times> 'v \<Rightarrow> bool" where
  "rep_entry rep h R e f \<longleftrightarrow> fst e = fst f \<and> rep h R (snd e) (snd f)"

primrec rep_json :: "nat \<Rightarrow> go_heap \<Rightarrow> addr set \<Rightarrow> json_mem \<Rightarrow> json \<Rightarrow> bool" where
  "rep_json 0 h R m v \<longleftrightarrow> False"
| "rep_json (Suc n) h R m v \<longleftrightarrow>
     (case m of
        JM_Nil \<Rightarrow> v = JNull
      | JM_String s \<Rightarrow> v = JString s
      | JM_Bool b \<Rightarrow> v = JBool b
      | JM_Int64 i \<Rightarrow> v = JInt64 i
      | JM_Float64 f \<Rightarrow> v = JFloat64 f
      | JM_Number s \<Rightarrow> v = JNumber s
      | JM_Array p \<Rightarrow> (\<exists>vs. v = JArray vs \<and> rep_slice JsonArray (rep_json n) h R p vs)
      | JM_Map p \<Rightarrow> (\<exists>es. v = JObject es \<and> rep_slice JsonMap (rep_entry (rep_json n)) h R p es))"

lemma entry_copy:
  assumes "deep_copy into rep"
  shows "deep_copy_array (\<lambda>(k, v). do { w \<leftarrow> into v; ret (k, w) }) (rep_entry rep) JsonMap json_map_of"
proof unfold_locales
  show "rep_entry rep h' S m v"
    if "rep_entry rep h R m v" "\<And>a. a \<in> R \<Longrightarrow> hp_cell h' a = hp_cell h a" "R \<subseteq> S" for h R m v h' S
    using that deep_copy.frame [OF assms _ that(2,3)] by (simp add: rep_entry_def)
  show "builds h (case m of (k, v) \<Rightarrow> do { w \<leftarrow> into v; ret (k, w) }) (\<lambda>m' h'. rep_entry rep h' (fresh h h') m' v)"
    if "rep_entry rep h R m v" "R \<subseteq> in_use h" for h R m v
    using that deep_copy.copies [OF assms, of h R "snd m" "snd v"]
    by (auto simp: rep_entry_def split_beta intro!: builds_bind builds_ret elim!: builds_mono)
qed simp

lemma slice_frame:
  assumes "deep_copy_array into rep mk elems" and "rep_slice mk rep h R s vs"
    and "\<And>a. a \<in> R \<Longrightarrow> hp_cell h' a = hp_cell h a" and "R \<subseteq> S"
  shows "rep_slice mk rep h' S s vs"
proof -
  have "deep_copy into rep" using assms(1) by (simp add: deep_copy_array_def)
  from deep_copy.frame [OF this _ assms(3,4)] assms(2-4) show ?thesis
    by (fastforce simp: rep_slice_def split: option.splits elim: list_all2_mono)
qed

lemma copy_json_copies: "deep_copy (copy_json n) (rep_json n)"
proof (induction n)
  case 0
  show ?case by unfold_locales simp_all
next
  case (Suc n)
  note entries = deep_copy_array.slice_copies [OF entry_copy [OF Suc]]
  have arr: "deep_copy_array (copy_json n) (rep_json n) JsonArray json_array_of"
    by (simp add: deep_copy_array_def deep_copy_array_axioms_def Suc)
  show ?case
  proof unfold_locales
    show "rep_json (Suc n) h' S m v"
      if "rep_json (Suc n) h R m v" "\<And>a. a \<in> R \<Longrightarrow> hp_cell h' a = hp_cell h a" "R \<subseteq> S" for h R m v h' S
      using that(1) slice_frame [OF arr _ that(2,3)] slice_frame [OF entry_copy [OF Suc] _ that(2,3)]
      by (cases m) auto
    show "builds h (copy_json (Suc n) m) (\<lambda>m' h'. rep_json (Suc n) h' (fresh h h') m' v)"
      if "rep_json (Suc n) h R m v" "R \<subseteq> in_use h" for h R m v
      using that(1)
      by (cases m)
        (auto intro!: builds_ret builds_bind builds_mono [OF entries [OF _ that(2)]]
          builds_mono [OF deep_copy_array.slice_copies [OF arr _ that(2)]])
  qed
qed

section \<open>The bound is enough\<close>

text \<open>
  The cells below each other in a value are pairwise different, because a cell holds one value
  only. So a value is at most one deeper than there are cells in use.
\<close>

fun json_depth :: "json \<Rightarrow> nat" where
  "json_depth (JArray vs) = Suc (Max (insert 0 (json_depth ` set vs)))"
| "json_depth (JObject es) = Suc (Max (insert 0 ((\<lambda>e. json_depth (snd e)) ` set es)))"
| "json_depth _ = 1"

lemma json_depth_pos: "0 < json_depth v"
  by (cases v) simp_all

lemma json_depth_le_Suc:
  "json_depth (JArray vs) \<le> Suc n \<longleftrightarrow> (\<forall>v \<in> set vs. json_depth v \<le> n)"
  "json_depth (JObject es) \<le> Suc n \<longleftrightarrow> (\<forall>e \<in> set es. json_depth (snd e) \<le> n)"
  by auto

lemma rep_slice_change:
  assumes "rep_slice mk rep h R s vs" and "\<And>m v. v \<in> set vs \<Longrightarrow> rep h R m v \<Longrightarrow> rep' h R m v"
  shows "rep_slice mk rep' h R s vs"
proof -
  have "list_all2 (rep' h R) ms vs" if "list_all2 (rep h R) ms vs" for ms
    using that assms(2) by (simp add: list_all2_conv_all_nth)
  then show ?thesis using assms(1) by (auto simp: rep_slice_def split: option.splits)
qed

lemma list_all2_determined:
  assumes "list_all2 P ms vs" and "list_all2 P ms ws" and "\<And>m v w. P m v \<Longrightarrow> P m w \<Longrightarrow> v = w"
  shows "vs = ws"
  using assms(1,2)
proof (induction ms arbitrary: vs ws)
  case (Cons m ms)
  then show ?case using assms(3) by (auto simp: list_all2_Cons1)
qed simp

lemma rep_slice_unique:
  assumes "rep_slice mk rep h R s vs" and "rep_slice mk rep h R s ws" and "\<And>xs ys. mk xs = mk ys \<Longrightarrow> xs = ys"
    and "\<And>m v w. rep h R m v \<Longrightarrow> rep h R m w \<Longrightarrow> v = w"
  shows "vs = ws"
  using assms(1-3) list_all2_determined [of "rep h R"] assms(4)
  by (cases s) (simp_all add: rep_slice_def, metis)

lemma rep_json_depth: "rep_json n h R m v \<Longrightarrow> json_depth v \<le> k \<Longrightarrow> rep_json k h R m v"
proof (induction n arbitrary: m v k)
  case (Suc n)
  obtain k' where k: "k = Suc k'"
    using Suc.prems(2) json_depth_pos [of v] by (cases k) auto
  show ?case
  proof (cases m)
    case (JM_Array p)
    with Suc.prems(1) obtain vs where v: "v = JArray vs" "rep_slice JsonArray (rep_json n) h R p vs" by auto
    have "\<forall>w \<in> set vs. json_depth w \<le> k'"
      using Suc.prems(2) by (simp only: v(1) k json_depth_le_Suc)
    then have "rep_slice JsonArray (rep_json k') h R p vs"
      by (intro rep_slice_change [OF v(2)]) (simp add: Suc.IH)
    then show ?thesis using JM_Array k v(1) by simp
  next
    case (JM_Map p)
    with Suc.prems(1) obtain es where v: "v = JObject es"
      "rep_slice JsonMap (rep_entry (rep_json n)) h R p es" by auto
    have "\<forall>e \<in> set es. json_depth (snd e) \<le> k'"
      using Suc.prems(2) by (simp only: v(1) k json_depth_le_Suc)
    then have "rep_slice JsonMap (rep_entry (rep_json k')) h R p es"
      by (intro rep_slice_change [OF v(2)]) (simp add: Suc.IH rep_entry_def)
    then show ?thesis using JM_Map k v(1) by simp
  qed (use Suc.prems(1) k in auto)
qed simp

lemma rep_json_unique: "rep_json n h R m v \<Longrightarrow> rep_json n h R m w \<Longrightarrow> v = w"
proof (induction n arbitrary: m v w)
  case (Suc n)
  have entries: "e = f" if "rep_entry (rep_json n) h R m e" "rep_entry (rep_json n) h R m f" for m e f
    using that Suc.IH by (auto simp: rep_entry_def prod_eq_iff)
  show ?case
  proof (cases m)
    case (JM_Array p)
    then show ?thesis using Suc.prems rep_slice_unique [OF _ _ _ Suc.IH, of JsonArray] by auto
  next
    case (JM_Map p)
    then show ?thesis using Suc.prems rep_slice_unique [OF _ _ _ entries, of JsonMap] by auto
  qed (use Suc.prems in auto)
qed simp

fun json_cell :: "json_mem \<Rightarrow> addr option" where
  "json_cell (JM_Array p) = p"
| "json_cell (JM_Map p) = p"
| "json_cell _ = None"

definition held_at :: "go_heap \<Rightarrow> addr set \<Rightarrow> nat \<Rightarrow> addr \<Rightarrow> bool" where
  "held_at h R k a \<longleftrightarrow> (\<exists>n m v. json_cell m = Some a \<and> rep_json n h R m v \<and> json_depth v = k)"

lemma held_at_unique: "held_at h R k a \<Longrightarrow> held_at h R l a \<Longrightarrow> k = l"
proof -
  assume "held_at h R k a" "held_at h R l a"
  then obtain n m v n' m' v' where *: "json_cell m = Some a" "rep_json n h R m v" "json_depth v = k"
    "json_cell m' = Some a" "rep_json n' h R m' v'" "json_depth v' = l" by (auto simp: held_at_def)
  have "m' = m"
    using * by (cases n; cases n'; cases m; cases m') (auto simp: rep_slice_def)
  moreover have "rep_json (max k l) h R m v" "rep_json (max k l) h R m' v'"
    using * rep_json_depth by auto
  ultimately show "k = l" using rep_json_unique * by blast
qed

lemma deepest:
  assumes "0 < Max (insert 0 (f ` set xs))"
  shows "\<exists>x \<in> set xs. f x = Max (insert 0 (f ` set xs))"
proof -
  have "Max (insert 0 (f ` set xs)) \<in> insert 0 (f ` set xs)" by (rule Max_in) auto
  with assms show ?thesis by auto
qed

lemma rep_slice_elem:
  "rep_slice mk rep h R s vs \<Longrightarrow> v \<in> set vs \<Longrightarrow> \<exists>a \<in> R. s = Some a \<and> (\<exists>m. rep h R m v)"
  by (auto simp: rep_slice_def in_set_conv_nth list_all2_conv_all_nth split: option.splits)

lemma json_chain: "rep_json n h R m v \<Longrightarrow> 1 < k \<Longrightarrow> k \<le> json_depth v \<Longrightarrow> \<exists>a \<in> R. held_at h R k a"
proof (induction n arbitrary: m v)
  case (Suc n)
  have child: "\<exists>a \<in> R. json_cell m = Some a \<and> (\<exists>m' w. rep_json n h R m' w \<and> json_depth v = Suc (json_depth w))"
  proof (cases m)
    case (JM_Array p)
    with Suc.prems(1) obtain vs where v: "v = JArray vs" "rep_slice JsonArray (rep_json n) h R p vs" by auto
    have "0 < Max (insert 0 (json_depth ` set vs))" using Suc.prems(2,3) by (simp add: v(1))
    from deepest [OF this] show ?thesis using rep_slice_elem [OF v(2)] JM_Array v(1) by fastforce
  next
    case (JM_Map p)
    with Suc.prems(1) obtain es where v: "v = JObject es"
      "rep_slice JsonMap (rep_entry (rep_json n)) h R p es" by auto
    have "0 < Max (insert 0 ((\<lambda>e. json_depth (snd e)) ` set es))" using Suc.prems(2,3) by (simp add: v(1))
    from deepest [OF this] show ?thesis
      using rep_slice_elem [OF v(2)] JM_Map v(1) by (fastforce simp: rep_entry_def)
  qed (use Suc.prems in auto)
  then obtain a m' w where a: "a \<in> R" "json_cell m = Some a"
    and w: "rep_json n h R m' w" "json_depth v = Suc (json_depth w)" by blast
  show ?case
  proof (cases "k = json_depth v")
    case True
    then show ?thesis using a Suc.prems(1) unfolding held_at_def by blast
  next
    case False
    then show ?thesis using Suc.IH [OF w(1) Suc.prems(2)] Suc.prems(3) w(2) by simp
  qed
qed simp

lemma json_depth_cells:
  assumes "rep_json n h R m v" and "R \<subseteq> in_use h"
  shows "json_depth v \<le> Suc (hp_next h)"
proof -
  obtain f where f: "\<forall>k \<in> {1<..json_depth v}. f k \<in> R \<and> held_at h R k (f k)"
    using json_chain [OF assms(1)] by (metis greaterThanAtMost_iff)
  have "inj_on f {1<..json_depth v}"
    using f held_at_unique by (metis inj_onI)
  moreover have "f ` {1<..json_depth v} \<subseteq> {..<hp_next h}"
    using f assms(2) by (auto simp: in_use_def)
  ultimately have "card {1<..json_depth v} \<le> card {..<hp_next h}"
    by (intro card_inj_on_le) auto
  then show ?thesis by simp
qed

section \<open>The copies\<close>

definition rep_unstructured :: "go_heap \<Rightarrow> addr set \<Rightarrow> unstructured_mem \<Rightarrow> json \<Rightarrow> bool" where
  "rep_unstructured h R m v \<longleftrightarrow> (\<exists>n. rep_json n h R (JM_Map (um_Object m)) v)"

lemma json_value_copies:
  assumes "rep_json n h R m v" and "R \<subseteq> in_use h"
  shows "builds h (DeepCopyJSONValue m) (\<lambda>m' h'. rep_json (Suc (hp_next h)) h' (fresh h h') m' v)"
proof -
  have "rep_json (Suc (hp_next h)) h R m v"
    by (rule rep_json_depth [OF assms(1) json_depth_cells [OF assms]])
  from deep_copy.copies [OF copy_json_copies this assms(2)] show ?thesis
    by (simp add: DeepCopyJSONValue_def builds_def cells_in_use_def go_run del: copy_json.simps rep_json.simps)
qed

interpretation unstructured: deep_copy_array unstructured_copy rep_unstructured Unstructureds unstructureds_of
proof
  show "rep_unstructured h' S m v"
    if "rep_unstructured h R m v" "\<And>a. a \<in> R \<Longrightarrow> hp_cell h' a = hp_cell h a" "R \<subseteq> S" for h R m v h' S
    using that(1) deep_copy.frame [OF copy_json_copies _ that(2,3)] by (auto simp: rep_unstructured_def)
  show "builds h (unstructured_copy m) (\<lambda>m' h'. rep_unstructured h' (fresh h h') m' v)"
    if R: "rep_unstructured h R m v" "R \<subseteq> in_use h" for h R m v
  proof -
    obtain n where n: "rep_json n h R (JM_Map (um_Object m)) v" using R(1) by (auto simp: rep_unstructured_def)
    obtain es where v: "v = JObject es" using n by (cases n) auto
    have copied: "rep_unstructured h' S (m\<lparr>um_Object := asserted_map y\<rparr>) v"
      if "rep_json (Suc k) h' S y v" for k h' S y
      using that by (cases y) (auto simp: rep_unstructured_def v intro!: exI [of _ "Suc k"])
    show ?thesis
      unfolding unstructured_copy_def DeepCopyJSON_def
      by (simp del: rep_json.simps, intro builds_bind builds_mono [OF json_value_copies [OF n R(2)]] builds_ret copied)
  qed
qed simp

end
