(* ===== verification/Deep_Copy.thy ===== *)
theory Deep_Copy
  imports Deep_Copy_Json
begin

text \<open>
  The generated copy functions of the API types
  (\<open>pkg/apis/compliance/v1alpha1/zz_generated.deepcopy.go\<close>), one definition per function:
  \<open>DeepCopyInto\<close> gives the new contents of \<open>*out\<close> from those of \<open>*in\<close>, \<open>DeepCopy\<close> works on
  pointers, \<open>DeepCopyObject\<close> gives an interface value with its dynamic type. The copies of
  object and list metadata belong to \<open>metav1\<close>; they cover the fields the model has.
\<close>

section \<open>Metadata\<close>

definition OwnerReference_DeepCopyInto ::
  "owner_reference_mem \<Rightarrow> (go_heap, owner_reference_mem) state" where
  "OwnerReference_DeepCopyInto m = do {
     controller \<leftarrow> deep_pointer Bools bools_of ret (orm_Controller m);
     block \<leftarrow> deep_pointer Bools bools_of ret (orm_BlockOwnerDeletion m);
     ret (m\<lparr>orm_Controller := controller, orm_BlockOwnerDeletion := block\<rparr>)
   }"

definition ObjectMeta_DeepCopyInto :: "object_meta_mem \<Rightarrow> (go_heap, object_meta_mem) state" where
  "ObjectMeta_DeepCopyInto m = do {
     labels \<leftarrow> deep_pointer StringMaps maps_of ret (omm_Labels m);
     annotations \<leftarrow> deep_pointer StringMaps maps_of ret (omm_Annotations m);
     owners \<leftarrow> deep_slice Owners owners_of OwnerReference_DeepCopyInto (omm_OwnerReferences m);
     ret (m\<lparr>omm_Labels := labels, omm_Annotations := annotations, omm_OwnerReferences := owners\<rparr>)
   }"

definition ListMeta_DeepCopyInto :: "list_meta_mem \<Rightarrow> (go_heap, list_meta_mem) state" where
  "ListMeta_DeepCopyInto m = do {
     remaining \<leftarrow> deep_pointer Int64s int64s_of ret (lmm_RemainingItemCount m);
     ret (m\<lparr>lmm_RemainingItemCount := remaining\<rparr>)
   }"

section \<open>Structs without references\<close>

definition OutputRef_DeepCopyInto :: "output_ref \<Rightarrow> (go_heap, output_ref) state" where
  "OutputRef_DeepCopyInto m = ret m"

definition OutputRef_DeepCopy :: "addr option \<Rightarrow> (go_heap, addr option) state" where
  "OutputRef_DeepCopy inp = deep_pointer OutputRefs output_refs_of OutputRef_DeepCopyInto inp"

definition ProfileBundleSpec_DeepCopyInto :: "profile_bundle_spec \<Rightarrow> (go_heap, profile_bundle_spec) state" where
  "ProfileBundleSpec_DeepCopyInto m = ret m"

definition ProfileBundleSpec_DeepCopy :: "addr option \<Rightarrow> (go_heap, addr option) state" where
  "ProfileBundleSpec_DeepCopy inp = deep_pointer BundleSpecs bundle_specs_of ProfileBundleSpec_DeepCopyInto inp"

definition ProfileBundleStatus_DeepCopyInto :: "profile_bundle_status \<Rightarrow> (go_heap, profile_bundle_status) state" where
  "ProfileBundleStatus_DeepCopyInto m = ret m"

definition ProfileBundleStatus_DeepCopy :: "addr option \<Rightarrow> (go_heap, addr option) state" where
  "ProfileBundleStatus_DeepCopy inp = deep_pointer BundleStatuses bundle_statuses_of ProfileBundleStatus_DeepCopyInto inp"

definition RuleReferenceSpec_DeepCopyInto :: "rule_reference_spec \<Rightarrow> (go_heap, rule_reference_spec) state" where
  "RuleReferenceSpec_DeepCopyInto m = ret m"

definition RuleReferenceSpec_DeepCopy :: "addr option \<Rightarrow> (go_heap, addr option) state" where
  "RuleReferenceSpec_DeepCopy inp = deep_pointer RuleRefs rule_refs_of RuleReferenceSpec_DeepCopyInto inp"

definition ValueSelection_DeepCopyInto :: "value_selection \<Rightarrow> (go_heap, value_selection) state" where
  "ValueSelection_DeepCopyInto m = ret m"

definition ValueSelection_DeepCopy :: "addr option \<Rightarrow> (go_heap, addr option) state" where
  "ValueSelection_DeepCopy inp = deep_pointer ValueSelections selections_of ValueSelection_DeepCopyInto inp"

definition VariableValueSpec_DeepCopyInto :: "variable_value_spec \<Rightarrow> (go_heap, variable_value_spec) state" where
  "VariableValueSpec_DeepCopyInto m = ret m"

definition VariableValueSpec_DeepCopy :: "addr option \<Rightarrow> (go_heap, addr option) state" where
  "VariableValueSpec_DeepCopy inp = deep_pointer VariableValues variable_values_of VariableValueSpec_DeepCopyInto inp"

definition TailoredProfileStatus_DeepCopyInto :: "tailored_profile_status \<Rightarrow> (go_heap, tailored_profile_status) state" where
  "TailoredProfileStatus_DeepCopyInto m = ret (m\<lparr>tpst_OutputRef := tpst_OutputRef m\<rparr>)"

definition TailoredProfileStatus_DeepCopy :: "addr option \<Rightarrow> (go_heap, addr option) state" where
  "TailoredProfileStatus_DeepCopy inp = deep_pointer TailoredStatuses tailored_statuses_of TailoredProfileStatus_DeepCopyInto inp"

section \<open>Structs with references\<close>

definition FixDefinition_DeepCopyInto :: "fix_definition_mem \<Rightarrow> (go_heap, fix_definition_mem) state" where
  "FixDefinition_DeepCopyInto m = do {
     obj \<leftarrow> Unstructured_DeepCopy (fdm_FixObject m);
     ret (m\<lparr>fdm_FixObject := obj\<rparr>)
   }"

definition FixDefinition_DeepCopy :: "addr option \<Rightarrow> (go_heap, addr option) state" where
  "FixDefinition_DeepCopy inp = deep_pointer Fixes fixes_of FixDefinition_DeepCopyInto inp"

definition Profile_DeepCopyInto :: "profile_mem \<Rightarrow> (go_heap, profile_mem) state" where
  "Profile_DeepCopyInto m = do {
     meta \<leftarrow> ObjectMeta_DeepCopyInto (prm_Meta m);
     rules \<leftarrow> deep_slice Strings strings_of ret (prm_Rules m);
     vals \<leftarrow> deep_slice Strings strings_of ret (prm_Values m);
     ret (m\<lparr>prm_TypeMeta := prm_TypeMeta m, prm_Meta := meta, prm_Rules := rules, prm_Values := vals\<rparr>)
   }"

definition Profile_DeepCopy :: "addr option \<Rightarrow> (go_heap, addr option) state" where
  "Profile_DeepCopy inp = deep_pointer Profiles profiles_of Profile_DeepCopyInto inp"

definition ProfileBundle_DeepCopyInto :: "profile_bundle_mem \<Rightarrow> (go_heap, profile_bundle_mem) state" where
  "ProfileBundle_DeepCopyInto m = do {
     meta \<leftarrow> ObjectMeta_DeepCopyInto (pbm_Meta m);
     ret (m\<lparr>pbm_TypeMeta := pbm_TypeMeta m, pbm_Meta := meta, pbm_Spec := pbm_Spec m,
             pbm_Status := pbm_Status m\<rparr>)
   }"

definition ProfileBundle_DeepCopy :: "addr option \<Rightarrow> (go_heap, addr option) state" where
  "ProfileBundle_DeepCopy inp = deep_pointer Bundles bundles_of ProfileBundle_DeepCopyInto inp"

definition Rule_DeepCopyInto :: "rule_mem \<Rightarrow> (go_heap, rule_mem) state" where
  "Rule_DeepCopyInto m = do {
     meta \<leftarrow> ObjectMeta_DeepCopyInto (rum_Meta m);
     fixes' \<leftarrow> deep_slice Fixes fixes_of FixDefinition_DeepCopyInto (rum_AvailableFixes m);
     ret (m\<lparr>rum_TypeMeta := rum_TypeMeta m, rum_Meta := meta, rum_AvailableFixes := fixes'\<rparr>)
   }"

definition Rule_DeepCopy :: "addr option \<Rightarrow> (go_heap, addr option) state" where
  "Rule_DeepCopy inp = deep_pointer Rules rules_of Rule_DeepCopyInto inp"

definition TailoredProfileSpec_DeepCopyInto :: "tailored_profile_spec_mem \<Rightarrow> (go_heap, tailored_profile_spec_mem) state" where
  "TailoredProfileSpec_DeepCopyInto m = do {
     enable \<leftarrow> deep_slice RuleRefs rule_refs_of ret (tpsm_EnableRules m);
     disable \<leftarrow> deep_slice RuleRefs rule_refs_of ret (tpsm_DisableRules m);
     vals \<leftarrow> deep_slice VariableValues variable_values_of ret (tpsm_SetValues m);
     ret (m\<lparr>tpsm_EnableRules := enable, tpsm_DisableRules := disable, tpsm_SetValues := vals\<rparr>)
   }"

definition TailoredProfileSpec_DeepCopy :: "addr option \<Rightarrow> (go_heap, addr option) state" where
  "TailoredProfileSpec_DeepCopy inp = deep_pointer TailoredSpecs tailored_specs_of TailoredProfileSpec_DeepCopyInto inp"

definition TailoredProfile_DeepCopyInto :: "tailored_profile_mem \<Rightarrow> (go_heap, tailored_profile_mem) state" where
  "TailoredProfile_DeepCopyInto m = do {
     meta \<leftarrow> ObjectMeta_DeepCopyInto (tpm_Meta m);
     spec \<leftarrow> TailoredProfileSpec_DeepCopyInto (tpm_Spec m);
     ret (m\<lparr>tpm_TypeMeta := tpm_TypeMeta m, tpm_Meta := meta, tpm_Spec := spec,
             tpm_Status := tpm_Status m\<rparr>)
   }"

definition TailoredProfile_DeepCopy :: "addr option \<Rightarrow> (go_heap, addr option) state" where
  "TailoredProfile_DeepCopy inp = deep_pointer Tailoreds tailoreds_of TailoredProfile_DeepCopyInto inp"

definition Variable_DeepCopyInto :: "variable_mem \<Rightarrow> (go_heap, variable_mem) state" where
  "Variable_DeepCopyInto m = do {
     meta \<leftarrow> ObjectMeta_DeepCopyInto (vam_Meta m);
     selections \<leftarrow> deep_slice ValueSelections selections_of ret (vam_Selections m);
     ret (m\<lparr>vam_TypeMeta := vam_TypeMeta m, vam_Meta := meta, vam_Selections := selections\<rparr>)
   }"

definition Variable_DeepCopy :: "addr option \<Rightarrow> (go_heap, addr option) state" where
  "Variable_DeepCopy inp = deep_pointer Variables variables_of Variable_DeepCopyInto inp"

section \<open>Lists\<close>

definition list_DeepCopyInto ::
  "(addr option \<Rightarrow> (go_heap, addr option) state) \<Rightarrow> object_list_mem \<Rightarrow> (go_heap, object_list_mem) state" where
  "list_DeepCopyInto copy_items m = do {
     meta \<leftarrow> ListMeta_DeepCopyInto (olm_Meta m);
     items \<leftarrow> copy_items (olm_Items m);
     ret (m\<lparr>olm_TypeMeta := olm_TypeMeta m, olm_Meta := meta, olm_Items := items\<rparr>)
   }"

definition ProfileList_DeepCopyInto :: "profile_list_mem \<Rightarrow> (go_heap, profile_list_mem) state" where
  "ProfileList_DeepCopyInto m = list_DeepCopyInto (deep_slice Profiles profiles_of Profile_DeepCopyInto) m"

definition ProfileList_DeepCopy :: "addr option \<Rightarrow> (go_heap, addr option) state" where
  "ProfileList_DeepCopy inp = deep_pointer ProfileLists profile_lists_of ProfileList_DeepCopyInto inp"

definition ProfileBundleList_DeepCopyInto :: "profile_bundle_list_mem \<Rightarrow> (go_heap, profile_bundle_list_mem) state" where
  "ProfileBundleList_DeepCopyInto m = list_DeepCopyInto (deep_slice Bundles bundles_of ProfileBundle_DeepCopyInto) m"

definition ProfileBundleList_DeepCopy :: "addr option \<Rightarrow> (go_heap, addr option) state" where
  "ProfileBundleList_DeepCopy inp = deep_pointer BundleLists bundle_lists_of ProfileBundleList_DeepCopyInto inp"

definition RuleList_DeepCopyInto :: "rule_list_mem \<Rightarrow> (go_heap, rule_list_mem) state" where
  "RuleList_DeepCopyInto m = list_DeepCopyInto (deep_slice Rules rules_of Rule_DeepCopyInto) m"

definition RuleList_DeepCopy :: "addr option \<Rightarrow> (go_heap, addr option) state" where
  "RuleList_DeepCopy inp = deep_pointer RuleLists rule_lists_of RuleList_DeepCopyInto inp"

definition TailoredProfileList_DeepCopyInto :: "tailored_profile_list_mem \<Rightarrow> (go_heap, tailored_profile_list_mem) state" where
  "TailoredProfileList_DeepCopyInto m = list_DeepCopyInto (deep_slice Tailoreds tailoreds_of TailoredProfile_DeepCopyInto) m"

definition TailoredProfileList_DeepCopy :: "addr option \<Rightarrow> (go_heap, addr option) state" where
  "TailoredProfileList_DeepCopy inp = deep_pointer TailoredLists tailored_lists_of TailoredProfileList_DeepCopyInto inp"

definition VariableList_DeepCopyInto :: "variable_list_mem \<Rightarrow> (go_heap, variable_list_mem) state" where
  "VariableList_DeepCopyInto m = list_DeepCopyInto (deep_slice Variables variables_of Variable_DeepCopyInto) m"

definition VariableList_DeepCopy :: "addr option \<Rightarrow> (go_heap, addr option) state" where
  "VariableList_DeepCopy inp = deep_pointer VariableLists variable_lists_of VariableList_DeepCopyInto inp"

section \<open>Objects behind an interface\<close>

text \<open>
  A \<open>runtime.Object\<close> is nil, or a pointer with the type it points to. A nil pointer becomes
  the nil interface, not a typed nil.
\<close>

type_synonym runtime_object = "(go_type \<times> addr) option"

definition as_object :: "go_type \<Rightarrow> addr option \<Rightarrow> runtime_object" where
  "as_object t c = (case c of Some a \<Rightarrow> Some (t, a) | None \<Rightarrow> None)"

definition Profile_DeepCopyObject :: "addr option \<Rightarrow> (go_heap, runtime_object) state" where
  "Profile_DeepCopyObject inp = do { c \<leftarrow> Profile_DeepCopy inp; ret (as_object T_Profile c) }"

definition ProfileBundle_DeepCopyObject :: "addr option \<Rightarrow> (go_heap, runtime_object) state" where
  "ProfileBundle_DeepCopyObject inp = do { c \<leftarrow> ProfileBundle_DeepCopy inp; ret (as_object T_ProfileBundle c) }"

definition ProfileBundleList_DeepCopyObject :: "addr option \<Rightarrow> (go_heap, runtime_object) state" where
  "ProfileBundleList_DeepCopyObject inp = do { c \<leftarrow> ProfileBundleList_DeepCopy inp; ret (as_object T_ProfileBundleList c) }"

definition ProfileList_DeepCopyObject :: "addr option \<Rightarrow> (go_heap, runtime_object) state" where
  "ProfileList_DeepCopyObject inp = do { c \<leftarrow> ProfileList_DeepCopy inp; ret (as_object T_ProfileList c) }"

definition Rule_DeepCopyObject :: "addr option \<Rightarrow> (go_heap, runtime_object) state" where
  "Rule_DeepCopyObject inp = do { c \<leftarrow> Rule_DeepCopy inp; ret (as_object T_Rule c) }"

definition RuleList_DeepCopyObject :: "addr option \<Rightarrow> (go_heap, runtime_object) state" where
  "RuleList_DeepCopyObject inp = do { c \<leftarrow> RuleList_DeepCopy inp; ret (as_object T_RuleList c) }"

definition TailoredProfile_DeepCopyObject :: "addr option \<Rightarrow> (go_heap, runtime_object) state" where
  "TailoredProfile_DeepCopyObject inp = do { c \<leftarrow> TailoredProfile_DeepCopy inp; ret (as_object T_TailoredProfile c) }"

definition TailoredProfileList_DeepCopyObject :: "addr option \<Rightarrow> (go_heap, runtime_object) state" where
  "TailoredProfileList_DeepCopyObject inp = do { c \<leftarrow> TailoredProfileList_DeepCopy inp; ret (as_object T_TailoredProfileList c) }"

definition Variable_DeepCopyObject :: "addr option \<Rightarrow> (go_heap, runtime_object) state" where
  "Variable_DeepCopyObject inp = do { c \<leftarrow> Variable_DeepCopy inp; ret (as_object T_Variable c) }"

definition VariableList_DeepCopyObject :: "addr option \<Rightarrow> (go_heap, runtime_object) state" where
  "VariableList_DeepCopyObject inp = do { c \<leftarrow> VariableList_DeepCopy inp; ret (as_object T_VariableList c) }"

text \<open>The method of an interface value is the one of its dynamic type.\<close>

fun DeepCopyObject :: "go_type \<Rightarrow> addr option \<Rightarrow> (go_heap, runtime_object) state" where
  "DeepCopyObject T_ProfileBundle = ProfileBundle_DeepCopyObject"
| "DeepCopyObject T_ProfileBundleList = ProfileBundleList_DeepCopyObject"
| "DeepCopyObject T_Profile = Profile_DeepCopyObject"
| "DeepCopyObject T_ProfileList = ProfileList_DeepCopyObject"
| "DeepCopyObject T_Rule = Rule_DeepCopyObject"
| "DeepCopyObject T_RuleList = RuleList_DeepCopyObject"
| "DeepCopyObject T_Variable = Variable_DeepCopyObject"
| "DeepCopyObject T_VariableList = VariableList_DeepCopyObject"
| "DeepCopyObject T_TailoredProfile = TailoredProfile_DeepCopyObject"
| "DeepCopyObject T_TailoredProfileList = TailoredProfileList_DeepCopyObject"
| "DeepCopyObject _ = (\<lambda>_. ret None)"

section \<open>Updating a copy\<close>

text \<open>
  The idiom of the program for status updates (\<open>updateTailoredProfileStatusReady\<close>,
  \<open>updateTailoredProfileStatusError\<close>, \<open>updateProfileBundleStatus\<close>): copy the fetched object,
  assign to fields of the copy's status through the pointer, and hand the pointer to the client.
\<close>

definition tailored_status_copy ::
  "(tailored_profile_status \<Rightarrow> tailored_profile_status) \<Rightarrow> addr option \<Rightarrow> (go_heap, addr option) state" where
  "tailored_status_copy assign tp = do {
     tpCopy \<leftarrow> TailoredProfile_DeepCopy tp;
     case tpCopy of
       None \<Rightarrow> ret None
     | Some a \<Rightarrow> do {
         c \<leftarrow> load a;
         store a (Tailoreds [(hd (tailoreds_of c))\<lparr>tpm_Status := assign (tpm_Status (hd (tailoreds_of c)))\<rparr>]);
         ret (Some a)
       }
   }"

definition bundle_status_copy ::
  "(profile_bundle_status \<Rightarrow> profile_bundle_status) \<Rightarrow> addr option \<Rightarrow> (go_heap, addr option) state" where
  "bundle_status_copy assign pb = do {
     pbCopy \<leftarrow> ProfileBundle_DeepCopy pb;
     case pbCopy of
       None \<Rightarrow> ret None
     | Some a \<Rightarrow> do {
         c \<leftarrow> load a;
         store a (Bundles [(hd (bundles_of c))\<lparr>pbm_Status := assign (pbm_Status (hd (bundles_of c)))\<rparr>]);
         ret (Some a)
       }
   }"

end
