(* ===== verification/Deep_Copy_Correct.thy ===== *)
theory Deep_Copy_Correct
  imports Deep_Copy
begin

text \<open>
  The generated copy functions keep the contract of \<open>Go_Heap\<close>: a copy holds the same value
  as the original, in cells of its own.
\<close>

section \<open>Values in memory\<close>

definition rep_owner :: "go_heap \<Rightarrow> addr set \<Rightarrow> owner_reference_mem \<Rightarrow> owner_reference \<Rightarrow> bool" where
  "rep_owner h R m v \<longleftrightarrow>
     orm_APIVersion m = or_APIVersion v \<and> orm_Kind m = or_Kind v \<and> orm_Name m = or_Name v
     \<and> orm_UID m = or_UID v
     \<and> rep_pointer Bools rep_plain h R (orm_Controller m) (or_Controller v)
     \<and> rep_pointer Bools rep_plain h R (orm_BlockOwnerDeletion m) (or_BlockOwnerDeletion v)"

text \<open>A nil map of labels reads like an empty one.\<close>

definition rep_labels :: "go_heap \<Rightarrow> addr set \<Rightarrow> addr option \<Rightarrow> (string \<rightharpoonup> string) \<Rightarrow> bool" where
  "rep_labels h R p v \<longleftrightarrow> (\<exists>l. rep_pointer StringMaps rep_plain h R p l
     \<and> v = (case l of None \<Rightarrow> Map.empty | Some m \<Rightarrow> m))"

definition rep_meta :: "go_heap \<Rightarrow> addr set \<Rightarrow> object_meta_mem \<Rightarrow> object_meta \<Rightarrow> bool" where
  "rep_meta h R m v \<longleftrightarrow>
     omm_Name m = om_Name v \<and> omm_Namespace m = om_Namespace v \<and> omm_UID m = om_UID v
     \<and> rep_labels h R (omm_Labels m) (om_Labels v)
     \<and> rep_pointer StringMaps rep_plain h R (omm_Annotations m) (om_Annotations v)
     \<and> rep_slice Owners rep_owner h R (omm_OwnerReferences m) (om_OwnerReferences v)"

interpretation bools: deep_copy_array ret rep_plain Bools bools_of
  by (simp add: deep_copy_array_def plain_copy deep_copy_array_axioms_def)

interpretation maps: deep_copy_array ret rep_plain StringMaps maps_of
  by (simp add: deep_copy_array_def plain_copy deep_copy_array_axioms_def)

interpretation owner: deep_copy_array OwnerReference_DeepCopyInto rep_owner Owners owners_of
proof
  show "rep_owner h' S m v"
    if "rep_owner h R m v" "\<And>a. a \<in> R \<Longrightarrow> hp_cell h' a = hp_cell h a" "R \<subseteq> S" for h R m v h' S
    using that bools.pointer.frame [OF _ that(2,3)] by (simp add: rep_owner_def)
  show "builds h (OwnerReference_DeepCopyInto m) (\<lambda>m' h'. rep_owner h' (fresh h h') m' v)"
    if R: "rep_owner h R m v" "R \<subseteq> in_use h" for h R m v
    unfolding OwnerReference_DeepCopyInto_def
    using R(1) unfolding rep_owner_def
    by (elim conjE, intro bools.pointer.field [OF _ R(2)] builds_ret) (auto simp: rep_owner_def intro: extends_trans)
qed simp

interpretation labels: deep_copy "deep_pointer StringMaps maps_of ret" rep_labels
proof
  show "rep_labels h' S p v"
    if "rep_labels h R p v" "\<And>a. a \<in> R \<Longrightarrow> hp_cell h' a = hp_cell h a" "R \<subseteq> S" for h R p v h' S
    using that(1) maps.pointer.frame [OF _ that(2,3)] unfolding rep_labels_def by blast
  show "builds h (deep_pointer StringMaps maps_of ret p) (\<lambda>p' h'. rep_labels h' (fresh h h') p' v)"
    if "rep_labels h R p v" "R \<subseteq> in_use h" for h R p v
    using that maps.pointer.copies [of h R p] unfolding rep_labels_def by (blast intro: builds_mono)
qed

interpretation meta: deep_copy ObjectMeta_DeepCopyInto rep_meta
proof
  show "rep_meta h' S m v"
    if "rep_meta h R m v" "\<And>a. a \<in> R \<Longrightarrow> hp_cell h' a = hp_cell h a" "R \<subseteq> S" for h R m v h' S
    using that labels.frame [OF _ that(2,3)] maps.pointer.frame [OF _ that(2,3)] owner.slice.frame [OF _ that(2,3)] by (simp add: rep_meta_def)
  show "builds h (ObjectMeta_DeepCopyInto m) (\<lambda>m' h'. rep_meta h' (fresh h h') m' v)"
    if R: "rep_meta h R m v" "R \<subseteq> in_use h" for h R m v
    unfolding ObjectMeta_DeepCopyInto_def
    using R(1) unfolding rep_meta_def
    by (elim conjE, intro labels.field [OF _ R(2)] maps.pointer.field [OF _ R(2)] owner.slice.field [OF _ R(2)] builds_ret) (auto simp: rep_meta_def intro: extends_trans)
qed

text \<open>The metadata of a list, with the remaining item count in a cell.\<close>

record list_meta =
  lm_ResourceVersion :: string
  lm_Continue :: string
  lm_RemainingItemCount :: "64 word option"

definition rep_list_meta :: "go_heap \<Rightarrow> addr set \<Rightarrow> list_meta_mem \<Rightarrow> list_meta \<Rightarrow> bool" where
  "rep_list_meta h R m v \<longleftrightarrow>
     lmm_ResourceVersion m = lm_ResourceVersion v \<and> lmm_Continue m = lm_Continue v
     \<and> rep_pointer Int64s rep_plain h R (lmm_RemainingItemCount m) (lm_RemainingItemCount v)"

interpretation int64s: deep_copy_array ret rep_plain Int64s int64s_of
  by (simp add: deep_copy_array_def plain_copy deep_copy_array_axioms_def)

interpretation texts: deep_copy_array ret rep_plain Strings strings_of
  by (simp add: deep_copy_array_def plain_copy deep_copy_array_axioms_def)

interpretation rule_refs: deep_copy_array ret rep_plain RuleRefs rule_refs_of
  by (simp add: deep_copy_array_def plain_copy deep_copy_array_axioms_def)

interpretation variable_values: deep_copy_array ret rep_plain VariableValues variable_values_of
  by (simp add: deep_copy_array_def plain_copy deep_copy_array_axioms_def)

interpretation selections: deep_copy_array ret rep_plain ValueSelections selections_of
  by (simp add: deep_copy_array_def plain_copy deep_copy_array_axioms_def)

interpretation list_meta: deep_copy ListMeta_DeepCopyInto rep_list_meta
proof
  show "rep_list_meta h' S m v"
    if "rep_list_meta h R m v" "\<And>a. a \<in> R \<Longrightarrow> hp_cell h' a = hp_cell h a" "R \<subseteq> S" for h R m v h' S
    using that int64s.pointer.frame [OF _ that(2,3)] by (simp add: rep_list_meta_def)
  show "builds h (ListMeta_DeepCopyInto m) (\<lambda>m' h'. rep_list_meta h' (fresh h h') m' v)"
    if R: "rep_list_meta h R m v" "R \<subseteq> in_use h" for h R m v
    unfolding ListMeta_DeepCopyInto_def
    using R(1) unfolding rep_list_meta_def
    by (elim conjE, intro int64s.pointer.field [OF _ R(2)] builds_ret) (auto simp: rep_list_meta_def intro: extends_trans)
qed

section \<open>The API types\<close>

definition rep_fix :: "go_heap \<Rightarrow> addr set \<Rightarrow> fix_definition_mem \<Rightarrow> fix_definition \<Rightarrow> bool" where
  "rep_fix h R m v \<longleftrightarrow>
     fdm_Platform m = fd_Platform v \<and> fdm_Disruption m = fd_Disruption v
     \<and> rep_pointer Unstructureds rep_unstructured h R (fdm_FixObject m) (fd_FixObject v)"

interpretation fixdef: deep_copy_array FixDefinition_DeepCopyInto rep_fix Fixes fixes_of
proof
  show "rep_fix h' S m v"
    if "rep_fix h R m v" "\<And>a. a \<in> R \<Longrightarrow> hp_cell h' a = hp_cell h a" "R \<subseteq> S" for h R m v h' S
    using that unstructured.pointer.frame [OF _ that(2,3)] by (simp add: rep_fix_def)
  show "builds h (FixDefinition_DeepCopyInto m) (\<lambda>m' h'. rep_fix h' (fresh h h') m' v)"
    if R: "rep_fix h R m v" "R \<subseteq> in_use h" for h R m v
    unfolding FixDefinition_DeepCopyInto_def Unstructured_DeepCopy_def
    using R(1) unfolding rep_fix_def
    by (elim conjE, intro unstructured.pointer.field [OF _ R(2)] builds_ret) (auto simp: rep_fix_def intro: extends_trans)
qed simp

definition rep_profile :: "go_heap \<Rightarrow> addr set \<Rightarrow> profile_mem \<Rightarrow> profile \<Rightarrow> bool" where
  "rep_profile h R m v \<longleftrightarrow>
     prm_TypeMeta m = pr_TypeMeta v \<and> rep_meta h R (prm_Meta m) (pr_Meta v)
     \<and> prm_Title m = pr_Title v \<and> prm_Description m = pr_Description v \<and> prm_ID m = pr_ID v
     \<and> rep_slice Strings rep_plain h R (prm_Rules m) (pr_Rules v)
     \<and> rep_slice Strings rep_plain h R (prm_Values m) (pr_Values v)"

interpretation profile: deep_copy_array Profile_DeepCopyInto rep_profile Profiles profiles_of
proof
  show "rep_profile h' S m v"
    if "rep_profile h R m v" "\<And>a. a \<in> R \<Longrightarrow> hp_cell h' a = hp_cell h a" "R \<subseteq> S" for h R m v h' S
    using that meta.frame [OF _ that(2,3)] texts.slice.frame [OF _ that(2,3)] by (simp add: rep_profile_def)
  show "builds h (Profile_DeepCopyInto m) (\<lambda>m' h'. rep_profile h' (fresh h h') m' v)"
    if R: "rep_profile h R m v" "R \<subseteq> in_use h" for h R m v
    unfolding Profile_DeepCopyInto_def
    using R(1) unfolding rep_profile_def
    by (elim conjE, intro meta.field [OF _ R(2)] texts.slice.field [OF _ R(2)] builds_ret) (auto simp: rep_profile_def intro: extends_trans)
qed simp

definition rep_bundle :: "go_heap \<Rightarrow> addr set \<Rightarrow> profile_bundle_mem \<Rightarrow> profile_bundle \<Rightarrow> bool" where
  "rep_bundle h R m v \<longleftrightarrow>
     pbm_TypeMeta m = pb_TypeMeta v \<and> rep_meta h R (pbm_Meta m) (pb_Meta v)
     \<and> pbm_Spec m = pb_Spec v \<and> pbm_Status m = pb_Status v"

interpretation pbundle: deep_copy_array ProfileBundle_DeepCopyInto rep_bundle Bundles bundles_of
proof
  show "rep_bundle h' S m v"
    if "rep_bundle h R m v" "\<And>a. a \<in> R \<Longrightarrow> hp_cell h' a = hp_cell h a" "R \<subseteq> S" for h R m v h' S
    using that meta.frame [OF _ that(2,3)] by (simp add: rep_bundle_def)
  show "builds h (ProfileBundle_DeepCopyInto m) (\<lambda>m' h'. rep_bundle h' (fresh h h') m' v)"
    if R: "rep_bundle h R m v" "R \<subseteq> in_use h" for h R m v
    unfolding ProfileBundle_DeepCopyInto_def
    using R(1) unfolding rep_bundle_def
    by (elim conjE, intro meta.field [OF _ R(2)] builds_ret) (auto simp: rep_bundle_def intro: extends_trans)
qed simp

definition rep_rule :: "go_heap \<Rightarrow> addr set \<Rightarrow> rule_mem \<Rightarrow> rule \<Rightarrow> bool" where
  "rep_rule h R m v \<longleftrightarrow>
     rum_TypeMeta m = ru_TypeMeta v \<and> rep_meta h R (rum_Meta m) (ru_Meta v)
     \<and> rum_ID m = ru_ID v \<and> rum_Title m = ru_Title v \<and> rum_Description m = ru_Description v
     \<and> rum_Rationale m = ru_Rationale v \<and> rum_Warning m = ru_Warning v
     \<and> rum_Severity m = ru_Severity v
     \<and> rep_slice Fixes rep_fix h R (rum_AvailableFixes m) (ru_AvailableFixes v)"

interpretation rule: deep_copy_array Rule_DeepCopyInto rep_rule Rules rules_of
proof
  show "rep_rule h' S m v"
    if "rep_rule h R m v" "\<And>a. a \<in> R \<Longrightarrow> hp_cell h' a = hp_cell h a" "R \<subseteq> S" for h R m v h' S
    using that meta.frame [OF _ that(2,3)] fixdef.slice.frame [OF _ that(2,3)] by (simp add: rep_rule_def)
  show "builds h (Rule_DeepCopyInto m) (\<lambda>m' h'. rep_rule h' (fresh h h') m' v)"
    if R: "rep_rule h R m v" "R \<subseteq> in_use h" for h R m v
    unfolding Rule_DeepCopyInto_def
    using R(1) unfolding rep_rule_def
    by (elim conjE, intro meta.field [OF _ R(2)] fixdef.slice.field [OF _ R(2)] builds_ret) (auto simp: rep_rule_def intro: extends_trans)
qed simp

definition rep_variable :: "go_heap \<Rightarrow> addr set \<Rightarrow> variable_mem \<Rightarrow> variable \<Rightarrow> bool" where
  "rep_variable h R m v \<longleftrightarrow>
     vam_TypeMeta m = va_TypeMeta v \<and> rep_meta h R (vam_Meta m) (va_Meta v)
     \<and> vam_ID m = va_ID v \<and> vam_Title m = va_Title v \<and> vam_Description m = va_Description v
     \<and> vam_Type m = va_Type v \<and> vam_Value m = va_Value v
     \<and> rep_slice ValueSelections rep_plain h R (vam_Selections m) (va_Selections v)"

interpretation variable: deep_copy_array Variable_DeepCopyInto rep_variable Variables variables_of
proof
  show "rep_variable h' S m v"
    if "rep_variable h R m v" "\<And>a. a \<in> R \<Longrightarrow> hp_cell h' a = hp_cell h a" "R \<subseteq> S" for h R m v h' S
    using that meta.frame [OF _ that(2,3)] selections.slice.frame [OF _ that(2,3)] by (simp add: rep_variable_def)
  show "builds h (Variable_DeepCopyInto m) (\<lambda>m' h'. rep_variable h' (fresh h h') m' v)"
    if R: "rep_variable h R m v" "R \<subseteq> in_use h" for h R m v
    unfolding Variable_DeepCopyInto_def
    using R(1) unfolding rep_variable_def
    by (elim conjE, intro meta.field [OF _ R(2)] selections.slice.field [OF _ R(2)] builds_ret) (auto simp: rep_variable_def intro: extends_trans)
qed simp

definition rep_spec :: "go_heap \<Rightarrow> addr set \<Rightarrow> tailored_profile_spec_mem \<Rightarrow> tailored_profile_spec \<Rightarrow> bool" where
  "rep_spec h R m v \<longleftrightarrow>
     tpsm_Extends m = tps_Extends v \<and> tpsm_Title m = tps_Title v
     \<and> tpsm_Description m = tps_Description v \<and> tpsm_OutputType m = tps_OutputType v
     \<and> rep_slice RuleRefs rep_plain h R (tpsm_EnableRules m) (tps_EnableRules v)
     \<and> rep_slice RuleRefs rep_plain h R (tpsm_DisableRules m) (tps_DisableRules v)
     \<and> rep_slice VariableValues rep_plain h R (tpsm_SetValues m) (tps_SetValues v)"

interpretation spec: deep_copy TailoredProfileSpec_DeepCopyInto rep_spec
proof
  show "rep_spec h' S m v"
    if "rep_spec h R m v" "\<And>a. a \<in> R \<Longrightarrow> hp_cell h' a = hp_cell h a" "R \<subseteq> S" for h R m v h' S
    using that rule_refs.slice.frame [OF _ that(2,3)] variable_values.slice.frame [OF _ that(2,3)] by (simp add: rep_spec_def)
  show "builds h (TailoredProfileSpec_DeepCopyInto m) (\<lambda>m' h'. rep_spec h' (fresh h h') m' v)"
    if R: "rep_spec h R m v" "R \<subseteq> in_use h" for h R m v
    unfolding TailoredProfileSpec_DeepCopyInto_def
    using R(1) unfolding rep_spec_def
    by (elim conjE, intro rule_refs.slice.field [OF _ R(2)] variable_values.slice.field [OF _ R(2)] builds_ret) (auto simp: rep_spec_def intro: extends_trans)
qed

definition rep_tailored :: "go_heap \<Rightarrow> addr set \<Rightarrow> tailored_profile_mem \<Rightarrow> tailored_profile \<Rightarrow> bool" where
  "rep_tailored h R m v \<longleftrightarrow>
     tpm_TypeMeta m = tp_TypeMeta v \<and> rep_meta h R (tpm_Meta m) (tp_Meta v)
     \<and> rep_spec h R (tpm_Spec m) (tp_Spec v) \<and> tpm_Status m = tp_Status v"

interpretation tailored: deep_copy_array TailoredProfile_DeepCopyInto rep_tailored Tailoreds tailoreds_of
proof
  show "rep_tailored h' S m v"
    if "rep_tailored h R m v" "\<And>a. a \<in> R \<Longrightarrow> hp_cell h' a = hp_cell h a" "R \<subseteq> S" for h R m v h' S
    using that meta.frame [OF _ that(2,3)] spec.frame [OF _ that(2,3)] by (simp add: rep_tailored_def)
  show "builds h (TailoredProfile_DeepCopyInto m) (\<lambda>m' h'. rep_tailored h' (fresh h h') m' v)"
    if R: "rep_tailored h R m v" "R \<subseteq> in_use h" for h R m v
    unfolding TailoredProfile_DeepCopyInto_def
    using R(1) unfolding rep_tailored_def
    by (elim conjE, intro meta.field [OF _ R(2)] spec.field [OF _ R(2)] builds_ret) (auto simp: rep_tailored_def intro: extends_trans)
qed simp

section \<open>Lists of objects\<close>

record 'v object_list =
  ol_TypeMeta :: type_meta
  ol_Meta :: list_meta
  ol_Items :: "'v list"

definition rep_list ::
  "(go_heap \<Rightarrow> addr set \<Rightarrow> addr option \<Rightarrow> 'v list \<Rightarrow> bool)
   \<Rightarrow> go_heap \<Rightarrow> addr set \<Rightarrow> object_list_mem \<Rightarrow> 'v object_list \<Rightarrow> bool" where
  "rep_list rep_items h R m v \<longleftrightarrow>
     olm_TypeMeta m = ol_TypeMeta v \<and> rep_list_meta h R (olm_Meta m) (ol_Meta v)
     \<and> rep_items h R (olm_Items m) (ol_Items v)"

context deep_copy_array
begin

sublocale objects: deep_copy "list_DeepCopyInto (deep_slice mk elems into)" "rep_list (rep_slice mk rep)"
proof
  show "rep_list (rep_slice mk rep) h' S m v"
    if "rep_list (rep_slice mk rep) h R m v" "\<And>a. a \<in> R \<Longrightarrow> hp_cell h' a = hp_cell h a" "R \<subseteq> S"
    for h R m v h' S
    using that list_meta.frame [OF _ that(2,3)] slice.frame [OF _ that(2,3)] by (simp add: rep_list_def)
  show "builds h (list_DeepCopyInto (deep_slice mk elems into) m)
      (\<lambda>m' h'. rep_list (rep_slice mk rep) h' (fresh h h') m' v)"
    if R: "rep_list (rep_slice mk rep) h R m v" "R \<subseteq> in_use h" for h R m v
    unfolding list_DeepCopyInto_def
    using R(1) unfolding rep_list_def
    by (elim conjE, intro list_meta.field [OF _ R(2)] slice.field [OF _ R(2)] builds_ret)
      (auto simp: rep_list_def intro: extends_trans)
qed

end

interpretation profile_list: deep_copy_array ProfileList_DeepCopyInto "rep_list (rep_slice Profiles rep_profile)" ProfileLists profile_lists_of
  using profile.objects.deep_copy_axioms
  by (simp add: deep_copy_array_def deep_copy_array_axioms_def ProfileList_DeepCopyInto_def [abs_def])

interpretation pbundle_list: deep_copy_array ProfileBundleList_DeepCopyInto "rep_list (rep_slice Bundles rep_bundle)" BundleLists bundle_lists_of
  using pbundle.objects.deep_copy_axioms
  by (simp add: deep_copy_array_def deep_copy_array_axioms_def ProfileBundleList_DeepCopyInto_def [abs_def])

interpretation rule_list: deep_copy_array RuleList_DeepCopyInto "rep_list (rep_slice Rules rep_rule)" RuleLists rule_lists_of
  using rule.objects.deep_copy_axioms
  by (simp add: deep_copy_array_def deep_copy_array_axioms_def RuleList_DeepCopyInto_def [abs_def])

interpretation variable_list: deep_copy_array VariableList_DeepCopyInto "rep_list (rep_slice Variables rep_variable)" VariableLists variable_lists_of
  using variable.objects.deep_copy_axioms
  by (simp add: deep_copy_array_def deep_copy_array_axioms_def VariableList_DeepCopyInto_def [abs_def])

interpretation tailored_list: deep_copy_array TailoredProfileList_DeepCopyInto "rep_list (rep_slice Tailoreds rep_tailored)" TailoredLists tailored_lists_of
  using tailored.objects.deep_copy_axioms
  by (simp add: deep_copy_array_def deep_copy_array_axioms_def TailoredProfileList_DeepCopyInto_def [abs_def])

section \<open>Objects\<close>

datatype api_value =
    V_Profile profile
  | V_ProfileList "profile object_list"
  | V_ProfileBundle profile_bundle
  | V_ProfileBundleList "profile_bundle object_list"
  | V_Rule rule
  | V_RuleList "rule object_list"
  | V_Variable variable
  | V_VariableList "variable object_list"
  | V_TailoredProfile tailored_profile
  | V_TailoredProfileList "tailored_profile object_list"

text \<open>The object behind a pointer of the given type.\<close>

primrec rep_object :: "go_heap \<Rightarrow> addr set \<Rightarrow> go_type \<Rightarrow> addr \<Rightarrow> api_value \<Rightarrow> bool" where
  "rep_object h R t a (V_Profile v) \<longleftrightarrow> t = T_Profile \<and> rep_pointer Profiles rep_profile h R (Some a) (Some v)"
| "rep_object h R t a (V_ProfileList v) \<longleftrightarrow>
     t = T_ProfileList \<and> rep_pointer ProfileLists (rep_list (rep_slice Profiles rep_profile)) h R (Some a) (Some v)"
| "rep_object h R t a (V_ProfileBundle v) \<longleftrightarrow> t = T_ProfileBundle \<and> rep_pointer Bundles rep_bundle h R (Some a) (Some v)"
| "rep_object h R t a (V_ProfileBundleList v) \<longleftrightarrow>
     t = T_ProfileBundleList \<and> rep_pointer BundleLists (rep_list (rep_slice Bundles rep_bundle)) h R (Some a) (Some v)"
| "rep_object h R t a (V_Rule v) \<longleftrightarrow> t = T_Rule \<and> rep_pointer Rules rep_rule h R (Some a) (Some v)"
| "rep_object h R t a (V_RuleList v) \<longleftrightarrow>
     t = T_RuleList \<and> rep_pointer RuleLists (rep_list (rep_slice Rules rep_rule)) h R (Some a) (Some v)"
| "rep_object h R t a (V_Variable v) \<longleftrightarrow> t = T_Variable \<and> rep_pointer Variables rep_variable h R (Some a) (Some v)"
| "rep_object h R t a (V_VariableList v) \<longleftrightarrow>
     t = T_VariableList \<and> rep_pointer VariableLists (rep_list (rep_slice Variables rep_variable)) h R (Some a) (Some v)"
| "rep_object h R t a (V_TailoredProfile v) \<longleftrightarrow> t = T_TailoredProfile \<and> rep_pointer Tailoreds rep_tailored h R (Some a) (Some v)"
| "rep_object h R t a (V_TailoredProfileList v) \<longleftrightarrow>
     t = T_TailoredProfileList \<and> rep_pointer TailoredLists (rep_list (rep_slice Tailoreds rep_tailored)) h R (Some a) (Some v)"

lemmas object_copies =
  Profile_DeepCopyObject_def Profile_DeepCopy_def ProfileList_DeepCopyObject_def
  ProfileList_DeepCopy_def ProfileBundle_DeepCopyObject_def ProfileBundle_DeepCopy_def
  ProfileBundleList_DeepCopyObject_def ProfileBundleList_DeepCopy_def Rule_DeepCopyObject_def
  Rule_DeepCopy_def RuleList_DeepCopyObject_def RuleList_DeepCopy_def Variable_DeepCopyObject_def
  Variable_DeepCopy_def VariableList_DeepCopyObject_def VariableList_DeepCopy_def
  TailoredProfile_DeepCopyObject_def TailoredProfile_DeepCopy_def
  TailoredProfileList_DeepCopyObject_def TailoredProfileList_DeepCopy_def

lemma rep_pointer_SomeD: "rep_pointer mk rep h R p (Some v) \<Longrightarrow> \<exists>a. p = Some a"
  by (cases p) (simp_all add: rep_pointer_def)

context deep_copy_array
begin

lemma object_copy:
  assumes "rep_pointer mk rep h R (Some a) (Some v)" and "R \<subseteq> in_use h"
    and "run_state (do { c \<leftarrow> deep_pointer mk elems into (Some a); ret (as_object t c) }) h = (c, h')"
  shows "extends h h' \<and> (\<exists>b. c = Some (t, b) \<and> rep_pointer mk rep h' (fresh h h') (Some b) (Some v))"
proof -
  obtain q h1 where run: "run_state (deep_pointer mk elems into (Some a)) h = (q, h1)" by fastforce
  from buildsD [OF pointer.copies [OF assms(1,2)] run]
  have "extends h h1" "rep_pointer mk rep h1 (fresh h h1) q (Some v)" by auto
  moreover from rep_pointer_SomeD [OF this(2)] obtain b where "q = Some b" ..
  ultimately show ?thesis using assms(3) run by (auto simp: as_object_def)
qed

end

lemma rep_object_frame:
  assumes "rep_object h R t a v" and "\<And>b. b \<in> R \<Longrightarrow> hp_cell h' b = hp_cell h b"
  shows "rep_object h' R t a v"
  using assms(1)
  by (cases v) (auto intro: profile.pointer.frame [OF _ assms(2) subset_refl] profile_list.pointer.frame [OF _ assms(2) subset_refl]
     pbundle.pointer.frame [OF _ assms(2) subset_refl] pbundle_list.pointer.frame [OF _ assms(2) subset_refl]
     rule.pointer.frame [OF _ assms(2) subset_refl] rule_list.pointer.frame [OF _ assms(2) subset_refl]
     variable.pointer.frame [OF _ assms(2) subset_refl] variable_list.pointer.frame [OF _ assms(2) subset_refl]
     tailored.pointer.frame [OF _ assms(2) subset_refl] tailored_list.pointer.frame [OF _ assms(2) subset_refl])

lemma rep_object_kept:
  "rep_object h R t a v \<Longrightarrow> R \<subseteq> in_use h \<Longrightarrow> extends h h' \<Longrightarrow> rep_object h' R t a v"
  using rep_object_frame extends_cell by blast

lemmas copy_of_objects =
  profile.object_copy profile_list.object_copy pbundle.object_copy pbundle_list.object_copy
  rule.object_copy rule_list.object_copy variable.object_copy variable_list.object_copy
  tailored.object_copy tailored_list.object_copy

lemma object_copied:
  assumes "rep_object h R t a v" and "R \<subseteq> in_use h"
    and "run_state (DeepCopyObject t (Some a)) h = (c, h')"
  shows "extends h h' \<and> (\<exists>b. c = Some (t, b) \<and> rep_object h' (fresh h h') t b v)"
  using assms(1,3)
  by (cases v) (auto simp: object_copies dest!: copy_of_objects [OF _ assms(2)])

text \<open>
  C19: the copy of an object of any type of the API group is an interface value of the same
  type whose object holds the same value. The copying changes no cell that existed before, and
  everything the copy refers to, down to the cells of a nested JSON value, is a cell that did not
  exist before: whatever is written to one of the two objects later, the other one keeps its
  value. A nil pointer is copied to the nil interface.
\<close>

theorem DeepCopyObject_independent:
  assumes "rep_object h R t a v" and "R \<subseteq> in_use h"
    and "run_state (DeepCopyObject t (Some a)) h = (c, h')"
  shows "(\<forall>x < hp_next h. hp_cell h' x = hp_cell h x)
    \<and> (\<exists>b S. c = Some (t, b) \<and> S \<subseteq> {hp_next h..<hp_next h'} \<and> rep_object h' S t b v \<and> rep_object h' R t a v
      \<and> (\<forall>h2. (\<forall>x. x \<notin> S \<longrightarrow> hp_cell h2 x = hp_cell h' x) \<longrightarrow> rep_object h2 R t a v)
      \<and> (\<forall>h2. (\<forall>x. x \<notin> R \<longrightarrow> hp_cell h2 x = hp_cell h' x) \<longrightarrow> rep_object h2 S t b v))
    \<and> run_state (DeepCopyObject t None) h = (None, h)"
proof -
  from object_copied [OF assms] obtain b where ext: "extends h h'" and c: "c = Some (t, b)"
    and b: "rep_object h' (fresh h h') t b v" by blast
  have a: "rep_object h' R t a v"
    by (rule rep_object_kept [OF assms(1,2) ext])
  have disj: "fresh h h' \<inter> R = {}" by (rule fresh_disjoint [OF assms(2)])
  have "run_state (DeepCopyObject t None) h = (None, h)"
    using assms(1) by (cases v) (auto simp: object_copies deep_pointer_def as_object_def)
  moreover have "rep_object h2 R t a v" if "\<forall>x. x \<notin> fresh h h' \<longrightarrow> hp_cell h2 x = hp_cell h' x" for h2
    using that disj by (intro rep_object_frame [OF a]) auto
  moreover have "rep_object h2 (fresh h h') t b v" if "\<forall>x. x \<notin> R \<longrightarrow> hp_cell h2 x = hp_cell h' x" for h2
    using that disj by (intro rep_object_frame [OF b]) auto
  moreover have "\<forall>x < hp_next h. hp_cell h' x = hp_cell h x" using ext by (simp add: extends_def)
  moreover have "fresh h h' \<subseteq> {hp_next h..<hp_next h'}" by (simp add: fresh_def)
  ultimately show ?thesis using a b c by blast
qed

text \<open>
  A rule at address 0, with one fix whose object is \<open>{"spec": {"ports": [22]}}\<close>. Writing to the
  inner array of the original, at address 5, does not change the copy.
\<close>

definition ex_heap_fix :: json where
  "ex_heap_fix = JObject [(''spec'', JObject [(''ports'', JArray [JInt64 22])])]"

definition ex_heap_rule :: rule where
  "ex_heap_rule = \<lparr>ru_TypeMeta = \<lparr>tm_Kind = ''Rule'', tm_APIVersion = []\<rparr>, ru_Meta = zero_meta,
     ru_ID = ''i'', ru_Title = ''t'', ru_Description = [], ru_Rationale = [], ru_Warning = [], ru_Severity = [],
     ru_AvailableFixes = [\<lparr>fd_Platform = ''k'', fd_Disruption = [], fd_FixObject = Some ex_heap_fix\<rparr>]\<rparr>"

definition ex_zero_meta_mem :: object_meta_mem where
  "ex_zero_meta_mem = \<lparr>omm_Name = [], omm_Namespace = [], omm_UID = [], omm_Labels = None,
     omm_Annotations = None, omm_OwnerReferences = None\<rparr>"

definition ex_heap :: go_heap where
  "ex_heap = \<lparr>hp_next = 6, hp_cell = (\<lambda>_. Zeroed 0)
     (0 := Rules [\<lparr>rum_TypeMeta = \<lparr>tm_Kind = ''Rule'', tm_APIVersion = []\<rparr>, rum_Meta = ex_zero_meta_mem,
        rum_ID = ''i'', rum_Title = ''t'', rum_Description = [], rum_Rationale = [], rum_Warning = [],
        rum_Severity = [], rum_AvailableFixes = Some 1\<rparr>],
      1 := Fixes [\<lparr>fdm_Platform = ''k'', fdm_Disruption = [], fdm_FixObject = Some 2\<rparr>],
      2 := Unstructureds [\<lparr>um_Object = Some 3\<rparr>],
      3 := JsonMap [(''spec'', JM_Map (Some 4))],
      4 := JsonMap [(''ports'', JM_Array (Some 5))],
      5 := JsonArray [JM_Int64 22])\<rparr>"

lemma ex_heap_rep: "rep_object ex_heap {0..5} T_Rule 0 (V_Rule ex_heap_rule)"
proof -
  have "rep_json (Suc (Suc (Suc (Suc 0)))) ex_heap {0..5} (JM_Map (Some 3)) ex_heap_fix"
    by (simp add: ex_heap_def ex_heap_fix_def rep_slice_def rep_entry_def)
  then have fix_rep: "rep_unstructured ex_heap {0..5} \<lparr>um_Object = Some 3\<rparr> ex_heap_fix"
    by (auto simp: rep_unstructured_def simp del: rep_json.simps)
  have cells: "hp_cell ex_heap 0 = Rules [\<lparr>rum_TypeMeta = \<lparr>tm_Kind = ''Rule'', tm_APIVersion = []\<rparr>,
      rum_Meta = ex_zero_meta_mem, rum_ID = ''i'', rum_Title = ''t'', rum_Description = [], rum_Rationale = [],
      rum_Warning = [], rum_Severity = [], rum_AvailableFixes = Some 1\<rparr>]"
    "hp_cell ex_heap (Suc 0) = Fixes [\<lparr>fdm_Platform = ''k'', fdm_Disruption = [], fdm_FixObject = Some 2\<rparr>]"
    "hp_cell ex_heap 2 = Unstructureds [\<lparr>um_Object = Some 3\<rparr>]"
    by (simp_all add: ex_heap_def)
  show ?thesis
    by (simp add: rep_pointer_def rep_rule_def rep_meta_def rep_slice_def rep_labels_def rep_fix_def cells fix_rep
        ex_heap_rule_def ex_zero_meta_mem_def zero_meta_def)
qed

theorem DeepCopyObject_independent_witness:
  "\<exists>b h'. run_state (DeepCopyObject T_Rule (Some 0)) ex_heap = (Some (T_Rule, b), h')
     \<and> rep_object (filled 5 (JsonArray []) h') (- {0..5}) T_Rule b (V_Rule ex_heap_rule)"
proof -
  obtain c h' where run: "run_state (DeepCopyObject T_Rule (Some 0)) ex_heap = (c, h')" by fastforce
  have used: "{0..5} \<subseteq> in_use ex_heap" by (auto simp: in_use_def ex_heap_def)
  from DeepCopyObject_independent [OF ex_heap_rep used run] obtain b S where
    c: "c = Some (T_Rule, b)" and new: "S \<subseteq> {hp_next ex_heap..<hp_next h'}"
    and S: "\<forall>h2. (\<forall>x. x \<notin> {0..5} \<longrightarrow> hp_cell h2 x = hp_cell h' x) \<longrightarrow>
      rep_object h2 S T_Rule b (V_Rule ex_heap_rule)" by blast
  have "rep_object (filled 5 (JsonArray []) h') S T_Rule b (V_Rule ex_heap_rule)"
    using S by simp
  then have "rep_pointer Rules rep_rule (filled 5 (JsonArray []) h') S (Some b) (Some ex_heap_rule)"
    by simp
  moreover have "S \<subseteq> - {0..5}" using new by (auto simp: ex_heap_def)
  ultimately have "rep_object (filled 5 (JsonArray []) h') (- {0..5}) T_Rule b (V_Rule ex_heap_rule)"
    using rule.pointer.frame [OF _ refl] by simp
  then show ?thesis using run c by blast
qed

section \<open>Updates through a copy\<close>

lemma tailored_status_built:
  assumes "rep_object h R T_TailoredProfile a (V_TailoredProfile tp)" and "R \<subseteq> in_use h"
  shows "builds h (tailored_status_copy assign (Some a)) (\<lambda>q h'. \<exists>b. q = Some b
    \<and> rep_object h' (fresh h h') T_TailoredProfile b
        (V_TailoredProfile (tp\<lparr>tp_Status := assign (tp_Status tp)\<rparr>)))"
proof -
  have "rep_pointer Tailoreds rep_tailored h R (Some a) (Some tp)" using assms(1) by simp
  from tailored.pointer_assign [OF this assms(2),
      of "\<lambda>m. m\<lparr>tpm_Status := assign (tpm_Status m)\<rparr>" "tp\<lparr>tp_Status := assign (tp_Status tp)\<rparr>"]
  show ?thesis by (simp add: tailored_status_copy_def TailoredProfile_DeepCopy_def Let_def rep_tailored_def)
qed

lemma bundle_status_built:
  assumes "rep_object h R T_ProfileBundle a (V_ProfileBundle pb)" and "R \<subseteq> in_use h"
  shows "builds h (bundle_status_copy assign (Some a)) (\<lambda>q h'. \<exists>b. q = Some b
    \<and> rep_object h' (fresh h h') T_ProfileBundle b
        (V_ProfileBundle (pb\<lparr>pb_Status := assign (pb_Status pb)\<rparr>)))"
proof -
  have "rep_pointer Bundles rep_bundle h R (Some a) (Some pb)" using assms(1) by simp
  from pbundle.pointer_assign [OF this assms(2),
      of "\<lambda>m. m\<lparr>pbm_Status := assign (pbm_Status m)\<rparr>" "pb\<lparr>pb_Status := assign (pb_Status pb)\<rparr>"]
  show ?thesis by (simp add: bundle_status_copy_def ProfileBundle_DeepCopy_def Let_def rep_bundle_def)
qed

text \<open>
  C39: a status update through a copy hands to the client exactly the object that the
  controllers' models write, the fetched object with the new status, and the fetched object
  itself, which may belong to a shared cache, keeps its value.
\<close>

theorem status_copy_exact:
  assumes "rep_object h R T_TailoredProfile a (V_TailoredProfile tp)" and "R \<subseteq> in_use h"
    and "run_state (tailored_status_copy assign (Some a)) h = (q, h')"
    and "rep_object g R' T_ProfileBundle b (V_ProfileBundle pb)" and "R' \<subseteq> in_use g"
    and "run_state (bundle_status_copy assign_pb (Some b)) g = (q', g')"
  shows "(\<exists>a' S. q = Some a' \<and> S \<inter> R = {} \<and> rep_object h' R T_TailoredProfile a (V_TailoredProfile tp)
      \<and> rep_object h' S T_TailoredProfile a' (V_TailoredProfile (tp\<lparr>tp_Status := assign (tp_Status tp)\<rparr>)))
    \<and> (\<exists>b' S. q' = Some b' \<and> S \<inter> R' = {} \<and> rep_object g' R' T_ProfileBundle b (V_ProfileBundle pb)
      \<and> rep_object g' S T_ProfileBundle b' (V_ProfileBundle (pb\<lparr>pb_Status := assign_pb (pb_Status pb)\<rparr>)))"
proof
  from buildsD [OF tailored_status_built [OF assms(1,2)] assms(3)]
  show "\<exists>a' S. q = Some a' \<and> S \<inter> R = {} \<and> rep_object h' R T_TailoredProfile a (V_TailoredProfile tp)
      \<and> rep_object h' S T_TailoredProfile a' (V_TailoredProfile (tp\<lparr>tp_Status := assign (tp_Status tp)\<rparr>))"
    using fresh_disjoint [OF assms(2), of h'] rep_object_kept [OF assms(1,2)] by blast
  from buildsD [OF bundle_status_built [OF assms(4,5)] assms(6)]
  show "\<exists>b' S. q' = Some b' \<and> S \<inter> R' = {} \<and> rep_object g' R' T_ProfileBundle b (V_ProfileBundle pb)
      \<and> rep_object g' S T_ProfileBundle b' (V_ProfileBundle (pb\<lparr>pb_Status := assign_pb (pb_Status pb)\<rparr>))"
    using fresh_disjoint [OF assms(5), of g'] rep_object_kept [OF assms(4,5)] by blast
qed

text \<open>A TailoredProfile that enables one rule, and a bundle.\<close>

definition ex_heap_tailored :: tailored_profile where
  "ex_heap_tailored = \<lparr>tp_TypeMeta = \<lparr>tm_Kind = [], tm_APIVersion = []\<rparr>, tp_Meta = zero_meta,
     tp_Spec = \<lparr>tps_Extends = ''p'', tps_Title = [], tps_Description = [], tps_OutputType = [],
       tps_EnableRules = [\<lparr>rr_Name = ''r'', rr_Rationale = []\<rparr>], tps_DisableRules = [], tps_SetValues = []\<rparr>,
     tp_Status = \<lparr>tpst_ID = [], tpst_OutputRef = \<lparr>oref_Name = [], oref_Namespace = []\<rparr>,
       tpst_State = [], tpst_ErrorMessage = []\<rparr>\<rparr>"

definition ex_heap_bundle :: profile_bundle where
  "ex_heap_bundle = \<lparr>pb_TypeMeta = \<lparr>tm_Kind = [], tm_APIVersion = []\<rparr>, pb_Meta = zero_meta,
     pb_Spec = \<lparr>pbs_ContentImage = ''i'', pbs_ContentFile = ''f''\<rparr>,
     pb_Status = \<lparr>pbst_DataStreamStatus = ''PENDING'', pbst_ErrorMessage = []\<rparr>\<rparr>"

definition ex_status_heap :: go_heap where
  "ex_status_heap = \<lparr>hp_next = 3, hp_cell = (\<lambda>_. Zeroed 0)
     (0 := Tailoreds [\<lparr>tpm_TypeMeta = \<lparr>tm_Kind = [], tm_APIVersion = []\<rparr>, tpm_Meta = ex_zero_meta_mem,
        tpm_Spec = \<lparr>tpsm_Extends = ''p'', tpsm_Title = [], tpsm_Description = [], tpsm_OutputType = [],
          tpsm_EnableRules = Some 1, tpsm_DisableRules = None, tpsm_SetValues = None\<rparr>,
        tpm_Status = tp_Status ex_heap_tailored\<rparr>],
      1 := RuleRefs [\<lparr>rr_Name = ''r'', rr_Rationale = []\<rparr>],
      2 := Bundles [\<lparr>pbm_TypeMeta = \<lparr>tm_Kind = [], tm_APIVersion = []\<rparr>, pbm_Meta = ex_zero_meta_mem,
        pbm_Spec = pb_Spec ex_heap_bundle, pbm_Status = pb_Status ex_heap_bundle\<rparr>])\<rparr>"

lemma ex_status_heap_rep:
  "rep_object ex_status_heap {0, 1} T_TailoredProfile 0 (V_TailoredProfile ex_heap_tailored)"
  "rep_object ex_status_heap {2} T_ProfileBundle 2 (V_ProfileBundle ex_heap_bundle)"
  by (simp_all add: ex_status_heap_def ex_heap_tailored_def ex_heap_bundle_def ex_zero_meta_mem_def
      rep_pointer_def rep_tailored_def rep_bundle_def rep_spec_def rep_meta_def rep_slice_def rep_labels_def
      rep_plain_def zero_meta_def)

theorem status_copy_exact_witness:
  "\<exists>a h' S. run_state (tailored_status_copy (tpst_State_update (\<lambda>_. ''READY'')) (Some 0)) ex_status_heap = (Some a, h')
     \<and> rep_object h' {0, 1} T_TailoredProfile 0 (V_TailoredProfile ex_heap_tailored)
     \<and> rep_object h' S T_TailoredProfile a (V_TailoredProfile
         (ex_heap_tailored\<lparr>tp_Status := (tp_Status ex_heap_tailored)\<lparr>tpst_State := ''READY''\<rparr>\<rparr>))"
proof -
  obtain q h' where run: "run_state (tailored_status_copy (tpst_State_update (\<lambda>_. ''READY'')) (Some 0))
      ex_status_heap = (q, h')" by fastforce
  obtain q' g' where run': "run_state (bundle_status_copy id (Some 2)) ex_status_heap = (q', g')" by fastforce
  have "{0, 1} \<subseteq> in_use ex_status_heap" "{2} \<subseteq> in_use ex_status_heap"
    by (simp_all add: in_use_def ex_status_heap_def)
  from status_copy_exact [OF ex_status_heap_rep(1) this(1) run ex_status_heap_rep(2) this(2) run'] run
  show ?thesis by blast
qed

end
