(* ===== verification/Profile_Bundle.thy ===== *)
theory Profile_Bundle
  imports Samples Effects
begin

text \<open>
  The ProfileBundle controller (\<open>pkg/controller/profilebundle/profilebundle_controller.go\<close>)
  and the image lookup it uses (\<open>pkg/controller/common/images.go\<close>): one reconciliation
  creates the parser Pod of a bundle, and reports a Pod whose init container cannot start.
\<close>

section \<open>Component images\<close>

definition PROFILEPARSER :: nat where "PROFILEPARSER = 0"

definition componentDefaults :: "(string \<times> string) list" where
  "componentDefaults =
     [(''quay.io/compliance-profile-operator/profileparser:latest'', ''PROFILEPARSER_IMAGE'')]"

text \<open>The index is the constant above, so the array access is in range.\<close>

definition GetComponentImage :: "go_env \<Rightarrow> nat \<Rightarrow> string" where
  "GetComponentImage env component =
     (let comp = componentDefaults ! component;
          imageTag = ge_getenv env (snd comp)
      in if imageTag = [] then fst comp else imageTag)"

section \<open>The parser Pod\<close>

definition content_dir_mount :: "bool \<Rightarrow> volume_mount" where
  "content_dir_mount ro =
     \<lparr>vm_Name = ''content-dir'', vm_MountPath = ''/content'', vm_ReadOnly = ro\<rparr>"

definition newPodForBundle :: "go_env \<Rightarrow> profile_bundle \<Rightarrow> pod" where
  "newPodForBundle env pb =
     \<lparr>pod_Meta = zero_meta\<lparr>om_Name := om_Name (pb_Meta pb) @ ''-pp'',
                           om_Namespace := om_Namespace (pb_Meta pb),
                           om_Labels := [''profile-bundle'' \<mapsto> om_Name (pb_Meta pb)]\<rparr>,
      pod_Spec =
        \<lparr>ps_InitContainers =
           [\<lparr>co_Name = ''content-container'', co_Image = pbs_ContentImage (pb_Spec pb),
             co_Command = [''sh'', ''-c'',
               ''cp '' @ path_Join [''/'', pbs_ContentFile (pb_Spec pb)] @ '' /content | /bin/true''],
             co_Args = [], co_ImagePullPolicy = ''Always'',
             co_VolumeMounts = [content_dir_mount False]\<rparr>],
         ps_Containers =
           [\<lparr>co_Name = ''profileparser'', co_Image = GetComponentImage env PROFILEPARSER,
             co_Command = [],
             co_Args = [''--profile-bundle-name'', om_Name (pb_Meta pb),
                        ''--profile-bundle-namespace'', om_Namespace (pb_Meta pb),
                        ''--ds-path'', path_Join [''/content'', pbs_ContentFile (pb_Spec pb)]],
             co_ImagePullPolicy = [],
             co_VolumeMounts = [content_dir_mount True]\<rparr>],
         ps_RestartPolicy = ''OnFailure'',
         ps_ServiceAccountName = ''compliance-profile-operator'',
         ps_EmptyDirVolumes = [''content-dir'']\<rparr>,
      pod_InitContainerStatuses = []\<rparr>"

text \<open>The loop over the init containers: a ready one breaks out of it.\<close>

fun startup_error_loop :: "container_status list \<Rightarrow> bool" where
  "startup_error_loop [] = False"
| "startup_error_loop (initStatus # rest) =
     (if cs_Ready initStatus then False
      else case cs_Waiting initStatus of
             None \<Rightarrow> startup_error_loop rest
           | Some reason \<Rightarrow>
               if reason = ''ImagePullBackOff'' \<or> reason = ''ErrImagePull'' then True
               else startup_error_loop rest)"

definition podStartupError :: "pod \<Rightarrow> bool" where
  "podStartupError pod = startup_error_loop (pod_InitContainerStatuses pod)"

section \<open>Reconcile\<close>

record 'w ReconcileProfileBundle =
  rpb_client :: "'w client"
  rpb_scheme :: scheme
  rpb_env :: go_env

definition startup_message :: string where
  "startup_message = ''The init container failed to start. Check Status.ContentImage.''"

definition Reconcile_bundle ::
  "'w ReconcileProfileBundle \<Rightarrow> nsname \<Rightarrow> ('w world, reconcile_return) state" where
  "Reconcile_bundle r request = do {
     got \<leftarrow> client_get (cl_Get_ProfileBundle (rpb_client r)) request;
     case got of
       Inl err \<Rightarrow> if IsNotFound err then ret (Result0, None) else ret (Result0, Some err)
     | Inr inst \<Rightarrow>
     (let pod = newPodForBundle (rpb_env r) inst in
      case SetControllerReference T_ProfileBundle (pb_Meta inst) (pod_Meta pod) (rpb_scheme r) of
        Inl err \<Rightarrow> ret (Result0, Some err)
      | Inr meta \<Rightarrow>
      (let pod = pod\<lparr>pod_Meta := meta\<rparr> in do {
         found \<leftarrow> client_get (cl_Get_Pod (rpb_client r)) (key_of (pod_Meta pod));
         case found of
           Inl err \<Rightarrow>
             if IsNotFound err then do {
               err \<leftarrow> StatusUpdate (rpb_client r) (ProfileBundleObj (inst\<lparr>pb_Status :=
                        (pb_Status inst)\<lparr>pbst_DataStreamStatus := DataStreamPending\<rparr>\<rparr>));
               case err of
                 Some e \<Rightarrow> ret (Result0, Some e)
               | None \<Rightarrow> do {
                   err \<leftarrow> Create (rpb_client r) (PodObj pod);
                   case err of Some e \<Rightarrow> ret (Result0, Some e) | None \<Rightarrow> ret (Result0, None)
                 }
             }
             else ret (Result0, Some err)
         | Inr found \<Rightarrow>
             if podStartupError found then do {
               err \<leftarrow> StatusUpdate (rpb_client r) (ProfileBundleObj (inst\<lparr>pb_Status :=
                        \<lparr>pbst_DataStreamStatus = DataStreamInvalid,
                         pbst_ErrorMessage = startup_message\<rparr>\<rparr>));
               case err of Some e \<Rightarrow> ret (Result0, Some e) | None \<Rightarrow> ret (Result0, None)
             }
             else ret (Result0, None)
       }))
   }"

end
