(* ===== verification/Operator.thy ===== *)
theory Operator
  imports Tailored_Profile_Correct Profile_Bundle Samples
begin

text \<open>
  How the operator is put together (\<open>cmd/manager/main.go\<close>, \<open>pkg/apis\<close>,
  \<open>pkg/controller\<close>): the scheme with the types of the API group, the namespaces it
  watches, the two controllers with their watches, and the requests that an event on a watched
  object leads to (\<open>vendor/.../handler/enqueue_owner.go\<close>).
\<close>

section \<open>The scheme\<close>

text \<open>What the \<open>init\<close> function of each types file registers.\<close>

definition register_Profile :: "go_type list" where
  "register_Profile = [T_Profile, T_ProfileList]"
definition register_ProfileBundle :: "go_type list" where
  "register_ProfileBundle = [T_ProfileBundle, T_ProfileBundleList]"
definition register_Rule :: "go_type list" where
  "register_Rule = [T_Rule, T_RuleList]"
definition register_TailoredProfile :: "go_type list" where
  "register_TailoredProfile = [T_TailoredProfile, T_TailoredProfileList]"
definition register_Variable :: "go_type list" where
  "register_Variable = [T_Variable, T_VariableList]"

text \<open>The builder's list, in the order in which Go runs the \<open>init\<close> functions.\<close>

definition registered_types :: "go_type list list" where
  "registered_types =
     [register_Profile, register_ProfileBundle, register_Rule, register_TailoredProfile,
      register_Variable]"

lemmas registrations = registered_types_def register_Profile_def register_ProfileBundle_def
  register_Rule_def register_TailoredProfile_def register_Variable_def

definition AddToScheme :: "scheme \<Rightarrow> scheme" where
  "AddToScheme s = fold (\<lambda>object s. AddKnownTypes s SchemeGroupVersion object) registered_types s"

definition operator_scheme :: scheme where
  "operator_scheme = AddToScheme []"

section \<open>The manager\<close>

record manager_options =
  mo_Namespace :: string
  mo_MetricsBindAddress :: string
  mo_MultiNamespace :: "string list option"

text \<open>A list of namespaces in the environment asks for a cache over all of them.\<close>

definition manager_options_for :: "string \<Rightarrow> manager_options" where
  "manager_options_for namespace =
     (let options = \<lparr>mo_Namespace = namespace, mo_MetricsBindAddress = ''0.0.0.0:8383'',
                     mo_MultiNamespace = None\<rparr>
      in if CHR '','' \<in> set namespace
         then options\<lparr>mo_Namespace := [], mo_MultiNamespace := Some (Split namespace (CHR '',''))\<rparr>
         else options)"

text \<open>The first controller that cannot be added ends the setup.\<close>

fun AddToManager :: "('m \<Rightarrow> go_error option \<times> 'm) list \<Rightarrow> 'm \<Rightarrow> go_error option \<times> 'm" where
  "AddToManager [] m = (None, m)"
| "AddToManager (f # fs) m =
     (case f m of (Some err, m') \<Rightarrow> (Some err, m') | (None, m') \<Rightarrow> AddToManager fs m')"

section \<open>Watches\<close>

datatype watched_kind = W_ProfileBundle | W_Pod | W_TailoredProfile | W_ConfigMap

text \<open>A watch enqueues the object itself, or the owner of a type (only the controller, or all).\<close>

datatype event_handler = EnqueueRequestForObject | EnqueueRequestForOwner bool go_type

text \<open>
  What a manager offers: the client and the scheme for reconcilers, a new controller around one,
  and a watch on a controller. The environment and the converter are what the methods of the
  reconcilers take from outside.
\<close>

datatype 'w reconciler =
    R_ProfileBundle "'w ReconcileProfileBundle"
  | R_TailoredProfile "'w ReconcileTailoredProfile"

record ('m, 'w) manager =
  m_GetClient :: "'m \<Rightarrow> 'w client"
  m_GetScheme :: "'m \<Rightarrow> scheme"
  m_New :: "string \<Rightarrow> 'w reconciler \<Rightarrow> 'm \<Rightarrow> go_error option \<times> 'm"
  m_Watch :: "string \<Rightarrow> watched_kind \<Rightarrow> event_handler \<Rightarrow> 'm \<Rightarrow> go_error option \<times> 'm"
  m_env :: go_env
  m_ToUnstructured :: "config_map \<Rightarrow> go_error + json"

definition profilebundle_newReconciler :: "('m, 'w) manager \<Rightarrow> 'm \<Rightarrow> 'w ReconcileProfileBundle" where
  "profilebundle_newReconciler mgr m =
     \<lparr>rpb_client = m_GetClient mgr m, rpb_scheme = m_GetScheme mgr m, rpb_env = m_env mgr\<rparr>"

definition profilebundle_add ::
  "('m, 'w) manager \<Rightarrow> 'w ReconcileProfileBundle \<Rightarrow> 'm \<Rightarrow> go_error option \<times> 'm" where
  "profilebundle_add mgr r m =
     (case m_New mgr ''profilebundle-controller'' (R_ProfileBundle r) m of
        (Some err, m) \<Rightarrow> (Some err, m)
      | (None, m) \<Rightarrow>
     (case m_Watch mgr ''profilebundle-controller'' W_ProfileBundle EnqueueRequestForObject m of
        (Some err, m) \<Rightarrow> (Some err, m)
      | (None, m) \<Rightarrow>
     (case m_Watch mgr ''profilebundle-controller'' W_Pod
             (EnqueueRequestForOwner True T_ProfileBundle) m of
        (Some err, m) \<Rightarrow> (Some err, m)
      | (None, m) \<Rightarrow> (None, m))))"

definition profilebundle_Add :: "('m, 'w) manager \<Rightarrow> 'm \<Rightarrow> go_error option \<times> 'm" where
  "profilebundle_Add mgr m = profilebundle_add mgr (profilebundle_newReconciler mgr m) m"

definition tailoredprofile_newReconciler :: "('m, 'w) manager \<Rightarrow> 'm \<Rightarrow> 'w ReconcileTailoredProfile" where
  "tailoredprofile_newReconciler mgr m =
     \<lparr>rtp_client = m_GetClient mgr m, rtp_scheme = m_GetScheme mgr m, rtp_env = m_env mgr,
      rtp_ToUnstructured = m_ToUnstructured mgr\<rparr>"

definition tailoredprofile_add ::
  "('m, 'w) manager \<Rightarrow> 'w ReconcileTailoredProfile \<Rightarrow> 'm \<Rightarrow> go_error option \<times> 'm" where
  "tailoredprofile_add mgr r m =
     (case m_New mgr ''tailoredprofile-controller'' (R_TailoredProfile r) m of
        (Some err, m) \<Rightarrow> (Some err, m)
      | (None, m) \<Rightarrow>
     (case m_Watch mgr ''tailoredprofile-controller'' W_TailoredProfile EnqueueRequestForObject m of
        (Some err, m) \<Rightarrow> (Some err, m)
      | (None, m) \<Rightarrow>
     (case m_Watch mgr ''tailoredprofile-controller'' W_ConfigMap
             (EnqueueRequestForOwner True T_TailoredProfile) m of
        (Some err, m) \<Rightarrow> (Some err, m)
      | (None, m) \<Rightarrow> (None, m))))"

definition tailoredprofile_Add :: "('m, 'w) manager \<Rightarrow> 'm \<Rightarrow> go_error option \<times> 'm" where
  "tailoredprofile_Add mgr m = tailoredprofile_add mgr (tailoredprofile_newReconciler mgr m) m"

definition AddToManagerFuncs :: "('m, 'w) manager \<Rightarrow> ('m \<Rightarrow> go_error option \<times> 'm) list" where
  "AddToManagerFuncs mgr = [profilebundle_Add mgr, tailoredprofile_Add mgr]"

section \<open>From events to requests\<close>

text \<open>
  The owner handler: the references it looks at, and one request for each that names the owner
  type. Whether a kind is namespaced is what the REST mapper says; any error gives no request.
\<close>

definition getOwnersReferences :: "bool \<Rightarrow> object_meta \<Rightarrow> owner_reference list" where
  "getOwnersReferences isController object =
     (if \<not> isController then om_OwnerReferences object
      else case GetControllerOf object of Some ref \<Rightarrow> [ref] | None \<Rightarrow> [])"

fun owner_requests ::
  "(string \<Rightarrow> string \<Rightarrow> go_error + bool) \<Rightarrow> gvk \<Rightarrow> string \<Rightarrow> owner_reference list
   \<Rightarrow> nsname list \<Rightarrow> nsname list" where
  "owner_requests mapper k ns [] result = result"
| "owner_requests mapper k ns (ref # refs) result =
     (case ParseGroupVersion (or_APIVersion ref) of
        Inl err \<Rightarrow> []
      | Inr refGV \<Rightarrow>
          if or_Kind ref = gvk_Kind k \<and> gv_Group refGV = gv_Group (gvk_GroupVersion k) then
            (case mapper (gvk_Kind k) (gv_Version refGV) of
               Inl err \<Rightarrow> []
             | Inr namespaced \<Rightarrow>
                 owner_requests mapper k ns refs
                   (result @ [nsn (if namespaced then ns else []) (or_Name ref)]))
          else owner_requests mapper k ns refs result)"

definition getOwnerReconcileRequest ::
  "(string \<Rightarrow> string \<Rightarrow> go_error + bool) \<Rightarrow> gvk \<Rightarrow> bool \<Rightarrow> object_meta \<Rightarrow> nsname list" where
  "getOwnerReconcileRequest mapper k isController object =
     owner_requests mapper k (om_Namespace object) (getOwnersReferences isController object) []"

section \<open>Correctness\<close>

lemma operator_scheme_eq:
  "operator_scheme = map (\<lambda>t. (t, \<lparr>gvk_GroupVersion = SchemeGroupVersion, gvk_Kind = type_name t\<rparr>))
     (concat registered_types)"
  by (simp add: operator_scheme_def AddToScheme_def registrations AddKnownTypes_def)

text \<open>
  In the scheme of the operator every registered type has exactly one kind, named after
  the type, in the group and version of the API; none is refused as unknown or ambiguous.
\<close>

theorem operator_scheme_kinds:
  "list_all (\<lambda>t. GVKForObject t operator_scheme
       = Inr \<lparr>gvk_GroupVersion = SchemeGroupVersion, gvk_Kind = type_name t\<rparr>) (concat registered_types)"
  by (simp add: operator_scheme_eq) (simp add: registrations GVKForObject_def ObjectKinds_def)

text \<open>
  The namespaces the operator watches are those of the environment: joined with commas
  they give back the text, and none of them holds a comma.
\<close>

theorem watched_namespaces:
  "let o1 = manager_options_for namespace;
       watched = (case mo_MultiNamespace o1 of Some nss \<Rightarrow> nss | None \<Rightarrow> [mo_Namespace o1])
   in Join watched '','' = namespace \<and> list_all (\<lambda>ns. CHR '','' \<notin> set ns) watched"
  using Join_Split [of namespace "CHR '',''"] Split_no_sep [of _ namespace "CHR '',''"]
  by (auto simp: manager_options_for_def Let_def list_all_iff)

text \<open>The reference a controller leaves on an object leads back to the controller's object.\<close>

lemma request_for_controller:
  assumes "GVKForObject t sch = Inr k" and "gvk_GroupVersion k = SchemeGroupVersion"
    and "mapper (gvk_Kind k) ''v1alpha1'' = Inr True"
    and "SetControllerReference t owner object sch = Inr object'"
    and "om_OwnerReferences object = []" and "om_Namespace owner = om_Namespace object"
  shows "getOwnerReconcileRequest mapper k True object' = [key_of owner]"
proof -
  from SetControllerReference_Inr [OF assms(4)] assms(1,5) have
    obj: "om_OwnerReferences object' = [\<lparr>or_APIVersion = gv_String (gvk_GroupVersion k),
      or_Kind = gvk_Kind k, or_Name = om_Name owner, or_UID = om_UID owner,
      or_Controller = Some True, or_BlockOwnerDeletion = Some True\<rparr>]"
    "om_Namespace object' = om_Namespace object"
    by (auto simp: upsertOwnerRef_def Let_def)
  have "ParseGroupVersion (gv_String SchemeGroupVersion) = Inr SchemeGroupVersion"
    by (simp add: ParseGroupVersion_def gv_String_def SchemeGroupVersion_def)
  with assms(2,3,6) obj show ?thesis
    by (simp add: getOwnerReconcileRequest_def getOwnersReferences_def GetControllerOf_def key_of_def
        SchemeGroupVersion_def)
qed

text \<open>
  C28: an event on an object the operator created wakes up the reconciler of the right
  instance: the Pod of a bundle leads to a request for that bundle, the ConfigMap of a
  TailoredProfile to a request for that TailoredProfile. The API server must serve both kinds
  as namespaced.
\<close>

theorem created_objects_wake_owner:
  assumes "mapper ''ProfileBundle'' ''v1alpha1'' = Inr True"
    and "mapper ''TailoredProfile'' ''v1alpha1'' = Inr True"
    and "GVKForObject T_ProfileBundle operator_scheme = Inr kb"
    and "GVKForObject T_TailoredProfile operator_scheme = Inr kt"
    and "SetControllerReference T_ProfileBundle (pb_Meta pb) (pod_Meta (newPodForBundle env pb))
      operator_scheme = Inr pod_meta"
    and "SetControllerReference T_TailoredProfile (tp_Meta tp) (cm_Meta (newTailoredProfileCM tp))
      operator_scheme = Inr cm_meta"
  shows "getOwnerReconcileRequest mapper kb True pod_meta = [key_of (pb_Meta pb)]
    \<and> getOwnerReconcileRequest mapper kt True cm_meta = [key_of (tp_Meta tp)]"
proof -
  have "kb = \<lparr>gvk_GroupVersion = SchemeGroupVersion, gvk_Kind = ''ProfileBundle''\<rparr>"
    "kt = \<lparr>gvk_GroupVersion = SchemeGroupVersion, gvk_Kind = ''TailoredProfile''\<rparr>"
    using assms(3,4) by (simp_all add: operator_scheme_eq registrations GVKForObject_def ObjectKinds_def)
  moreover have "om_OwnerReferences (pod_Meta (newPodForBundle env pb)) = []"
    "om_Namespace (pb_Meta pb) = om_Namespace (pod_Meta (newPodForBundle env pb))"
    "om_OwnerReferences (cm_Meta (newTailoredProfileCM tp)) = []"
    "om_Namespace (tp_Meta tp) = om_Namespace (cm_Meta (newTailoredProfileCM tp))"
    by (simp_all add: newPodForBundle_def newTailoredProfileCM_def zero_meta_def)
  ultimately show ?thesis
    using request_for_controller [OF assms(3) _ _ assms(5)] request_for_controller [OF assms(4) _ _ assms(6)]
      assms(1,2) by simp
qed

theorem created_objects_wake_owner_witness:
  "\<exists>kb m. SetControllerReference T_ProfileBundle (pb_Meta ex_bundle)
       (pod_Meta (newPodForBundle ex_env ex_bundle)) operator_scheme = Inr m
     \<and> getOwnerReconcileRequest (\<lambda>_ _. Inr True) kb True m = [nsn ''ns'' ''rhcos'']"
proof -
  obtain kb kt where g: "GVKForObject T_ProfileBundle operator_scheme = Inr kb"
    "GVKForObject T_TailoredProfile operator_scheme = Inr kt"
    by (simp add: operator_scheme_eq registrations GVKForObject_def ObjectKinds_def)
  have "om_Namespace (pb_Meta ex_bundle) = om_Namespace (pod_Meta (newPodForBundle ex_env ex_bundle))"
    "om_OwnerReferences (pod_Meta (newPodForBundle ex_env ex_bundle)) = []"
    "om_Namespace (tp_Meta ex_request) = om_Namespace (cm_Meta (newTailoredProfileCM ex_request))"
    "om_OwnerReferences (cm_Meta (newTailoredProfileCM ex_request)) = []"
    by (simp_all add: newPodForBundle_def newTailoredProfileCM_def zero_meta_def)
  with SetControllerReference_fresh [OF _ _ g(1)] SetControllerReference_fresh [OF _ _ g(2)]
  obtain m1 m2 where m: "SetControllerReference T_ProfileBundle (pb_Meta ex_bundle)
      (pod_Meta (newPodForBundle ex_env ex_bundle)) operator_scheme = Inr m1"
    "SetControllerReference T_TailoredProfile (tp_Meta ex_request)
      (cm_Meta (newTailoredProfileCM ex_request)) operator_scheme = Inr m2" by blast
  from created_objects_wake_owner [OF _ _ g m, of "\<lambda>_ _. Inr True"] m(1) show ?thesis
    by (auto simp: key_of_def ex_bundle_def ex_meta_def zero_meta_def)
qed

end
