(* ===== verification/Go_Flags.thy ===== *)
theory Go_Flags
  imports Go_Prelude
begin

text \<open>
  Command-line flags as \<open>github.com/spf13/pflag\<close> reads them: the string flags a program
  declares, and, as a parameter, what the flag sets of the libraries make of any other flag.
\<close>

section \<open>How a process ends\<close>

text \<open>
  \<open>os.Exit\<close> and a panic end the process at once; a return of \<open>main\<close> is an exit with
  code 0.
\<close>

datatype process_end = Exit nat | Panic go_panic

section \<open>Parsing\<close>

text \<open>Everything before the first equals sign, and what follows it.\<close>

fun cut_at :: "char \<Rightarrow> string \<Rightarrow> string \<times> string option" where
  "cut_at sep [] = ([], None)"
| "cut_at sep (c # cs) = (if c = sep then ([], Some cs) else apfst ((#) c) (cut_at sep cs))"

text \<open>
  \<open>parseArgs\<close>: arguments that are no flags are skipped, two hyphens end the flags, a long flag
  takes the text after its equals sign or the next argument, whatever it looks like. A flag the
  program did not declare goes to \<open>other\<close>, with the arguments after it; the answer ends the
  process, or says whether the next argument was used up. Parse errors exit with code 2.
\<close>

fun parse_args ::
  "string set \<Rightarrow> (string \<Rightarrow> string list \<Rightarrow> process_end + bool) \<Rightarrow> string list \<Rightarrow> (string \<rightharpoonup> string)
   \<Rightarrow> process_end + (string \<rightharpoonup> string)" where
  "parse_args formal other [] vals = Inr vals"
| "parse_args formal other (s # args) vals =
     (if s = [] \<or> hd s \<noteq> CHR ''-'' \<or> length s = 1 then parse_args formal other args vals
      else if s ! 1 = CHR ''-'' \<and> length s = 2 then Inr vals
      else if s ! 1 = CHR ''-'' \<and> (s ! 2 = CHR ''-'' \<or> s ! 2 = CHR ''='') then Inl (Exit 2)
      else if s ! 1 = CHR ''-'' \<and> fst (cut_at (CHR ''='') (drop 2 s)) \<in> formal then
        (case cut_at (CHR ''='') (drop 2 s) of
           (name, Some val) \<Rightarrow> parse_args formal other args (vals(name \<mapsto> val))
         | (name, None) \<Rightarrow>
             (case args of
                [] \<Rightarrow> Inl (Exit 2)
              | a # rest \<Rightarrow> parse_args formal other rest (vals(name \<mapsto> a))))
      else
        (case other s args of
           Inl e \<Rightarrow> Inl e
         | Inr uses_next \<Rightarrow> parse_args formal other (if uses_next then tl args else args) vals))"

definition flag_value :: "(string \<rightharpoonup> string) \<Rightarrow> string \<Rightarrow> string \<Rightarrow> string" where
  "flag_value vals name dflt = (case vals name of None \<Rightarrow> dflt | Some v \<Rightarrow> v)"

section \<open>Flags with separate values\<close>

lemma cut_at_None: "sep \<notin> set s \<Longrightarrow> cut_at sep s = (s, None)"
  by (induction s) auto

lemma parse_args_flag:
  assumes "name \<in> formal" and "name \<noteq> []" and "CHR ''='' \<notin> set name" and "hd name \<noteq> CHR ''-''"
  shows "parse_args formal other ((''--'' @ name) # v # args) vals
    = parse_args formal other args (vals(name \<mapsto> v))"
  using assms by (cases name) (auto simp: cut_at_None)

end
