(* ===== verification/Manager_Main.thy ===== *)
theory Manager_Main
  imports Operator Go_Flags
begin

text \<open>
  The program of the operator (\<open>cmd/manager/main.go\<close>): the steps that set it up, in their
  order, and the metrics on the side. Every library the steps call is a field of a record; the
  calls made, and whether each one succeeded, are recorded.
\<close>

section \<open>The calls\<close>

record service_port =
  sp_Port :: nat
  sp_Name :: string
  sp_Protocol :: string
  sp_TargetPort :: nat

datatype manager_call =
    C_GetWatchNamespace
  | C_GetConfig
  | C_BecomeLeader string
  | C_NewManager manager_options
  | C_AddToScheme
  | C_AddToManager
  | C_GetOperatorNamespace
  | C_GetGVKs
  | C_GetNamespacesForMetrics string
  | C_ServeMetrics "string list" string nat
  | C_CreateService "service_port list"
  | C_CreateServiceMonitors string
  | C_Start

text \<open>The kinds, the configuration and the metrics service are only passed on.\<close>

record ('m, 'w, 'c, 'g, 's) manager_libs =
  ml_GetWatchNamespace :: "'m \<Rightarrow> (go_error + string) \<times> 'm"
  ml_GetConfig :: "'m \<Rightarrow> (go_error + 'c) \<times> 'm"
  ml_BecomeLeader :: "string \<Rightarrow> 'm \<Rightarrow> go_error option \<times> 'm"
  ml_NewManager :: "'c \<Rightarrow> manager_options \<Rightarrow> 'm \<Rightarrow> go_error option \<times> 'm"
  ml_UpdateScheme :: "(scheme \<Rightarrow> scheme) \<Rightarrow> 'm \<Rightarrow> go_error option \<times> 'm"
  ml_Manager :: "('m, 'w) manager"
  ml_Start :: "'m \<Rightarrow> go_error option \<times> 'm"
  ml_GetOperatorNamespace :: "'m \<Rightarrow> (go_error + string) \<times> 'm"
  ml_IsErrRunLocal :: "go_error \<Rightarrow> bool"
  ml_GetGVKs :: "(scheme \<Rightarrow> scheme) \<Rightarrow> 'm \<Rightarrow> (go_error + 'g) \<times> 'm"
  ml_GetNamespacesForMetrics :: "string \<Rightarrow> 'm \<Rightarrow> (go_error + string list) \<times> 'm"
  ml_ServeMetrics :: "'c \<Rightarrow> string list \<Rightarrow> 'g \<Rightarrow> string \<Rightarrow> nat \<Rightarrow> 'm \<Rightarrow> go_error option \<times> 'm"
  ml_CreateService :: "'c \<Rightarrow> service_port list \<Rightarrow> 'm \<Rightarrow> (go_error + 's option) \<times> 'm"
  ml_CreateServiceMonitors :: "'c \<Rightarrow> string \<Rightarrow> 's option \<Rightarrow> 'm \<Rightarrow> go_error option \<times> 'm"

record 'm manager_world =
  mw_state :: 'm
  mw_calls :: "(manager_call \<times> bool) list"

text \<open>A call with a result, and one with an error only.\<close>

definition call ::
  "manager_call \<Rightarrow> ('m \<Rightarrow> (go_error + 'a) \<times> 'm) \<Rightarrow> ('m manager_world, go_error + 'a) state" where
  "call c f = State (\<lambda>s. case f (mw_state s) of (r, m) \<Rightarrow>
     (r, \<lparr>mw_state = m, mw_calls = mw_calls s @ [(c, \<exists>x. r = Inr x)]\<rparr>))"

definition attempt :: "manager_call \<Rightarrow> ('m \<Rightarrow> go_error option \<times> 'm) \<Rightarrow> ('m manager_world, go_error option) state" where
  "attempt c f = State (\<lambda>s. case f (mw_state s) of (e, m) \<Rightarrow>
     (e, \<lparr>mw_state = m, mw_calls = mw_calls s @ [(c, e = None)]\<rparr>))"

section \<open>Metrics\<close>

definition metricsHost :: string where "metricsHost = ''0.0.0.0''"
definition metricsPort :: nat where "metricsPort = 8383"
definition operatorMetricsPort :: nat where "operatorMetricsPort = 8686"

definition serveCRMetrics ::
  "('m, 'w, 'c, 'g, 's) manager_libs \<Rightarrow> 'c \<Rightarrow> string \<Rightarrow> ('m manager_world, go_error option) state" where
  "serveCRMetrics libs cfg operatorNs = do {
     got \<leftarrow> call C_GetGVKs (ml_GetGVKs libs AddToScheme);
     case got of Inl err \<Rightarrow> ret (Some err) | Inr filteredGVK \<Rightarrow> do {
     got \<leftarrow> call (C_GetNamespacesForMetrics operatorNs) (ml_GetNamespacesForMetrics libs operatorNs);
     case got of Inl err \<Rightarrow> ret (Some err) | Inr ns \<Rightarrow> do {
     err \<leftarrow> attempt (C_ServeMetrics ns metricsHost operatorMetricsPort)
              (ml_ServeMetrics libs cfg ns filteredGVK metricsHost operatorMetricsPort);
     case err of Some e \<Rightarrow> ret (Some e) | None \<Rightarrow> ret None
     }}
   }"

definition servicePorts :: "service_port list" where
  "servicePorts =
     [\<lparr>sp_Port = metricsPort, sp_Name = ''http-metrics'', sp_Protocol = ''TCP'', sp_TargetPort = metricsPort\<rparr>,
      \<lparr>sp_Port = operatorMetricsPort, sp_Name = ''cr-metrics'', sp_Protocol = ''TCP'',
       sp_TargetPort = operatorMetricsPort\<rparr>]"

text \<open>
  Outside of a cluster there are no metrics; any other error in finding the namespace leaves it
  empty. The errors of the other steps are logged. A service that could not be created
  is nil, and is passed on all the same.
\<close>

definition addMetrics ::
  "('m, 'w, 'c, 'g, 's) manager_libs \<Rightarrow> 'c \<Rightarrow> ('m manager_world, unit) state" where
  "addMetrics libs cfg = do {
     got \<leftarrow> call C_GetOperatorNamespace (ml_GetOperatorNamespace libs);
     if (case got of Inl err \<Rightarrow> ml_IsErrRunLocal libs err | Inr _ \<Rightarrow> False) then ret ()
     else do {
       let operatorNs = (case got of Inl err \<Rightarrow> [] | Inr ns \<Rightarrow> ns);
       _ \<leftarrow> serveCRMetrics libs cfg operatorNs;
       service \<leftarrow> call (C_CreateService servicePorts) (ml_CreateService libs cfg servicePorts);
       _ \<leftarrow> attempt (C_CreateServiceMonitors operatorNs) (ml_CreateServiceMonitors libs cfg operatorNs
              (case service of Inl err \<Rightarrow> None | Inr s \<Rightarrow> s));
       ret ()
     }
   }"

section \<open>main\<close>

definition leader_lock :: string where "leader_lock = ''compliance-profile-operator-lock''"

definition manager_main ::
  "('m, 'w, 'c, 'g, 's) manager_libs \<Rightarrow> ('m manager_world, process_end) state" where
  "manager_main libs = do {
     got \<leftarrow> call C_GetWatchNamespace (ml_GetWatchNamespace libs);
     case got of Inl err \<Rightarrow> ret (Exit 1) | Inr namespace \<Rightarrow> do {
     got \<leftarrow> call C_GetConfig (ml_GetConfig libs);
     case got of Inl err \<Rightarrow> ret (Exit 1) | Inr cfg \<Rightarrow> do {
     err \<leftarrow> attempt (C_BecomeLeader leader_lock) (ml_BecomeLeader libs leader_lock);
     case err of Some e \<Rightarrow> ret (Exit 1) | None \<Rightarrow> do {
     let options = manager_options_for namespace;
     err \<leftarrow> attempt (C_NewManager options) (ml_NewManager libs cfg options);
     case err of Some e \<Rightarrow> ret (Exit 1) | None \<Rightarrow> do {
     err \<leftarrow> attempt C_AddToScheme (ml_UpdateScheme libs AddToScheme);
     case err of Some e \<Rightarrow> ret (Exit 1) | None \<Rightarrow> do {
     err \<leftarrow> attempt C_AddToManager (AddToManager (AddToManagerFuncs (ml_Manager libs)));
     case err of Some e \<Rightarrow> ret (Exit 1) | None \<Rightarrow> do {
     _ \<leftarrow> addMetrics libs cfg;
     err \<leftarrow> attempt C_Start (ml_Start libs);
     case err of Some e \<Rightarrow> ret (Exit 1) | None \<Rightarrow> ret (Exit 0)
     }}}}}}
   }"

text \<open>
  The start of the process: it declares no flags of its own, those of the logging library and of
  imported packages are the parameter \<open>other\<close>; a bad command line ends it.
\<close>

definition manager_process ::
  "(string \<Rightarrow> string list \<Rightarrow> process_end + bool) \<Rightarrow> string list \<Rightarrow> ('m, 'w, 'c, 'g, 's) manager_libs
   \<Rightarrow> ('m manager_world, process_end) state" where
  "manager_process other args libs =
     (case parse_args {} other args Map.empty of
        Inl e \<Rightarrow> ret e
      | Inr flags \<Rightarrow> manager_main libs)"

section \<open>What the program guarantees\<close>

text \<open>The steps before the metrics, in order, for a value of the watch namespace.\<close>

definition ready_calls :: "string \<Rightarrow> manager_call list" where
  "ready_calls ns = [C_GetWatchNamespace, C_GetConfig, C_BecomeLeader leader_lock,
     C_NewManager (manager_options_for ns), C_AddToScheme, C_AddToManager]"

definition metrics_call :: "manager_call \<Rightarrow> bool" where
  "metrics_call c \<longleftrightarrow> c \<notin> {C_GetWatchNamespace, C_GetConfig, C_AddToScheme, C_AddToManager, C_Start}
     \<and> (\<forall>l. c \<noteq> C_BecomeLeader l) \<and> (\<forall>options. c \<noteq> C_NewManager options)"

text \<open>
  Either one of these steps failed, after those before it, and it was the last call; or all of
  them succeeded, and after the calls for the metrics the manager was started.
\<close>

definition setup_outcome :: "string \<Rightarrow> process_end \<Rightarrow> (manager_call \<times> bool) list \<Rightarrow> bool" where
  "setup_outcome ns out cs \<longleftrightarrow>
     (\<exists>k < 6. cs = map (\<lambda>c. (c, True)) (take k (ready_calls ns)) @ [(ready_calls ns ! k, False)] \<and> out = Exit 1)
   \<or> (\<exists>ms ok. cs = map (\<lambda>c. (c, True)) (ready_calls ns) @ ms @ [(C_Start, ok)]
        \<and> list_all (metrics_call \<circ> fst) ms \<and> out = (if ok then Exit 0 else Exit 1))"

lemma run_call [go_run]:
  "run_state (call c f) s = (fst (f (mw_state s)),
     \<lparr>mw_state = snd (f (mw_state s)), mw_calls = mw_calls s @ [(c, \<exists>x. fst (f (mw_state s)) = Inr x)]\<rparr>)"
  "run_state (attempt c g) s = (fst (g (mw_state s)),
     \<lparr>mw_state = snd (g (mw_state s)), mw_calls = mw_calls s @ [(c, fst (g (mw_state s)) = None)]\<rparr>)"
  by (simp_all add: call_def attempt_def split: prod.split)

text \<open>\<open>logs m Q\<close>: the calls that \<open>m\<close> adds to the record, and its result, satisfy \<open>Q\<close>.\<close>

definition logs :: "('m manager_world, 'a) state \<Rightarrow> ('a \<Rightarrow> (manager_call \<times> bool) list \<Rightarrow> bool) \<Rightarrow> bool" where
  "logs m Q \<longleftrightarrow> (\<forall>s. \<exists>cs. mw_calls (snd (run_state m s)) = mw_calls s @ cs \<and> Q (fst (run_state m s)) cs)"

lemma logs_ret: "Q a [] \<Longrightarrow> logs (ret a) Q"
  by (simp add: logs_def)

lemma logs_bind: "logs m (\<lambda>a cs. logs (f a) (\<lambda>b cs'. Q b (cs @ cs'))) \<Longrightarrow> logs (State_Monad.bind m f) Q"
  unfolding logs_def by (simp add: split_beta) (metis append.assoc)

lemma logs_mono: "logs m P \<Longrightarrow> (\<And>a cs. P a cs \<Longrightarrow> Q a cs) \<Longrightarrow> logs m Q"
  unfolding logs_def by meson

lemma logs_call: "(\<And>r. Q r [(c, \<exists>x. r = Inr x)]) \<Longrightarrow> logs (call c f) Q"
  by (simp add: logs_def go_run)

lemma logs_attempt: "(\<And>e. Q e [(c, e = None)]) \<Longrightarrow> logs (attempt c g) Q"
  by (simp add: logs_def go_run)

lemma logs_addMetrics: "logs (addMetrics libs cfg) (\<lambda>_ cs. list_all (metrics_call \<circ> fst) cs)"
  unfolding addMetrics_def serveCRMetrics_def Let_def
  by (auto intro!: logs_bind logs_call logs_attempt logs_ret simp: metrics_call_def split: sum.split option.split)

lemma setup_outcome_failed:
  "k < 6 \<Longrightarrow> cs = map (\<lambda>c. (c, True)) (take k (ready_calls ns)) @ [(ready_calls ns ! k, False)]
    \<Longrightarrow> setup_outcome ns (Exit 1) cs"
  unfolding setup_outcome_def by blast

lemma setup_outcome_start:
  "list_all (metrics_call \<circ> fst) ms \<Longrightarrow> cs = map (\<lambda>c. (c, True)) (ready_calls ns) @ ms @ [(C_Start, ok)]
    \<Longrightarrow> setup_outcome ns (if ok then Exit 0 else Exit 1) cs"
  unfolding setup_outcome_def by blast

lemma logs_start:
  "logs (do {
     _ \<leftarrow> addMetrics libs cfg;
     err \<leftarrow> attempt C_Start (ml_Start libs);
     case err of Some e \<Rightarrow> ret (Exit 1) | None \<Rightarrow> ret (Exit 0)
   }) (\<lambda>out cs. setup_outcome ns out (map (\<lambda>c. (c, True)) (ready_calls ns) @ cs))"
proof (rule logs_bind, rule logs_mono [OF logs_addMetrics], rule logs_bind, rule logs_attempt)
  fix cs e
  assume "list_all (metrics_call \<circ> fst) (cs :: (manager_call \<times> bool) list)"
  note started = setup_outcome_start [OF this refl, of ns]
  show "logs (case e of Some e \<Rightarrow> ret (Exit 1) | None \<Rightarrow> ret (Exit 0))
      (\<lambda>out cs'. setup_outcome ns out
        (map (\<lambda>c. (c, True)) (ready_calls ns) @ cs @ [(C_Start, e = None)] @ cs'))"
    using started [of True] started [of False] by (cases e) (auto intro!: logs_ret)
qed

text \<open>A setup step that fails ends the process.\<close>

lemma logs_setup_call:
  assumes "Q (Exit 1) [(c, False)]" and "\<And>x. logs (m x) (\<lambda>out cs. Q out ((c, True) # cs))"
  shows "logs (State_Monad.bind (call c f) (\<lambda>got. case got of Inl err \<Rightarrow> ret (Exit 1) | Inr x \<Rightarrow> m x)) Q"
proof (rule logs_bind, rule logs_call)
  fix r
  show "logs (case r of Inl err \<Rightarrow> ret (Exit 1) | Inr x \<Rightarrow> m x) (\<lambda>out cs. Q out ([(c, \<exists>x. r = Inr x)] @ cs))"
    using assms by (cases r) (auto intro!: logs_ret)
qed

lemma logs_setup_attempt:
  assumes "Q (Exit 1) [(c, False)]" and "logs m (\<lambda>out cs. Q out ((c, True) # cs))"
  shows "logs (State_Monad.bind (attempt c g) (\<lambda>err. case err of None \<Rightarrow> m | Some e \<Rightarrow> ret (Exit 1))) Q"
proof (rule logs_bind, rule logs_attempt)
  fix e
  show "logs (case e of None \<Rightarrow> m | Some e \<Rightarrow> ret (Exit 1)) (\<lambda>out cs. Q out ([(c, e = None)] @ cs))"
    using assms by (cases e) (auto intro!: logs_ret)
qed

text \<open>The first step, from a known state.\<close>

lemma logs_first:
  assumes "\<And>e. fst (f (mw_state s)) = Inl e \<Longrightarrow> Q (Exit 1) [(c, False)]"
    and "\<And>x. fst (f (mw_state s)) = Inr x \<Longrightarrow> logs (m x) (\<lambda>out cs. Q out ((c, True) # cs))"
    and "run = run_state (State_Monad.bind (call c f) (\<lambda>got. case got of Inl err \<Rightarrow> ret (Exit 1) | Inr x \<Rightarrow> m x)) s"
  shows "\<exists>cs. mw_calls (snd run) = mw_calls s @ cs \<and> Q (fst run) cs"
proof (cases "fst (f (mw_state s))")
  case (Inl e)
  then show ?thesis using assms(1,3) by (simp add: go_run)
next
  case (Inr x)
  define s' where "s' = \<lparr>mw_state = snd (f (mw_state s)), mw_calls = mw_calls s @ [(c, True)]\<rparr>"
  have "run = run_state (m x) s'"
    using assms(3) Inr by (simp add: go_run s'_def)
  with assms(2) [OF Inr] show ?thesis
    unfolding logs_def by (metis append.assoc append_Cons append_Nil s'_def manager_world.select_convs(2))
qed

lemmas setup_steps = setup_outcome_failed [where k = 0] setup_outcome_failed [where k = 1]
  setup_outcome_failed [where k = 2] setup_outcome_failed [where k = 3]
  setup_outcome_failed [where k = 4] setup_outcome_failed [where k = 5]

text \<open>The namespaces to watch, as the environment of the process gives them.\<close>

definition watch_namespace :: "('m, 'w, 'c, 'g, 's) manager_libs \<Rightarrow> 'm \<Rightarrow> string" where
  "watch_namespace libs m = (case fst (ml_GetWatchNamespace libs m) of Inl _ \<Rightarrow> [] | Inr ns \<Rightarrow> ns)"

lemma manager_main_outcome:
  "\<exists>cs. mw_calls (snd (run_state (manager_main libs) s)) = mw_calls s @ cs
     \<and> setup_outcome (watch_namespace libs (mw_state s)) (fst (run_state (manager_main libs) s)) cs"
proof (rule logs_first [OF _ _ arg_cong [where f = "\<lambda>m. run_state m s", OF manager_main_def]])
  show "setup_outcome (watch_namespace libs (mw_state s)) (Exit 1) [(C_GetWatchNamespace, False)]"
    by (rule setup_steps(1)) (simp_all add: ready_calls_def)
next
  fix ns
  assume "fst (ml_GetWatchNamespace libs (mw_state s)) = Inr ns"
  then have ns: "watch_namespace libs (mw_state s) = ns" by (simp add: watch_namespace_def)
  let ?Q = "\<lambda>out cs. setup_outcome ns out cs"
  show "logs (do {
     got \<leftarrow> call C_GetConfig (ml_GetConfig libs);
     case got of Inl err \<Rightarrow> ret (Exit 1) | Inr cfg \<Rightarrow> do {
     err \<leftarrow> attempt (C_BecomeLeader leader_lock) (ml_BecomeLeader libs leader_lock);
     case err of Some e \<Rightarrow> ret (Exit 1) | None \<Rightarrow> do {
     let options = manager_options_for ns;
     err \<leftarrow> attempt (C_NewManager options) (ml_NewManager libs cfg options);
     case err of Some e \<Rightarrow> ret (Exit 1) | None \<Rightarrow> do {
     err \<leftarrow> attempt C_AddToScheme (ml_UpdateScheme libs AddToScheme);
     case err of Some e \<Rightarrow> ret (Exit 1) | None \<Rightarrow> do {
     err \<leftarrow> attempt C_AddToManager (AddToManager (AddToManagerFuncs (ml_Manager libs)));
     case err of Some e \<Rightarrow> ret (Exit 1) | None \<Rightarrow> do {
     _ \<leftarrow> addMetrics libs cfg;
     err \<leftarrow> attempt C_Start (ml_Start libs);
     case err of Some e \<Rightarrow> ret (Exit 1) | None \<Rightarrow> ret (Exit 0)
     }}}}}})
     (\<lambda>out cs. setup_outcome (watch_namespace libs (mw_state s)) out ((C_GetWatchNamespace, True) # cs))"
    unfolding Let_def ns
  proof (intro logs_setup_call logs_setup_attempt)
    show "logs (do {
       _ \<leftarrow> addMetrics libs cfg;
       err \<leftarrow> attempt C_Start (ml_Start libs);
       case err of Some e \<Rightarrow> ret (Exit 1) | None \<Rightarrow> ret (Exit 0)
      }) (\<lambda>out cs. setup_outcome ns out ((C_GetWatchNamespace, True) # (C_GetConfig, True)
       # (C_BecomeLeader leader_lock, True) # (C_NewManager (manager_options_for ns), True)
       # (C_AddToScheme, True) # (C_AddToManager, True) # cs))" for cfg
      by (rule logs_mono [OF logs_start]) (auto simp: ready_calls_def)
  qed (rule setup_steps(2-6); simp add: ready_calls_def; fail)+
qed

text \<open>
  C20: a command line with a bad flag ends the operator before it calls anything. Otherwise it is
  set up in a fixed order and stops with code 1 at the first step that fails; it starts only as the
  leader, with a manager for the namespaces of its environment, the registered types and both
  controllers. The calls for the metrics come between the setup and the start and never prevent it;
  the process ends with code 0 exactly when the manager returns without an error.
\<close>

theorem manager_setup_order:
  "\<exists>cs. mw_calls (snd (run_state (manager_process other args libs) s)) = mw_calls s @ cs
     \<and> (case parse_args {} other args Map.empty of
          Inl e \<Rightarrow> cs = [] \<and> fst (run_state (manager_process other args libs) s) = e
        | Inr flags \<Rightarrow> setup_outcome (watch_namespace libs (mw_state s))
            (fst (run_state (manager_process other args libs) s)) cs)"
  using manager_main_outcome [of libs s] by (auto simp: manager_process_def split: sum.split)

end
