(* ===== verification/Xmldom.thy ===== *)
theory Xmldom
  imports Go_Xml
begin

text \<open>
  The DOM of the data stream (\<open>vendor/github.com/subchen/go-xmldom\<close>): a tree that the
  program only reads, so the parent and document pointers of a node are left out. The tree is
  built in \<open>Xmldom_Parse\<close>.
\<close>

datatype node =
  Node (nd_Name: string) (nd_Attributes: "(string \<times> string) list")
       (nd_Children: "node list") (nd_Text: string)

text \<open>The root pointer stays nil when the input holds no element.\<close>

record document =
  doc_ProcInst :: string
  doc_Directives :: "string list"
  doc_Root :: "node option"

definition GetAttribute :: "node \<Rightarrow> string \<Rightarrow> (string \<times> string) option" where
  "GetAttribute n name = find (\<lambda>attr. fst attr = name) (nd_Attributes n)"

definition GetAttributeValue :: "node \<Rightarrow> string \<Rightarrow> string" where
  "GetAttributeValue n name = (case GetAttribute n name of Some attr \<Rightarrow> snd attr | None \<Rightarrow> [])"

text \<open>Both searches include the node itself and go through the children in order.\<close>

fun FindOneByName :: "node \<Rightarrow> string \<Rightarrow> node option"
and find_one_children :: "node list \<Rightarrow> string \<Rightarrow> node option" where
  "FindOneByName (Node nm attrs children txt) name =
     (if nm = name then Some (Node nm attrs children txt) else find_one_children children name)"
| "find_one_children [] name = None"
| "find_one_children (c # cs) name =
     (case FindOneByName c name of Some x \<Rightarrow> Some x | None \<Rightarrow> find_one_children cs name)"

fun FindByName :: "node \<Rightarrow> string \<Rightarrow> node list" where
  "FindByName (Node nm attrs children txt) name =
     (if nm = name then [Node nm attrs children txt] else [])
     @ concat (map (\<lambda>c. FindByName c name) children)"

text \<open>
  \<open>Query\<close> for the XPath \<open>//name\<close> on the root: the descendants of that name in document
  order. The root itself is the root node of the XPath tree, not an element, and never
  matches.
\<close>

definition Query :: "node \<Rightarrow> string \<Rightarrow> node list" where
  "Query root name = concat (map (\<lambda>c. FindByName c name) (nd_Children root))"

definition print_attr :: "string \<times> string \<Rightarrow> string" where
  "print_attr attr = '' '' @ fst attr @ ''='' @ [CHR 0x22] @ EscapeText (snd attr) @ [CHR 0x22]"

text \<open>\<open>XML()\<close>: \<open>printXML\<close> with an empty indent.\<close>

fun XML_text :: "node \<Rightarrow> string" where
  "XML_text (Node name attrs children txt) =
     ''<'' @ name @ concat (map print_attr attrs)
     @ (if children = [] \<and> txt = [] then '' />''
        else ''>'' @ concat (map XML_text children) @ EscapeText txt @ ''</'' @ name @ ''>'')"

section \<open>What the searches find\<close>

fun subnodes :: "node \<Rightarrow> node list" where
  "subnodes (Node nm attrs children txt) = Node nm attrs children txt # concat (map subnodes children)"

lemma FindByName_subnodes: "FindByName n name = filter (\<lambda>x. nd_Name x = name) (subnodes n)"
  by (induction n) (simp add: filter_concat comp_def cong: map_cong)

lemma Query_subnodes:
  "Query root name = filter (\<lambda>x. nd_Name x = name) (tl (subnodes root))"
  by (cases root) (simp add: Query_def FindByName_subnodes filter_concat comp_def)

lemma find_one_head:
  "FindOneByName n name = List.find (\<lambda>x. nd_Name x = name) (subnodes n)"
  "find_one_children cs name = List.find (\<lambda>x. nd_Name x = name) (concat (map subnodes cs))"
proof (induction n name and cs name rule: FindOneByName_find_one_children.induct)
  case (3 c cs name)
  then show ?case by (cases "List.find (\<lambda>x. nd_Name x = name) (subnodes c)") (auto simp: find_append)
qed auto

lemma FindOneByName_Some:
  assumes "FindOneByName n name = Some x"
  shows "nd_Name x = name \<and> x \<in> set (subnodes n)"
  using assms find_Some_mem [of "\<lambda>x. nd_Name x = name"] by (simp add: find_one_head)

text \<open>
  The single search returns the first result of the full search, and the full search
  returns exactly the nodes of that name in the tree, in document order.
\<close>

theorem FindOneByName_eq:
  "FindOneByName n name = (case FindByName n name of [] \<Rightarrow> None | x # _ \<Rightarrow> Some x)
   \<and> FindByName n name = filter (\<lambda>x. nd_Name x = name) (subnodes n)"
  by (simp add: find_one_head FindByName_subnodes find_filter)

end
