(* ===== verification/Go_Xml_Scanner.thy ===== *)
theory Go_Xml_Scanner
  imports Go_Xml Go_Strconv
begin

text \<open>
  The scanner in the decoder of Go's \<open>encoding/xml\<close>, as \<open>xml.NewDecoder\<close> makes it (strict,
  without entities or character sets of its own): from the bytes of the input to one token,
  before names are resolved, and the rest of the input. The tables that say which runes beyond
  ASCII a name may have belong to the run-time environment.
\<close>

section \<open>Tokens and errors\<close>

record xml_name =
  xn_Space :: string
  xn_Local :: string

datatype xml_token =
    StartElement xml_name "(xml_name \<times> string) list"
  | EndElement xml_name
  | CharData string
  | Comment string
  | ProcInst string string
  | Directive string

definition io_EOF :: go_error where
  "io_EOF = ErrorString ''EOF''"

text \<open>
  Why a scanner stops: the input ends where it must not, it is malformed (with the rest of the
  input, for the line number), or it declares a version or an encoding that is not supported.
\<close>

datatype scan_error = Cut string | Malformed string string | Unsupported string

definition unexpected_end :: scan_error where
  "unexpected_end = Cut ''unexpected EOF''"

type_synonym 'a scan = "scan_error + 'a \<times> string"

text \<open>Decimal numbers, and the format \<open>U+0000\<close> of a rune.\<close>

fun decimal :: "nat \<Rightarrow> string" where
  "decimal n = (if n < 10 then [] else decimal (n div 10)) @ [char_of (48 + n mod 10)]"

declare decimal.simps [simp del]

definition upper_hex :: "nat \<Rightarrow> char" where
  "upper_hex n = ''0123456789ABCDEF'' ! (n mod 16)"

definition rune_format :: "nat \<Rightarrow> string" where
  "rune_format r = ''U+'' @ (if r < 0x10000 then [] else (if r < 0x100000 then [] else [upper_hex (r div 0x100000)])
       @ [upper_hex (r div 0x10000)])
     @ [upper_hex (r div 0x1000), upper_hex (r div 0x100), upper_hex (r div 0x10), upper_hex r]"

section \<open>Names\<close>

definition is_name_byte :: "char \<Rightarrow> bool" where
  "is_name_byte c \<longleftrightarrow>
     (let n = (of_char c :: nat) in
      65 \<le> n \<and> n \<le> 90 \<or> 97 \<le> n \<and> n \<le> 122 \<or> 48 \<le> n \<and> n \<le> 57 \<or> n = 95 \<or> n = 58 \<or> n = 46 \<or> n = 45)"

definition name_byte :: "char \<Rightarrow> bool" where
  "name_byte c \<longleftrightarrow> 0x80 \<le> (of_char c :: nat) \<or> is_name_byte c"

definition first_rune :: "go_env \<Rightarrow> nat \<Rightarrow> bool" where
  "first_rune env r \<longleftrightarrow>
     (if r < 0x80 then r = 0x3A \<or> 0x41 \<le> r \<and> r \<le> 0x5A \<or> r = 0x5F \<or> 0x61 \<le> r \<and> r \<le> 0x7A
      else ge_xml_first env r)"

definition second_rune :: "go_env \<Rightarrow> nat \<Rightarrow> bool" where
  "second_rune env r \<longleftrightarrow>
     (if r < 0x80 then r = 0x2D \<or> r = 0x2E \<or> 0x30 \<le> r \<and> r \<le> 0x39 else ge_xml_second env r)"

fun name_runes :: "go_env \<Rightarrow> string \<Rightarrow> bool" where
  "name_runes env [] = True"
| "name_runes env (c # cs) =
     (case DecodeRune (c # cs) of (r, width) \<Rightarrow>
        \<not> (r = rune_error \<and> width = 1) \<and> (first_rune env r \<or> second_rune env r)
        \<and> name_runes env (drop (width - 1) cs))"

definition isName :: "go_env \<Rightarrow> string \<Rightarrow> bool" where
  "isName env s \<longleftrightarrow> s \<noteq> [] \<and>
     (case DecodeRune s of (r, width) \<Rightarrow>
        \<not> (r = rune_error \<and> width = 1) \<and> first_rune env r \<and> name_runes env (drop width s))"

text \<open>\<open>name\<close>: the longest run of bytes that a name may have, with a byte after it.\<close>

definition read_name :: "go_env \<Rightarrow> string \<Rightarrow> string \<Rightarrow> string scan" where
  "read_name env missing s =
     (let name = takeWhile name_byte s; rest = dropWhile name_byte s in
      if rest = [] then Inl unexpected_end
      else if name = [] then Inl (Malformed missing s)
      else if \<not> isName env name then Inl (Malformed (''invalid XML name: '' @ name) rest)
      else Inr (name, rest))"

definition split_name :: "string \<Rightarrow> xml_name" where
  "split_name s =
     (let space = takeWhile (\<lambda>c. c \<noteq> CHR '':'') s; local = dropWhile (\<lambda>c. c \<noteq> CHR '':'') s in
      if local = [] then \<lparr>xn_Space = [], xn_Local = s\<rparr> else \<lparr>xn_Space = space, xn_Local = tl local\<rparr>)"

definition nsname :: "go_env \<Rightarrow> string \<Rightarrow> string \<Rightarrow> xml_name scan" where
  "nsname env missing s =
     (case read_name env missing s of Inl e \<Rightarrow> Inl e | Inr (name, rest) \<Rightarrow> Inr (split_name name, rest))"

definition xml_space :: "char \<Rightarrow> bool" where
  "xml_space c \<longleftrightarrow> c \<in> {CHR '' '', CHR 0x0D, CHR 0x0A, CHR 0x09}"

definition skip_space :: "string \<Rightarrow> string" where
  "skip_space s = dropWhile xml_space s"

section \<open>Text\<close>

definition MaxRune :: nat where
  "MaxRune = 0x10FFFF"

text \<open>\<open>utf8.EncodeRune\<close>, where a surrogate becomes the replacement rune.\<close>

definition encode_rune :: "nat \<Rightarrow> string" where
  "encode_rune r =
     (if r < 0x80 then [char_of r]
      else if r < 0x800 then [char_of (0xC0 + r div 0x40), char_of (0x80 + r mod 0x40)]
      else if 0xD800 \<le> r \<and> r \<le> 0xDFFF \<or> MaxRune < r then esc_fffd
      else if r < 0x10000 then
        [char_of (0xE0 + r div 0x1000), char_of (0x80 + r div 0x40 mod 0x40), char_of (0x80 + r mod 0x40)]
      else
        [char_of (0xF0 + r div 0x40000), char_of (0x80 + r div 0x1000 mod 0x40),
         char_of (0x80 + r div 0x40 mod 0x40), char_of (0x80 + r mod 0x40)])"

definition digit_of :: "nat \<Rightarrow> char \<Rightarrow> nat option" where
  "digit_of base c =
     (let n = (of_char c :: nat) in
      if 48 \<le> n \<and> n \<le> 57 then Some (n - 48)
      else if base = 16 \<and> 97 \<le> n \<and> n \<le> 102 then Some (n - 87)
      else if base = 16 \<and> 65 \<le> n \<and> n \<le> 70 then Some (n - 55)
      else None)"

definition digits_value :: "nat \<Rightarrow> string \<Rightarrow> nat" where
  "digits_value base s = foldl (\<lambda>n c. n * base + the (digit_of base c)) 0 s"

definition entity :: "string \<Rightarrow> string option" where
  "entity = map_of [(''lt'', ''<''), (''gt'', ''>''), (''amp'', ''&''), (''apos'', [CHR 0x27]),
     (''quot'', [CHR 0x22])]"

text \<open>What follows a \<open>&\<close>, up to the semicolon: a number or the name of an entity.\<close>

definition reference_end :: "string \<Rightarrow> string option \<Rightarrow> string \<Rightarrow> string scan" where
  "reference_end written value rest =
     (case rest of
        [] \<Rightarrow> Inl unexpected_end
      | b # r \<Rightarrow>
          if b \<noteq> CHR '';'' then
            Inl (Malformed (''invalid character entity &'' @ written @ '' (no semicolon)'') rest)
          else (case value of
                  None \<Rightarrow> Inl (Malformed (''invalid character entity &'' @ written @ '';'') r)
                | Some t \<Rightarrow> Inr (t, r)))"

definition read_reference :: "go_env \<Rightarrow> string \<Rightarrow> string scan" where
  "read_reference env s =
     (if HasPrefix s ''#'' then
        (let hex = HasPrefix s ''#x''; base = (if hex then 16 else 10); start = (if hex then ''#x'' else ''#'');
             digits = takeWhile (\<lambda>c. digit_of base c \<noteq> None) (drop (length start) s);
             rest = dropWhile (\<lambda>c. digit_of base c \<noteq> None) (drop (length start) s);
             n = digits_value base digits
         in reference_end (start @ digits)
              (if digits \<noteq> [] \<and> n \<le> MaxRune then Some (encode_rune n) else None) rest)
      else
        (let name = takeWhile name_byte s; rest = dropWhile name_byte s
         in reference_end name (if isName env name then entity name else None) rest))"

lemma reference_end_shorter: "reference_end w v s = Inr (t, r) \<Longrightarrow> length r < length s"
  by (auto simp: reference_end_def split: list.splits if_splits option.splits)

lemma read_reference_shorter:
  assumes "read_reference env s = Inr (t, r)"
  shows "length r < length s"
proof -
  have drop: "length (dropWhile P (drop n s)) \<le> length s" for P :: "char \<Rightarrow> bool" and n
    using length_dropWhile_le [of P "drop n s"] by simp
  show ?thesis
    using assms drop [of _ 0] drop
    by (fastforce simp: read_reference_def Let_def simp del: length_drop
        dest!: reference_end_shorter split: if_splits intro: less_le_trans)
qed

text \<open>
  \<open>text\<close>: up to the quote of an attribute value, the end of a CDATA section, or the next tag.
  \<open>b0\<close> and \<open>b1\<close> are the bytes before, and a reference forgets them.
\<close>

function text_loop ::
  "go_env \<Rightarrow> char option \<Rightarrow> bool \<Rightarrow> char \<Rightarrow> char \<Rightarrow> string \<Rightarrow> string \<Rightarrow> string scan" where
  "text_loop env quote cdata b0 b1 buf [] =
     (if cdata then Inl (Cut ''unexpected EOF in CDATA section'') else Inr (buf, []))"
| "text_loop env quote cdata b0 b1 buf (b # s) =
     (if b0 = CHR '']'' \<and> b1 = CHR '']'' \<and> b = CHR ''>'' then
        (if cdata then Inr (take (length buf - 2) buf, s)
         else Inl (Malformed ''unescaped ]]> not in CDATA section'' s))
      else if b = CHR ''<'' \<and> \<not> cdata then
        (if quote \<noteq> None then Inl (Malformed ''unescaped < inside quoted string'' s) else Inr (buf, b # s))
      else if quote = Some b then Inr (buf, s)
      else if b = CHR ''&'' \<and> \<not> cdata then
        (case read_reference env s of
           Inl e \<Rightarrow> Inl e
         | Inr (t, rest) \<Rightarrow> text_loop env quote cdata (CHR 0x00) (CHR 0x00) (buf @ t) rest)
      else
        text_loop env quote cdata b1 b
          (if b = CHR 0x0D then buf @ [CHR 0x0A]
           else if b1 = CHR 0x0D \<and> b = CHR 0x0A then buf
           else buf @ [b]) s)"
  by pat_completeness auto
termination
  by (relation "measure (\<lambda>(env, quote, cdata, b0, b1, buf, s). length s)")
    (auto dest!: sym [of _ "read_reference _ _"] read_reference_shorter)

declare text_loop.simps [simp del]

fun illegal_text :: "string \<Rightarrow> string option" where
  "illegal_text [] = None"
| "illegal_text (c # cs) =
     (case DecodeRune (c # cs) of (r, width) \<Rightarrow>
        if r = rune_error \<and> width = 1 then Some ''invalid UTF-8''
        else if \<not> is_in_character_range r then Some (''illegal character code '' @ rune_format r)
        else illegal_text (drop (width - 1) cs))"

definition read_text :: "go_env \<Rightarrow> char option \<Rightarrow> bool \<Rightarrow> string \<Rightarrow> string scan" where
  "read_text env quote cdata s =
     (case text_loop env quote cdata (CHR 0x00) (CHR 0x00) [] s of
        Inl e \<Rightarrow> Inl e
      | Inr (data, rest) \<Rightarrow>
          (case illegal_text data of
             Some msg \<Rightarrow> Inl (Malformed msg rest)
           | None \<Rightarrow> Inr (data, rest)))"

section \<open>Markup\<close>

text \<open>Everything up to the first occurrence of a mark, and what follows the mark.\<close>

fun scan_until :: "string \<Rightarrow> string \<Rightarrow> string scan" where
  "scan_until mark [] = Inl unexpected_end"
| "scan_until mark (c # s) =
     (if HasPrefix (c # s) mark then Inr ([], drop (length mark) (c # s))
      else (case scan_until mark s of Inl e \<Rightarrow> Inl e | Inr (data, rest) \<Rightarrow> Inr (c # data, rest)))"

lemma scan_until_shorter:
  "scan_until mark s = Inr (data, rest) \<Longrightarrow> length rest \<le> length s"
  by (induction s arbitrary: data) (auto split: if_splits sum.splits)

definition quote_chars :: "char set" where
  "quote_chars = {CHR 0x22, CHR 0x27}"

text \<open>\<open></\<close>: the end of an element.\<close>

definition read_end :: "go_env \<Rightarrow> string \<Rightarrow> xml_token scan" where
  "read_end env s =
     (case nsname env ''expected element name after </'' s of
        Inl e \<Rightarrow> Inl e
      | Inr (name, rest) \<Rightarrow>
          (case skip_space rest of
             [] \<Rightarrow> Inl unexpected_end
           | b # r \<Rightarrow>
               if b = CHR ''>'' then Inr (EndElement name, r)
               else Inl (Malformed (''invalid characters between </'' @ xn_Local name @ '' and >'') r)))"

text \<open>\<open><?\<close>: a processing instruction; only that of the XML declaration is looked at.\<close>

fun after_first :: "string \<Rightarrow> string \<Rightarrow> string option" where
  "after_first mark [] = (if mark = [] then Some [] else None)"
| "after_first mark (c # s) =
     (if HasPrefix (c # s) mark then Some (drop (length mark) (c # s)) else after_first mark s)"

definition procInst :: "string \<Rightarrow> string \<Rightarrow> string" where
  "procInst param s =
     (case after_first (param @ ''='') s of
        Some (q # v) \<Rightarrow>
          if q \<in> quote_chars \<and> q \<in> set v then takeWhile (\<lambda>c. c \<noteq> q) v else []
      | _ \<Rightarrow> [])"

definition check_declaration :: "go_env \<Rightarrow> string \<Rightarrow> scan_error option" where
  "check_declaration env content =
     (let ver = procInst ''version'' content; enc = procInst ''encoding'' content in
      if ver \<noteq> [] \<and> ver \<noteq> ''1.0'' then
        Some (Unsupported (''xml: unsupported version '' @ Quote env ver @ ''; only version 1.0 is supported''))
      else if enc \<noteq> [] \<and> map lower_byte enc \<noteq> ''utf-8'' then
        Some (Unsupported (''xml: encoding '' @ Quote env enc @ '' declared but Decoder.CharsetReader is nil''))
      else None)"

definition read_instruction :: "go_env \<Rightarrow> string \<Rightarrow> xml_token scan" where
  "read_instruction env s =
     (case read_name env ''expected target name after <?'' s of
        Inl e \<Rightarrow> Inl e
      | Inr (target, rest) \<Rightarrow>
          (case scan_until ''?>'' (skip_space rest) of
             Inl e \<Rightarrow> Inl e
           | Inr (data, r) \<Rightarrow>
               (case (if target = ''xml'' then check_declaration env data else None) of
                  Some e \<Rightarrow> Inl e
                | None \<Rightarrow> Inr (ProcInst target data, r))))"

text \<open>\<open><!--\<close>: a comment.\<close>

definition read_comment :: "string \<Rightarrow> xml_token scan" where
  "read_comment s =
     (case scan_until ''--'' s of
        Inl e \<Rightarrow> Inl e
      | Inr (data, rest) \<Rightarrow>
          (case rest of
             [] \<Rightarrow> Inl unexpected_end
           | b # r \<Rightarrow>
               if b = CHR ''>'' then Inr (Comment data, r)
               else Inl (Malformed (''invalid sequence '' @ CHR 0x22 # ''--'' @ CHR 0x22 # '' not allowed in comments'') r)))"

text \<open>\<open><![CDATA[\<close>: text without references. The mark is compared byte by byte.\<close>

fun read_mark :: "string \<Rightarrow> string \<Rightarrow> unit scan" where
  "read_mark [] s = Inr ((), s)"
| "read_mark (m # mark) [] = Inl unexpected_end"
| "read_mark (m # mark) (b # s) =
     (if b = m then read_mark mark s else Inl (Malformed ''invalid <![ sequence'' s))"

definition read_cdata :: "go_env \<Rightarrow> string \<Rightarrow> xml_token scan" where
  "read_cdata env s =
     (case read_mark ''CDATA['' s of
        Inl e \<Rightarrow> Inl e
      | Inr (_, rest) \<Rightarrow>
          (case read_text env None True rest of Inl e \<Rightarrow> Inl e | Inr (data, r) \<Rightarrow> Inr (CharData data, r)))"

text \<open>
  Any other \<open><!\<close>: a directive, with brackets counted outside quotes and comments left out.
\<close>

function directive_loop :: "char option \<Rightarrow> nat \<Rightarrow> string \<Rightarrow> string \<Rightarrow> string scan" where
  "directive_loop quote depth buf [] = Inl unexpected_end"
| "directive_loop quote depth buf (b # s) =
     (if quote = None \<and> b = CHR ''>'' \<and> depth = 0 then Inr (buf, s)
      else if quote = Some b then directive_loop None depth (buf @ [b]) s
      else if quote \<noteq> None then directive_loop quote depth (buf @ [b]) s
      else if b \<in> quote_chars then directive_loop (Some b) depth (buf @ [b]) s
      else if b = CHR ''>'' then directive_loop None (depth - 1) (buf @ [b]) s
      else if b = CHR ''<'' then
        (if HasPrefix s ''!--'' then
           (case scan_until ''-->'' (drop 3 s) of
              Inl e \<Rightarrow> Inl e
            | Inr (_, rest) \<Rightarrow> directive_loop None depth buf rest)
         else directive_loop None (depth + 1) (buf @ [b]) s)
      else directive_loop None depth (buf @ [b]) s)"
  by pat_completeness auto
termination
  by (relation "measure (\<lambda>(quote, depth, buf, s). length s)")
    (auto dest!: sym [of _ "scan_until _ _"] scan_until_shorter)

declare directive_loop.simps [simp del]

definition read_exclamation :: "go_env \<Rightarrow> string \<Rightarrow> xml_token scan" where
  "read_exclamation env s =
     (case s of
        [] \<Rightarrow> Inl unexpected_end
      | b # r \<Rightarrow>
          if b = CHR ''-'' then
            (case r of
               [] \<Rightarrow> Inl unexpected_end
             | b # r' \<Rightarrow>
                 if b = CHR ''-'' then read_comment r'
                 else Inl (Malformed ''invalid sequence <!- not part of <!--'' r'))
          else if b = CHR ''['' then read_cdata env r
          else (case directive_loop None 0 [b] r of
                  Inl e \<Rightarrow> Inl e
                | Inr (data, rest) \<Rightarrow> Inr (Directive data, rest)))"

section \<open>Start tags\<close>

definition read_attrval :: "go_env \<Rightarrow> string \<Rightarrow> string scan" where
  "read_attrval env s =
     (case s of
        [] \<Rightarrow> Inl unexpected_end
      | b # r \<Rightarrow>
          if b \<in> quote_chars then read_text env (Some b) False r
          else Inl (Malformed ''unquoted or missing attribute value in element'' r))"

definition read_attr :: "go_env \<Rightarrow> string \<Rightarrow> (xml_name \<times> string) scan" where
  "read_attr env s =
     (case nsname env ''expected attribute name in element'' s of
        Inl e \<Rightarrow> Inl e
      | Inr (name, rest) \<Rightarrow>
          (case skip_space rest of
             [] \<Rightarrow> Inl unexpected_end
           | b # r \<Rightarrow>
               if b \<noteq> CHR ''='' then Inl (Malformed ''attribute name without = in element'' r)
               else (case read_attrval env (skip_space r) of
                       Inl e \<Rightarrow> Inl e
                     | Inr (v, r') \<Rightarrow> Inr ((name, v), r'))))"

lemma text_loop_shorter:
  "text_loop env quote cdata b0 b1 buf s = Inr (data, rest) \<Longrightarrow> length rest \<le> length s"
proof (induction env quote cdata b0 b1 buf s rule: text_loop.induct)
  case (2 env quote cdata b0 b1 buf b s)
  then show ?case
    by (auto simp: text_loop.simps split: if_splits sum.splits dest!: read_reference_shorter intro: le_SucI)
      (meson le_SucI le_trans less_imp_le)+
qed (simp add: text_loop.simps split: if_splits)

lemma read_text_shorter: "read_text env quote cdata s = Inr (data, rest) \<Longrightarrow> length rest \<le> length s"
  by (auto simp: read_text_def split: sum.splits option.splits dest: text_loop_shorter)

lemma skip_space_shorter: "length (skip_space s) \<le> length s"
  by (simp add: skip_space_def length_dropWhile_le)

lemma nsname_shorter: "nsname env missing s = Inr (name, rest) \<Longrightarrow> length rest < length s"
proof -
  assume "nsname env missing s = Inr (name, rest)"
  then have "rest = dropWhile name_byte s" "takeWhile name_byte s \<noteq> []"
    by (auto simp: nsname_def read_name_def Let_def split: if_splits sum.splits)
  moreover have "length s = length (takeWhile name_byte s) + length (dropWhile name_byte s)"
    by (metis length_append takeWhile_dropWhile_id)
  ultimately show ?thesis by simp
qed

lemma read_attr_shorter:
  assumes "read_attr env s = Inr (a, rest)"
  shows "length rest < length s"
proof -
  from assms obtain name r1 b r2 v where r1: "nsname env ''expected attribute name in element'' s = Inr (name, r1)"
    and r2: "skip_space r1 = b # r2" and v: "read_attrval env (skip_space r2) = Inr (v, rest)"
    by (auto simp: read_attr_def split: sum.splits list.splits if_splits)
  from v have "length rest \<le> length (skip_space r2)"
    by (auto simp: read_attrval_def split: list.splits if_splits dest!: read_text_shorter)
  with nsname_shorter [OF r1] r2 skip_space_shorter [of r1] skip_space_shorter [of r2] show ?thesis by simp
qed

text \<open>The attributes of a start tag: whether it closes itself, and the rest.\<close>

function read_attrs :: "go_env \<Rightarrow> (xml_name \<times> string) list \<Rightarrow> string \<Rightarrow> ((xml_name \<times> string) list \<times> bool) scan" where
  "read_attrs env attrs s =
     (case skip_space s of
        [] \<Rightarrow> Inl unexpected_end
      | b # r \<Rightarrow>
          if b = CHR ''/'' then
            (case r of
               [] \<Rightarrow> Inl unexpected_end
             | b # r' \<Rightarrow>
                 if b = CHR ''>'' then Inr ((attrs, True), r') else Inl (Malformed ''expected /> in element'' r'))
          else if b = CHR ''>'' then Inr ((attrs, False), r)
          else (case read_attr env (b # r) of
                  Inl e \<Rightarrow> Inl e
                | Inr (a, rest) \<Rightarrow> read_attrs env (attrs @ [a]) rest))"
  by pat_completeness auto
termination
proof (relation "measure (\<lambda>(env, attrs, s). length s)")
  fix env :: go_env and attrs :: "(xml_name \<times> string) list" and s b r x a rest
  assume "skip_space s = b # r" "read_attr env (b # r) = Inr x" "(a, rest) = x"
  then show "((env, attrs @ [a], rest), env, attrs, s) \<in> measure (\<lambda>(env, attrs, s). length s)"
    using read_attr_shorter [of env "b # r" a rest] skip_space_shorter [of s] by simp
qed simp

declare read_attrs.simps [simp del]

definition read_start :: "go_env \<Rightarrow> string \<Rightarrow> (xml_token \<times> bool) scan" where
  "read_start env s =
     (case nsname env ''expected element name after <'' s of
        Inl e \<Rightarrow> Inl e
      | Inr (name, rest) \<Rightarrow>
          (case read_attrs env [] rest of
             Inl e \<Rightarrow> Inl e
           | Inr ((attrs, closed), r) \<Rightarrow> Inr ((StartElement name attrs, closed), r)))"

text \<open>
  The token at the front of input that is not empty, and whether it is a start tag that closes
  itself.
\<close>

definition with_open :: "xml_token scan \<Rightarrow> (xml_token \<times> bool) scan" where
  "with_open x = (case x of Inl e \<Rightarrow> Inl e | Inr (t, rest) \<Rightarrow> Inr ((t, False), rest))"

definition scan_token :: "go_env \<Rightarrow> string \<Rightarrow> (xml_token \<times> bool) scan" where
  "scan_token env s =
     (if \<not> HasPrefix s ''<'' then
        (case read_text env None False s of
           Inl e \<Rightarrow> Inl e
         | Inr (data, rest) \<Rightarrow> Inr ((CharData data, False), rest))
      else
        (case tl s of
           [] \<Rightarrow> Inl unexpected_end
         | b # r \<Rightarrow>
             if b = CHR ''/'' then with_open (read_end env r)
             else if b = CHR ''?'' then with_open (read_instruction env r)
             else if b = CHR ''!'' then with_open (read_exclamation env r)
             else read_start env (b # r)))"

text \<open>Every token takes something from the input.\<close>

lemma read_mark_shorter: "read_mark mark s = Inr (u, rest) \<Longrightarrow> length rest \<le> length s"
  by (induction mark s rule: read_mark.induct) (auto split: if_splits)

lemma directive_step:
  assumes "directive_loop quote depth buf (b # s) = Inr (data, rest)"
  shows "rest = s \<or> (\<exists>q d bs r. length r \<le> length s \<and> directive_loop q d bs r = Inr (data, rest))"
proof -
  have drop: "length r \<le> length s" if "scan_until ''-->'' (drop 3 s) = Inr (x, r)" for x r
    using scan_until_shorter [OF that] by simp
  show ?thesis
    using assms drop unfolding directive_loop.simps(2)
    by (simp only: split: if_splits sum.splits prod.splits) blast+
qed

lemma directive_shorter: "directive_loop quote depth buf s = Inr (data, rest) \<Longrightarrow> length rest \<le> length s"
proof (induction "length s" arbitrary: quote depth buf s rule: less_induct)
  case less
  show ?case
  proof (cases s)
    case Nil
    with less.prems show ?thesis by (simp add: directive_loop.simps)
  next
    case (Cons b r)
    from directive_step [OF less.prems [unfolded Cons]] show ?thesis
    proof (elim disjE exE conjE)
      fix q d bs r' assume "length r' \<le> length r" "directive_loop q d bs r' = Inr (data, rest)"
      with less.hyps [of r' q d bs] show ?thesis by (simp add: Cons)
    qed (simp add: Cons)
  qed
qed

lemma read_attrs_shorter: "read_attrs env attrs s = Inr (x, rest) \<Longrightarrow> length rest < length s"
proof (induction env attrs s rule: read_attrs.induct)
  case (1 env attrs s)
  from "1.prems" obtain b r where br: "skip_space s = b # r"
    by (auto simp: read_attrs.simps [of env attrs s] split: list.splits)
  have len: "length (b # r) \<le> length s" using skip_space_shorter [of s] br by simp
  have step: "length rest < length s"
    if "read_attr env (b # r) = Inr (a, r')" "read_attrs env (attrs @ [a]) r' = Inr (x, rest)"
      "b \<noteq> CHR ''/''" "b \<noteq> CHR ''>''" for a r'
    using "1.IH" [OF br that(3,4,1) refl that(2)] read_attr_shorter [OF that(1)] len by simp
  show ?case
    using "1.prems" len step
    by (fastforce simp: read_attrs.simps [of env attrs s] br split: list.splits if_splits sum.splits)
qed

lemma read_name_shorter: "read_name env missing s = Inr (name, rest) \<Longrightarrow> length rest \<le> length s"
  by (auto simp: read_name_def Let_def length_dropWhile_le split: if_splits)

lemma read_end_shorter: "read_end env s = Inr (t, rest) \<Longrightarrow> length rest \<le> length s"
proof -
  assume "read_end env s = Inr (t, rest)"
  then obtain name r b where r: "nsname env ''expected element name after </'' s = Inr (name, r)"
    "skip_space r = b # rest"
    by (auto simp: read_end_def split: sum.splits list.splits if_splits)
  from nsname_shorter [OF r(1)] skip_space_shorter [of r] show ?thesis by (simp add: r(2))
qed

lemma read_instruction_shorter: "read_instruction env s = Inr (t, rest) \<Longrightarrow> length rest \<le> length s"
proof -
  assume "read_instruction env s = Inr (t, rest)"
  then obtain name r data where r: "read_name env ''expected target name after <?'' s = Inr (name, r)"
    "scan_until ''?>'' (skip_space r) = Inr (data, rest)"
    by (auto simp: read_instruction_def split: sum.splits option.splits if_splits)
  from read_name_shorter [OF r(1)] scan_until_shorter [OF r(2)] skip_space_shorter [of r] show ?thesis by simp
qed

lemma read_comment_shorter: "read_comment s = Inr (t, rest) \<Longrightarrow> length rest \<le> length s"
  by (auto simp: read_comment_def split: sum.splits list.splits if_splits dest!: scan_until_shorter)

lemma read_cdata_shorter: "read_cdata env s = Inr (t, rest) \<Longrightarrow> length rest \<le> length s"
  unfolding read_cdata_def
  by (auto simp del: read_mark.simps split: sum.splits dest!: read_mark_shorter read_text_shorter)

lemma read_exclamation_shorter: "read_exclamation env s = Inr (t, rest) \<Longrightarrow> length rest \<le> length s"
  unfolding read_exclamation_def
  by (auto split: sum.splits list.splits if_splits dest!: read_comment_shorter read_cdata_shorter directive_shorter)

lemma read_start_shorter: "read_start env s = Inr (x, rest) \<Longrightarrow> length rest \<le> length s"
  unfolding read_start_def
  by (auto split: sum.splits dest!: nsname_shorter read_attrs_shorter)

lemma read_first_shorter:
  assumes "read_text env None False (b # r) = Inr (data, rest)" and "b \<noteq> CHR ''<''"
  shows "length rest \<le> length r"
proof -
  from assms(1) have "text_loop env None False (CHR 0x00) (CHR 0x00) [] (b # r) = Inr (data, rest)"
    by (auto simp: read_text_def split: sum.splits option.splits)
  then have "(\<exists>buf b0 b1. text_loop env None False b0 b1 buf r = Inr (data, rest))
      \<or> (\<exists>t r' b0 b1 buf. read_reference env r = Inr (t, r') \<and> text_loop env None False b0 b1 buf r' = Inr (data, rest))"
    using assms(2) by (auto simp: text_loop.simps(2) [of env None False _ _ _ b] split: if_splits sum.splits)
  then show ?thesis using text_loop_shorter read_reference_shorter by (meson le_trans less_imp_le)
qed

lemma scan_token_shorter:
  assumes "scan_token env s = Inr (x, rest)" and "s \<noteq> []"
  shows "length rest < length s"
proof (cases "HasPrefix s ''<''")
  case True
  then obtain b r where s: "s = CHR ''<'' # b # r"
    using assms(1) by (cases s; cases "tl s") (auto simp: HasPrefix_def scan_token_def)
  have "length rest \<le> length (b # r)"
    using assms(1) True
    by (auto simp: s scan_token_def with_open_def split: if_splits sum.splits
        dest!: read_end_shorter read_instruction_shorter read_exclamation_shorter read_start_shorter)
  then show ?thesis by (simp add: s)
next
  case False
  with assms(2) obtain b r where s: "s = b # r" "b \<noteq> CHR ''<''" by (cases s) (auto simp: HasPrefix_def)
  with False assms(1) obtain data where "read_text env None False (b # r) = Inr (data, rest)"
    by (auto simp: scan_token_def split: sum.splits)
  from read_first_shorter [OF this s(2)] show ?thesis by (simp add: s(1))
qed

end
