(* ===== verification/Go_Xml_Decoder.thy ===== *)
theory Go_Xml_Decoder
  imports Go_Xml_Scanner
begin

text \<open>
  The decoder of \<open>encoding/xml\<close> on top of the scanner: \<open>Token\<close> splits a tag that closes itself,
  resolves name spaces and matches the tags, so that the tokens it hands out are well nested.
\<close>

section \<open>The state\<close>

text \<open>
  The stack holds the open elements and, below each, the name spaces its tag changed with what
  they were before. The line of an error follows from the lines of the whole input and of the
  rest. The last field is the error that ends the input: \<open>io.EOF\<close>, unless reading failed.
\<close>

datatype stack_item = Opened xml_name | Scoped string "string option"

record xml_decoder =
  xd_Rest :: string
  xd_Stack :: "stack_item list"
  xd_Ns :: "string \<rightharpoonup> string"
  xd_ToClose :: "xml_name option"
  xd_Lines :: nat
  xd_End :: go_error

definition line_feeds :: "string \<Rightarrow> nat" where
  "line_feeds s = length (filter (\<lambda>c. c = CHR 0x0A) s)"

text \<open>What is read: the bytes, and the error after the last of them.\<close>

type_synonym reader = "string \<times> go_error"

definition NewDecoder :: "reader \<Rightarrow> xml_decoder" where
  "NewDecoder r = \<lparr>xd_Rest = fst r, xd_Stack = [], xd_Ns = Map.empty, xd_ToClose = None,
     xd_Lines = line_feeds (fst r), xd_End = snd r\<rparr>"

definition syntax_error :: "xml_decoder \<Rightarrow> string \<Rightarrow> string \<Rightarrow> go_error" where
  "syntax_error d rest msg =
     ErrorString (''XML syntax error on line '' @ decimal (1 + (xd_Lines d - line_feeds rest)) @ '': '' @ msg)"

fun scan_failure :: "xml_decoder \<Rightarrow> scan_error \<Rightarrow> go_error" where
  "scan_failure d (Cut msg) = (if xd_End d = io_EOF then syntax_error d [] msg else xd_End d)"
| "scan_failure d (Malformed msg rest) = syntax_error d rest msg"
| "scan_failure d (Unsupported msg) = ErrorString msg"

section \<open>Name spaces\<close>

definition xmlURL :: string where
  "xmlURL = ''http://www.w3.org/XML/1998/namespace''"

definition translate :: "(string \<rightharpoonup> string) \<Rightarrow> bool \<Rightarrow> xml_name \<Rightarrow> xml_name" where
  "translate ns isElementName n =
     (if xn_Space n = ''xmlns'' then n
      else if xn_Space n = [] \<and> \<not> isElementName then n
      else if xn_Space n = [] \<and> xn_Local n = ''xmlns'' then n
      else let space = (if xn_Space n = ''xml'' then xmlURL else xn_Space n)
           in n\<lparr>xn_Space := (case ns space of Some v \<Rightarrow> v | None \<Rightarrow> space)\<rparr>)"

definition push_ns :: "string \<Rightarrow> string \<Rightarrow> xml_decoder \<Rightarrow> xml_decoder" where
  "push_ns prefix v d =
     d\<lparr>xd_Stack := Scoped prefix (xd_Ns d prefix) # xd_Stack d, xd_Ns := (xd_Ns d)(prefix \<mapsto> v)\<rparr>"

definition declare_ns :: "xml_name \<times> string \<Rightarrow> xml_decoder \<Rightarrow> xml_decoder" where
  "declare_ns a d =
     (if xn_Space (fst a) = ''xmlns'' then push_ns (xn_Local (fst a)) (snd a) d
      else if xn_Space (fst a) = [] \<and> xn_Local (fst a) = ''xmlns'' then push_ns [] (snd a) d
      else d)"

fun undo_ns :: "stack_item list \<Rightarrow> (string \<rightharpoonup> string) \<Rightarrow> stack_item list \<times> (string \<rightharpoonup> string)" where
  "undo_ns (Scoped prefix old # stack) ns = undo_ns stack (ns(prefix := old))"
| "undo_ns stack ns = (stack, ns)"

section \<open>One token\<close>

text \<open>The token before names are resolved; an element that closes itself has two of them.\<close>

definition rawToken :: "go_env \<Rightarrow> xml_decoder \<Rightarrow> go_error + xml_token \<times> xml_decoder" where
  "rawToken env d =
     (case xd_ToClose d of
        Some name \<Rightarrow> Inr (EndElement name, d\<lparr>xd_ToClose := None\<rparr>)
      | None \<Rightarrow>
          if xd_Rest d = [] then Inl (xd_End d)
          else (case scan_token env (xd_Rest d) of
                  Inl e \<Rightarrow> Inl (scan_failure d e)
                | Inr ((t, closed), rest) \<Rightarrow>
                    Inr (t, d\<lparr>xd_Rest := rest, xd_ToClose :=
                      (case t of StartElement name attrs \<Rightarrow> if closed then Some name else None | _ \<Rightarrow> None)\<rparr>)))"

definition start_element :: "xml_name \<Rightarrow> (xml_name \<times> string) list \<Rightarrow> xml_decoder \<Rightarrow> xml_token \<times> xml_decoder" where
  "start_element name attrs d =
     (let d1 = fold declare_ns attrs d; name1 = translate (xd_Ns d1) True name
      in (StartElement name1 (map (\<lambda>(a, v). (translate (xd_Ns d1) False a, v)) attrs),
          d1\<lparr>xd_Stack := Opened name1 # xd_Stack d1\<rparr>))"

definition end_element :: "xml_name \<Rightarrow> xml_decoder \<Rightarrow> string + xml_token \<times> xml_decoder" where
  "end_element name d =
     (let t = translate (xd_Ns d) True name in
      case xd_Stack d of
        Opened s # below \<Rightarrow>
          if xn_Local s \<noteq> xn_Local t then
            Inl (''element <'' @ xn_Local s @ ''> closed by </'' @ xn_Local t @ ''>'')
          else if xn_Space s \<noteq> xn_Space t then
            Inl (''element <'' @ xn_Local s @ ''> in space '' @ xn_Space s @ ''closed by </'' @ xn_Local t
                 @ ''> in space '' @ xn_Space t)
          else (case undo_ns below (xd_Ns d) of
                  (stack, ns) \<Rightarrow> Inr (EndElement t, d\<lparr>xd_Stack := stack, xd_Ns := ns\<rparr>))
      | _ \<Rightarrow> Inl (''unexpected end element </'' @ xn_Local t @ ''>''))"

definition Token :: "go_env \<Rightarrow> xml_decoder \<Rightarrow> go_error + xml_token \<times> xml_decoder" where
  "Token env d =
     (case rawToken env d of
        Inl err \<Rightarrow>
          Inl (if err = io_EOF \<and> xd_Stack d \<noteq> [] then syntax_error d [] ''unexpected EOF'' else err)
      | Inr (t, d') \<Rightarrow>
          (case t of
             StartElement name attrs \<Rightarrow> Inr (start_element name attrs d')
           | EndElement name \<Rightarrow>
               (case end_element name d' of
                  Inl msg \<Rightarrow> Inl (syntax_error d' (xd_Rest d') msg)
                | Inr x \<Rightarrow> Inr x)
           | _ \<Rightarrow> Inr (t, d')))"

section \<open>All tokens\<close>

definition work_left :: "xml_decoder \<Rightarrow> nat" where
  "work_left d = 2 * length (xd_Rest d) + (case xd_ToClose d of None \<Rightarrow> 0 | Some _ \<Rightarrow> 1)"

lemma push_ns_fields [simp]:
  "xd_Rest (push_ns p v d) = xd_Rest d" "xd_ToClose (push_ns p v d) = xd_ToClose d"
  "xd_Lines (push_ns p v d) = xd_Lines d" "xd_End (push_ns p v d) = xd_End d"
  by (simp_all add: push_ns_def)

lemma declare_ns_fields [simp]:
  "xd_Rest (fold declare_ns attrs d) = xd_Rest d" "xd_ToClose (fold declare_ns attrs d) = xd_ToClose d"
  "xd_Lines (fold declare_ns attrs d) = xd_Lines d" "xd_End (fold declare_ns attrs d) = xd_End d"
  by (induction attrs arbitrary: d) (simp_all add: declare_ns_def)

lemma end_element_fields:
  assumes "end_element name d = Inr (t, d')"
  shows "xd_Rest d' = xd_Rest d \<and> xd_ToClose d' = xd_ToClose d"
  using assms by (auto simp: end_element_def Let_def split: list.splits stack_item.splits if_splits prod.splits)

lemma rawToken_work: "rawToken env d = Inr (t, d') \<Longrightarrow> work_left d' < work_left d"
  by (auto simp: rawToken_def work_left_def split: option.splits if_splits sum.splits xml_token.splits
      dest!: scan_token_shorter)

lemma Token_work: "Token env d = Inr (t, d') \<Longrightarrow> work_left d' < work_left d"
proof -
  assume token: "Token env d = Inr (t, d')"
  then obtain u d1 where raw: "rawToken env d = Inr (u, d1)"
    and "xd_Rest d' = xd_Rest d1 \<and> xd_ToClose d' = xd_ToClose d1"
    by (auto simp: Token_def start_element_def Let_def split: sum.splits xml_token.splits
        dest!: end_element_fields)
  then show ?thesis using rawToken_work [OF raw] by (simp add: work_left_def)
qed

text \<open>The tokens up to the first error, and that error.\<close>

function decode_all :: "go_env \<Rightarrow> xml_decoder \<Rightarrow> xml_token list \<times> go_error" where
  "decode_all env d =
     (case Token env d of
        Inl err \<Rightarrow> ([], err)
      | Inr (t, d') \<Rightarrow> (case decode_all env d' of (ts, err) \<Rightarrow> (t # ts, err)))"
  by pat_completeness auto
termination
  by (relation "measure (work_left \<circ> snd)") (auto dest!: sym [of _ "Token _ _"] Token_work)

declare decode_all.simps [simp del]

definition Tokens :: "go_env \<Rightarrow> reader \<Rightarrow> xml_token list \<times> go_error" where
  "Tokens env r = decode_all env (NewDecoder r)"

section \<open>The tokens are well nested\<close>

text \<open>What stands in a document, on the top level or in an element, and its tokens.\<close>

datatype xml_content =
    Text string
  | Remark string
  | Instruction string string
  | Declaration string
  | Element xml_name "(xml_name \<times> string) list" "xml_content list"

fun content_tokens :: "xml_content \<Rightarrow> xml_token list" where
  "content_tokens (Text t) = [CharData t]"
| "content_tokens (Remark t) = [Comment t]"
| "content_tokens (Instruction target inst) = [ProcInst target inst]"
| "content_tokens (Declaration d) = [Directive d]"
| "content_tokens (Element name attrs xs) =
     StartElement name attrs # concat (map content_tokens xs) @ [EndElement name]"

text \<open>Tokens that close the open elements, innermost first, each after some content.\<close>

fun closing :: "xml_name list \<Rightarrow> xml_token list \<Rightarrow> bool" where
  "closing [] ts \<longleftrightarrow> (\<exists>xs. ts = concat (map content_tokens xs))"
| "closing (n # ns) ts \<longleftrightarrow>
     (\<exists>xs us. ts = concat (map content_tokens xs) @ EndElement n # us \<and> closing ns us)"

lemma closing_content: "closing ns ts \<Longrightarrow> closing ns (content_tokens x @ ts)"
proof (cases ns)
  case Nil
  assume "closing ns ts"
  then obtain xs where "ts = concat (map content_tokens xs)" using Nil by auto
  then have "content_tokens x @ ts = concat (map content_tokens (x # xs))" by simp
  with Nil show ?thesis by (metis closing.simps(1))
next
  case (Cons n ns')
  assume "closing ns ts"
  then obtain xs us where "ts = concat (map content_tokens xs) @ EndElement n # us" "closing ns' us"
    using Cons by auto
  then have "content_tokens x @ ts = concat (map content_tokens (x # xs)) @ EndElement n # us \<and> closing ns' us"
    by simp
  with Cons show ?thesis by (metis closing.simps(2))
qed

lemma closing_end: "closing ns ts \<Longrightarrow> closing (n # ns) (EndElement n # ts)"
  unfolding closing.simps(2) by (rule exI [of _ "[]"], rule exI [of _ ts]) simp

lemma closing_start: "closing (n # ns) ts \<Longrightarrow> closing ns (StartElement n attrs # ts)"
proof -
  assume "closing (n # ns) ts"
  then obtain xs us where "ts = concat (map content_tokens xs) @ EndElement n # us" and us: "closing ns us" by auto
  then have "StartElement n attrs # ts = content_tokens (Element n attrs xs) @ us" by simp
  with closing_content [OF us] show ?thesis by metis
qed

definition opened :: "stack_item list \<Rightarrow> xml_name list" where
  "opened stack = concat (map (\<lambda>x. case x of Opened n \<Rightarrow> [n] | Scoped _ _ \<Rightarrow> []) stack)"

lemma opened_simps [simp]:
  "opened [] = []" "opened (Opened n # stack) = n # opened stack" "opened (Scoped p v # stack) = opened stack"
  by (simp_all add: opened_def)

lemma opened_undo [simp]: "opened (fst (undo_ns stack ns)) = opened stack"
proof (induction stack arbitrary: ns)
  case (Cons x stack)
  then show ?case by (cases x) simp_all
qed simp

lemma opened_declare [simp]: "opened (xd_Stack (fold declare_ns attrs d)) = opened (xd_Stack d)"
  by (induction attrs arbitrary: d) (simp_all add: declare_ns_def push_ns_def)

text \<open>One step keeps the end of the input in view, and opens or closes what its token says.\<close>

lemma end_element_Inr:
  assumes "end_element name d = Inr (t, d')"
  shows "\<exists>n. t = EndElement n \<and> opened (xd_Stack d) = n # opened (xd_Stack d')"
    and "xd_End d' = xd_End d"
proof -
  from assms obtain s below where stack: "xd_Stack d = Opened s # below" and s: "s = translate (xd_Ns d) True name"
    and t: "t = EndElement s" "d' = d\<lparr>xd_Stack := fst (undo_ns below (xd_Ns d)), xd_Ns := snd (undo_ns below (xd_Ns d))\<rparr>"
    by (auto simp: end_element_def Let_def split: list.splits stack_item.splits if_splits prod.splits
        intro: xml_name.equality)
  then show "\<exists>n. t = EndElement n \<and> opened (xd_Stack d) = n # opened (xd_Stack d')" "xd_End d' = xd_End d"
    by simp_all
qed

lemma rawToken_fields:
  assumes "rawToken env d = Inr (t, d')"
  shows "xd_Stack d' = xd_Stack d \<and> xd_End d' = xd_End d"
  using assms by (auto simp: rawToken_def split: option.splits if_splits sum.splits)

definition opens :: "xml_token \<Rightarrow> xml_name list \<Rightarrow> xml_name list \<Rightarrow> bool" where
  "opens t ns ns' \<longleftrightarrow>
     (case t of StartElement n attrs \<Rightarrow> ns' = n # ns | EndElement n \<Rightarrow> ns = n # ns' | _ \<Rightarrow> ns' = ns)"

lemma Token_opens:
  assumes "Token env d = Inr (t, d')"
  shows "opens t (opened (xd_Stack d)) (opened (xd_Stack d'))" and "xd_End d' = xd_End d"
proof -
  from assms obtain u d1 where raw: "rawToken env d = Inr (u, d1)"
    and step: "(case u of StartElement name attrs \<Rightarrow> (t, d') = start_element name attrs d1
      | EndElement name \<Rightarrow> end_element name d1 = Inr (t, d') | _ \<Rightarrow> t = u \<and> d' = d1)"
    by (auto simp: Token_def split: sum.splits xml_token.splits)
  from step rawToken_fields [OF raw] end_element_Inr [of _ d1 t d']
  show "opens t (opened (xd_Stack d)) (opened (xd_Stack d'))" "xd_End d' = xd_End d"
    by (auto simp: opens_def start_element_def Let_def split: xml_token.splits)
qed

lemma opens_closing: "opens t ns ns' \<Longrightarrow> closing ns' ts \<Longrightarrow> closing ns (t # ts)"
proof (cases t)
  case (StartElement n attrs)
  then show "opens t ns ns' \<Longrightarrow> closing ns' ts \<Longrightarrow> closing ns (t # ts)"
    using closing_start by (simp add: opens_def del: closing.simps)
next
  case (EndElement n)
  then show "opens t ns ns' \<Longrightarrow> closing ns' ts \<Longrightarrow> closing ns (t # ts)"
    using closing_end by (simp add: opens_def del: closing.simps)
qed (use closing_content [of ns ts "Text _"] closing_content [of ns ts "Remark _"]
    closing_content [of ns ts "Instruction _ _"] closing_content [of ns ts "Declaration _"]
  in \<open>simp_all add: opens_def del: closing.simps\<close>)

lemma syntax_error_not_EOF [simp]: "syntax_error d rest msg \<noteq> io_EOF" "io_EOF \<noteq> syntax_error d rest msg"
  by (simp_all add: syntax_error_def io_EOF_def)

lemma decode_closing:
  "snd (decode_all env d) = io_EOF \<Longrightarrow> closing (opened (xd_Stack d)) (fst (decode_all env d))"
proof (induction env d rule: decode_all.induct)
  case (1 env d)
  show ?case
  proof (cases "Token env d")
    case (Inl err)
    with "1.prems" have "xd_Stack d = []"
      by (auto simp: decode_all.simps [of env d] Token_def split: sum.splits xml_token.splits if_splits)
    with Inl show ?thesis by (auto simp: decode_all.simps [of env d] intro: exI [of _ "[]"])
  next
    case (Inr x)
    then obtain t d' where x: "Token env d = Inr (t, d')" by (cases x) auto
    with "1.prems" have "snd (decode_all env d') = io_EOF" by (simp add: decode_all.simps [of env d] split: prod.splits)
    with "1.IH" [OF x refl] have "closing (opened (xd_Stack d')) (fst (decode_all env d'))" by simp
    from opens_closing [OF Token_opens(1) [OF x] this] show ?thesis
      by (cases "decode_all env d'") (simp add: decode_all.simps [of env d] x)
  qed
qed

text \<open>Input that is read to its end is a document, or nothing at all.\<close>

lemma Tokens_document:
  assumes "Tokens env r = (ts, io_EOF)"
  shows "\<exists>xs. ts = concat (map content_tokens xs)"
  using decode_closing [of env "NewDecoder r"] assms by (simp add: Tokens_def NewDecoder_def)

end
