(* ===== verification/Xmldom_Parse.thy ===== *)
theory Xmldom_Parse
  imports Xmldom Go_Xml_Decoder
begin

text \<open>
  \<open>Parse\<close> of \<open>vendor/github.com/subchen/go-xmldom/dom.go\<close>: from the tokens of Go's XML
  decoder to the tree, and what it makes of the document in its input.
\<close>

section \<open>Trimming\<close>

text \<open>\<open>unicode.IsSpace\<close>: the runes with the property White Space.\<close>

definition IsSpace :: "nat \<Rightarrow> bool" where
  "IsSpace r \<longleftrightarrow> 0x09 \<le> r \<and> r \<le> 0x0D \<or> r = 0x20 \<or> r = 0x85 \<or> r = 0xA0 \<or> r = 0x1680
     \<or> 0x2000 \<le> r \<and> r \<le> 0x200A \<or> r = 0x2028 \<or> r = 0x2029 \<or> r = 0x202F \<or> r = 0x205F \<or> r = 0x3000"

fun trim_left :: "string \<Rightarrow> string" where
  "trim_left [] = []"
| "trim_left (c # cs) =
     (case DecodeRune (c # cs) of (r, width) \<Rightarrow>
        if IsSpace r then trim_left (drop (width - 1) cs) else c # cs)"

text \<open>
  The runes are taken from the front here and from the back by Go, which is the same on UTF-8;
  the decoder hands out nothing else.
\<close>

fun trim_right :: "string \<Rightarrow> string" where
  "trim_right [] = []"
| "trim_right (c # cs) =
     (case DecodeRune (c # cs) of (r, width) \<Rightarrow>
        (let rest = trim_right (drop (width - 1) cs)
         in if IsSpace r \<and> rest = [] then [] else take width (c # cs) @ rest))"

definition TrimSpace :: "string \<Rightarrow> string" where
  "TrimSpace s = trim_right (trim_left s)"

section \<open>Parsing\<close>

text \<open>
  The state of the loop: the current element \<open>e\<close> and its ancestors, innermost first, each with
  the children it has so far; the first element that was closed on the top level; and the other
  fields of the document. The source hangs an element into its parent when it starts, here it is
  added when it ends: the elements in between are its descendants.
\<close>

record parse_state =
  ps_Open :: "node list"
  ps_Closed :: "node option"
  ps_ProcInst :: string
  ps_Directives :: "string list"

definition stringifyProcInst :: "string \<Rightarrow> string \<Rightarrow> string" where
  "stringifyProcInst target inst = ''<?'' @ target @ '' '' @ inst @ ''?>''"

definition stringifyDirective :: "string \<Rightarrow> string" where
  "stringifyDirective directive = ''<!'' @ directive @ ''>''"

fun add_child :: "node \<Rightarrow> node \<Rightarrow> node" where
  "add_child c (Node name attrs children txt) = Node name attrs (children @ [c]) txt"

fun set_text :: "string \<Rightarrow> node \<Rightarrow> node" where
  "set_text t (Node name attrs children txt) = Node name attrs children t"

text \<open>The end of an element that was never started dereferences nil.\<close>

fun parse_token :: "xml_token \<Rightarrow> parse_state \<Rightarrow> go_panic + parse_state" where
  "parse_token (StartElement name attrs) s =
     Inr (s\<lparr>ps_Open := Node (xn_Local name) (map (\<lambda>(a, v). (xn_Local a, v)) attrs) [] [] # ps_Open s\<rparr>)"
| "parse_token (EndElement name) s =
     (case ps_Open s of
        [] \<Rightarrow> Inl NilDereference
      | [e] \<Rightarrow> Inr (s\<lparr>ps_Open := [],
                    ps_Closed := (case ps_Closed s of None \<Rightarrow> Some e | Some r \<Rightarrow> Some r)\<rparr>)
      | e # parent # es \<Rightarrow> Inr (s\<lparr>ps_Open := add_child e parent # es\<rparr>))"
| "parse_token (CharData t) s =
     (case ps_Open s of
        [] \<Rightarrow> Inr s
      | e # es \<Rightarrow> Inr (s\<lparr>ps_Open := set_text (TrimSpace t) e # es\<rparr>))"
| "parse_token (Comment t) s = Inr s"
| "parse_token (ProcInst target inst) s = Inr (s\<lparr>ps_ProcInst := stringifyProcInst target inst\<rparr>)"
| "parse_token (Directive d) s =
     Inr (s\<lparr>ps_Directives := ps_Directives s @ [stringifyDirective d]\<rparr>)"

fun parse_tokens :: "xml_token list \<Rightarrow> parse_state \<Rightarrow> go_panic + parse_state" where
  "parse_tokens [] s = Inr s"
| "parse_tokens (t # ts) s =
     (case parse_token t s of Inl p \<Rightarrow> Inl p | Inr s' \<Rightarrow> parse_tokens ts s')"

text \<open>The root of the tree, also when elements are still open.\<close>

fun outermost :: "node list \<Rightarrow> node option" where
  "outermost [] = None"
| "outermost [e] = Some e"
| "outermost (e # parent # es) = outermost (add_child e parent # es)"

definition document_of :: "parse_state \<Rightarrow> document" where
  "document_of s =
     \<lparr>doc_ProcInst = ps_ProcInst s, doc_Directives = ps_Directives s,
      doc_Root = (case ps_Closed s of Some r \<Rightarrow> Some r | None \<Rightarrow> outermost (ps_Open s))\<rparr>"

definition parse_start :: parse_state where
  "parse_start = \<lparr>ps_Open = [], ps_Closed = None, ps_ProcInst = [], ps_Directives = []\<rparr>"

definition Parse_stream :: "xml_token list \<times> go_error \<Rightarrow> go_panic + (go_error + document)" where
  "Parse_stream input =
     (case input of (tokens, err) \<Rightarrow>
        if tokens = [] then Inr (Inl err)
        else (case parse_tokens tokens parse_start of
                Inl p \<Rightarrow> Inl p
              | Inr s \<Rightarrow> if err \<noteq> io_EOF then Inr (Inl err) else Inr (Inr (document_of s))))"

definition Parse :: "go_env \<Rightarrow> reader \<Rightarrow> go_panic + (go_error + document)" where
  "Parse env r = Parse_stream (Tokens env r)"

lemma parse_tokens_append:
  "parse_tokens (ts @ us) s =
     (case parse_tokens ts s of Inl p \<Rightarrow> Inl p | Inr s' \<Rightarrow> parse_tokens us s')"
  by (induction ts arbitrary: s) (auto split: sum.split)

text \<open>
  The end of an element that was never started cannot come up: the decoder matches the tags, and
  the tree has as many open nodes as the decoder has open elements.
\<close>

lemma parse_token_opens:
  assumes "opens t ns ns'" and "length (ps_Open s) = length ns"
  shows "\<exists>s'. parse_token t s = Inr s' \<and> length (ps_Open s') = length ns'"
  using assms by (cases t) (auto simp: opens_def split: list.splits)

lemma parse_decoded:
  "length (ps_Open s) = length (opened (xd_Stack d)) \<Longrightarrow> \<exists>s'. parse_tokens (fst (decode_all env d)) s = Inr s'"
proof (induction env d arbitrary: s rule: decode_all.induct)
  case (1 env d)
  show ?case
  proof (cases "Token env d")
    case (Inr x)
    then obtain t d' where x: "Token env d = Inr (t, d')" by (cases x) auto
    from parse_token_opens [OF Token_opens(1) [OF x] "1.prems"] obtain s' where
      s': "parse_token t s = Inr s'" "length (ps_Open s') = length (opened (xd_Stack d'))" by blast
    from "1.IH" [OF x refl s'(2)] s'(1) show ?thesis
      by (cases "decode_all env d'") (simp add: decode_all.simps [of env d] x)
  qed (simp add: decode_all.simps [of env d])
qed

lemma Parse_no_panic: "\<exists>res. Parse env r = Inr res"
proof -
  obtain ts err where ts: "Tokens env r = (ts, err)" by (cases "Tokens env r")
  with parse_decoded [of parse_start "NewDecoder r" env] obtain s where "parse_tokens ts parse_start = Inr s"
    by (auto simp: Tokens_def parse_start_def NewDecoder_def)
  then show ?thesis by (auto simp: Parse_def Parse_stream_def ts)
qed

lemma Parse_not_panic [simp]: "Parse env r \<noteq> Inl p"
  using Parse_no_panic [of env r] by auto

section \<open>Well-nested documents\<close>

text \<open>
  The node of an element: its child elements in order, and of its texts the last one, trimmed.
\<close>

fun is_text :: "xml_content \<Rightarrow> bool" where
  "is_text (Text _) = True"
| "is_text _ = False"

fun text_of :: "xml_content \<Rightarrow> string" where
  "text_of (Text t) = t"
| "text_of _ = []"

definition last_text :: "xml_content list \<Rightarrow> string" where
  "last_text xs = (case filter is_text xs of [] \<Rightarrow> [] | ts \<Rightarrow> TrimSpace (text_of (last ts)))"

lemma last_text_snoc: "last_text (xs @ [Text t]) = TrimSpace t"
  by (cases "filter is_text xs") (simp_all add: last_text_def)

fun content_nodes :: "xml_content \<Rightarrow> node list" where
  "content_nodes (Element name attrs xs) =
     [Node (xn_Local name) (map (\<lambda>(a, v). (xn_Local a, v)) attrs) (concat (map content_nodes xs))
        (last_text xs)]"
| "content_nodes _ = []"

text \<open>What the tokens of one item do to the current element.\<close>

fun add_content :: "xml_content \<Rightarrow> node \<Rightarrow> node" where
  "add_content (Text t) e = set_text (TrimSpace t) e"
| "add_content x e = foldl (\<lambda>e c. add_child c e) e (content_nodes x)"

fun meta_content :: "xml_content \<Rightarrow> string \<times> string list \<Rightarrow> string \<times> string list" where
  "meta_content (Instruction target inst) (p, ds) = (stringifyProcInst target inst, ds)"
| "meta_content (Declaration d) (p, ds) = (p, ds @ [stringifyDirective d])"
| "meta_content (Element name attrs xs) m = fold meta_content xs m"
| "meta_content _ m = m"

definition with_meta :: "string \<times> string list \<Rightarrow> parse_state \<Rightarrow> parse_state" where
  "with_meta m s = s\<lparr>ps_ProcInst := fst m, ps_Directives := snd m\<rparr>"

definition meta_of :: "parse_state \<Rightarrow> string \<times> string list" where
  "meta_of s = (ps_ProcInst s, ps_Directives s)"

lemma with_meta_simps [simp]:
  "with_meta (meta_of s) s = s" "with_meta m (with_meta n s) = with_meta m s"
  "meta_of (with_meta m s) = m" "meta_of (s\<lparr>ps_Open := es\<rparr>) = meta_of s"
  "(with_meta m s)\<lparr>ps_Open := es\<rparr> = with_meta m (s\<lparr>ps_Open := es\<rparr>)"
  "ps_Open (with_meta m s) = ps_Open s" "ps_Closed (with_meta m s) = ps_Closed s"
  by (simp_all add: with_meta_def meta_of_def)

lemma fold_add_content:
  "fold add_content xs (Node name attrs children old) =
     Node name attrs (children @ concat (map content_nodes xs))
       (if filter is_text xs = [] then old else last_text xs)"
proof (induction xs arbitrary: children old)
  case (Cons x xs)
  then show ?case
    by (cases x) (auto simp: last_text_def split: list.splits)
qed simp

lemma fold_add_new:
  "fold add_content xs (Node name attrs [] []) = Node name attrs (concat (map content_nodes xs)) (last_text xs)"
  by (simp add: fold_add_content last_text_def)

lemma parse_contents:
  assumes "\<And>x s e es. x \<in> set xs \<Longrightarrow> ps_Open s = e # es \<Longrightarrow> parse_tokens (content_tokens x) s =
      Inr (with_meta (meta_content x (meta_of s)) (s\<lparr>ps_Open := add_content x e # es\<rparr>))"
    and "ps_Open s = e # es"
  shows "parse_tokens (concat (map content_tokens xs)) s =
    Inr (with_meta (fold meta_content xs (meta_of s)) (s\<lparr>ps_Open := fold add_content xs e # es\<rparr>))"
  using assms
proof (induction xs arbitrary: s e)
  case Nil
  then have "s\<lparr>ps_Open := e # es\<rparr> = s" by simp
  then show ?case by simp
next
  case (Cons x xs)
  let ?s = "with_meta (meta_content x (meta_of s)) (s\<lparr>ps_Open := add_content x e # es\<rparr>)"
  have "parse_tokens (content_tokens x) s = Inr ?s" by (rule Cons.prems(1)) (simp_all add: Cons.prems(2))
  moreover have "parse_tokens (concat (map content_tokens xs)) ?s =
      Inr (with_meta (fold meta_content xs (meta_of ?s)) (?s\<lparr>ps_Open := fold add_content xs (add_content x e) # es\<rparr>))"
    by (rule Cons.IH) (simp_all add: Cons.prems(1))
  ultimately show ?case by (simp add: parse_tokens_append)
qed

lemma parse_content_tokens:
  "ps_Open s = e # es \<Longrightarrow> parse_tokens (content_tokens x) s =
     Inr (with_meta (meta_content x (meta_of s)) (s\<lparr>ps_Open := add_content x e # es\<rparr>))"
proof (induction x arbitrary: s e es)
  case (Element name attrs xs)
  let ?n = "Node (xn_Local name) (map (\<lambda>(a, v). (xn_Local a, v)) attrs) [] []"
  let ?s = "s\<lparr>ps_Open := ?n # e # es\<rparr>"
  have "parse_tokens (concat (map content_tokens xs)) ?s = Inr (with_meta (fold meta_content xs (meta_of ?s))
      (?s\<lparr>ps_Open := fold add_content xs ?n # e # es\<rparr>))"
    by (rule parse_contents) (use Element.IH in simp_all)
  with Element.prems show ?case by (simp add: parse_tokens_append fold_add_new)
qed (simp_all add: with_meta_def meta_of_def)

text \<open>On the top level the first element counts, texts do not.\<close>

definition first_node :: "node list \<Rightarrow> node option" where
  "first_node ns = (case ns of [] \<Rightarrow> None | n # _ \<Rightarrow> Some n)"

definition close_root :: "node list \<Rightarrow> parse_state \<Rightarrow> parse_state" where
  "close_root ns s =
     s\<lparr>ps_Closed := (case ps_Closed s of None \<Rightarrow> first_node ns | Some r \<Rightarrow> Some r)\<rparr>"

lemma close_root_simps [simp]:
  "ps_Open (close_root ns s) = ps_Open s" "meta_of (close_root ns s) = meta_of s"
  "close_root ns (with_meta m s) = with_meta m (close_root ns s)" "close_root [] s = s"
  "close_root ns (close_root ms s) = close_root (ms @ ns) s"
  by (cases s; simp add: close_root_def with_meta_def meta_of_def first_node_def split: option.split list.split)+

lemma parse_top:
  assumes "ps_Open s = []"
  shows "parse_tokens (content_tokens x) s =
    Inr (with_meta (meta_content x (meta_of s)) (close_root (content_nodes x) s))"
proof (cases x)
  case (Element name attrs xs)
  let ?n = "Node (xn_Local name) (map (\<lambda>(a, v). (xn_Local a, v)) attrs) [] []"
  let ?s = "s\<lparr>ps_Open := [?n]\<rparr>"
  have "parse_tokens (concat (map content_tokens xs)) ?s = Inr (with_meta (fold meta_content xs (meta_of ?s))
      (?s\<lparr>ps_Open := [fold add_content xs ?n]\<rparr>))"
    by (rule parse_contents) (simp_all add: parse_content_tokens)
  moreover have "s\<lparr>ps_Open := []\<rparr> = s" using assms by simp
  ultimately show ?thesis using assms
    by (cases s) (auto simp: Element parse_tokens_append fold_add_new close_root_def first_node_def
        with_meta_def meta_of_def split: option.split)
qed (use assms in \<open>simp_all add: with_meta_def meta_of_def\<close>)

lemma parse_tops:
  "ps_Open s = [] \<Longrightarrow> parse_tokens (concat (map content_tokens xs)) s =
     Inr (with_meta (fold meta_content xs (meta_of s)) (close_root (concat (map content_nodes xs)) s))"
  by (induction xs arbitrary: s) (simp_all add: parse_tokens_append parse_top)

lemma Parse_contents:
  "Parse_stream (concat (map content_tokens xs), err) =
     Inr (if xs = [] \<or> err \<noteq> io_EOF then Inl err
       else Inr \<lparr>doc_ProcInst = fst (fold meta_content xs ([], [])),
         doc_Directives = snd (fold meta_content xs ([], [])),
         doc_Root = first_node (concat (map content_nodes xs))\<rparr>)"
proof -
  have "content_tokens x \<noteq> []" for x by (cases x) simp_all
  then have none: "concat (map content_tokens xs) = [] \<longleftrightarrow> xs = []" by (cases xs) auto
  have start: "meta_of parse_start = ([], [])" "ps_Open parse_start = []"
    by (simp_all add: parse_start_def meta_of_def)
  have "document_of (with_meta m (close_root ns parse_start)) =
      \<lparr>doc_ProcInst = fst m, doc_Directives = snd m, doc_Root = first_node ns\<rparr>" for m ns
    by (simp add: document_of_def close_root_def with_meta_def parse_start_def split: option.split)
  with parse_tops [OF start(2), of xs] show ?thesis
    unfolding Parse_stream_def none prod.case start(1) by (cases "xs = []") simp_all
qed

text \<open>A tree with trimmed texts is the tree of a document: its elements, each text at the end.\<close>

fun node_content :: "node \<Rightarrow> xml_content" where
  "node_content (Node name attrs children txt) =
     Element \<lparr>xn_Space = [], xn_Local = name\<rparr> (map (\<lambda>(a, v). (\<lparr>xn_Space = [], xn_Local = a\<rparr>, v)) attrs)
       (map node_content children @ (if txt = [] then [] else [Text txt]))"

fun trimmed :: "node \<Rightarrow> bool" where
  "trimmed (Node name attrs children txt) \<longleftrightarrow> TrimSpace txt = txt \<and> list_all trimmed children"

lemma is_text_node_content: "\<not> is_text (node_content n)"
  by (cases n) simp

lemma not_text: "filter is_text (map node_content ns) = []"
  by (induction ns) (simp_all add: is_text_node_content)

lemma content_nodes_of: "trimmed n \<Longrightarrow> content_nodes (node_content n) = [n]"
proof (induction n rule: node_content.induct)
  case (1 name attrs children old)
  then have "concat (map content_nodes (map node_content children)) = children"
    by (induction children) simp_all
  with 1 show ?case
    by (simp add: last_text_def not_text comp_def case_prod_beta)
qed

definition node_tokens :: "node \<Rightarrow> xml_token list" where
  "node_tokens n = content_tokens (node_content n)"

lemma Parse_node:
  assumes "trimmed n"
  shows "\<exists>doc. Parse_stream (node_tokens n, io_EOF) = Inr (Inr doc) \<and> doc_Root doc = Some n"
  using Parse_contents [of "[node_content n]" io_EOF] content_nodes_of [OF assms]
  by (simp add: node_tokens_def first_node_def)

text \<open>
  C36: whatever the input, \<open>Parse\<close> ends without a panic. Input that the decoder reads to its end is
  a document, and it becomes the tree of its first element: every element with its attributes, its
  child elements in order, and only the last of the texts directly inside it, trimmed. Any other
  input, and empty input, gives the error of the decoder.
\<close>

theorem Parse_document:
  "\<exists>ts err xs. Tokens env r = (ts, err)
     \<and> (if err = io_EOF then ts = concat (map content_tokens xs) else xs = [])
     \<and> Parse env r =
     Inr (if xs = [] then Inl err
       else Inr \<lparr>doc_ProcInst = fst (fold meta_content xs ([], [])),
         doc_Directives = snd (fold meta_content xs ([], [])),
         doc_Root = first_node (concat (map content_nodes xs))\<rparr>)"
proof -
  obtain ts err where ts: "Tokens env r = (ts, err)" by (cases "Tokens env r")
  show ?thesis
  proof (cases "err = io_EOF")
    case True
    with Tokens_document [of env r ts] ts obtain xs where xs: "ts = concat (map content_tokens xs)" by blast
    with Parse_contents [of xs err] True ts show ?thesis
      by (intro exI [of _ ts] exI [of _ err] exI [of _ xs]) (simp add: Parse_def)
  next
    case False
    obtain res where "Parse env r = Inr res" using Parse_no_panic by blast
    with False have "Parse env r = Inr (Inl err)"
      by (auto simp: Parse_def Parse_stream_def ts split: if_splits sum.splits)
    with False ts show ?thesis by auto
  qed
qed

end
