(* ===== verification/Go_Xml_Decode.thy ===== *)
theory Go_Xml_Decode
  imports Go_Xml_Decoder
begin

text \<open>
  What the program uses of \<open>xml.Unmarshal\<close>: a struct with the expected name of the element and an
  \<open>innerxml\<close> field, which gets the bytes between its start tag and its end tag.
\<close>

text \<open>The first start tag; everything before it is left out.\<close>

function first_start :: "go_env \<Rightarrow> xml_decoder \<Rightarrow> go_error + xml_name \<times> xml_decoder" where
  "first_start env d =
     (case Token env d of
        Inl err \<Rightarrow> Inl err
      | Inr (t, d') \<Rightarrow>
          (case t of StartElement name attrs \<Rightarrow> Inr (name, d') | _ \<Rightarrow> first_start env d'))"
  by pat_completeness auto
termination
  by (relation "measure (work_left \<circ> snd)") (auto dest!: sym [of _ "Token _ _"] Token_work)

text \<open>
  The tokens inside the element, those of its children left out by \<open>Skip\<close>: the decoder as it is
  before the end tag of the element is read.
\<close>

function inner_end :: "go_env \<Rightarrow> nat \<Rightarrow> xml_decoder \<Rightarrow> go_error + xml_decoder" where
  "inner_end env depth d =
     (case Token env d of
        Inl err \<Rightarrow> Inl err
      | Inr (t, d') \<Rightarrow>
          (case t of
             StartElement name attrs \<Rightarrow> inner_end env (depth + 1) d'
           | EndElement name \<Rightarrow> if depth = 0 then Inr d else inner_end env (depth - 1) d'
           | _ \<Rightarrow> inner_end env depth d'))"
  by pat_completeness auto
termination
  by (relation "measure (\<lambda>(env, depth, d). work_left d)") (auto dest!: sym [of _ "Token _ _"] Token_work)

declare first_start.simps [simp del] inner_end.simps [simp del]

definition Unmarshal_inner :: "go_env \<Rightarrow> string \<Rightarrow> string \<Rightarrow> go_error + string" where
  "Unmarshal_inner env name s =
     (case first_start env (NewDecoder (s, io_EOF)) of
        Inl err \<Rightarrow> Inl err
      | Inr (start, d) \<Rightarrow>
          if xn_Local start \<noteq> name then
            Inl (ErrorString (''expected element type <'' @ name @ ''> but have <'' @ xn_Local start @ ''>''))
          else (case inner_end env 0 d of
                  Inl err \<Rightarrow> Inl err
                | Inr d' \<Rightarrow> Inr (take (length (xd_Rest d) - length (xd_Rest d')) (xd_Rest d))))"

section \<open>Content is left out as a whole\<close>

text \<open>Several tokens, one after the other.\<close>

inductive reads :: "go_env \<Rightarrow> xml_decoder \<Rightarrow> xml_token list \<Rightarrow> xml_decoder \<Rightarrow> bool" for env where
  reads_none: "reads env d [] d"
| reads_token: "Token env d = Inr (t, d1) \<Longrightarrow> reads env d1 ts d2 \<Longrightarrow> reads env d (t # ts) d2"

lemma reads_append: "reads env d ts d1 \<Longrightarrow> reads env d1 us d2 \<Longrightarrow> reads env d (ts @ us) d2"
  by (induction rule: reads.induct) (auto intro: reads.intros)

lemma reads_one: "Token env d = Inr (t, d') \<Longrightarrow> reads env d [t] d'"
  by (auto intro: reads.intros)

lemma reads_decode:
  "reads env d ts d' \<Longrightarrow> decode_all env d = (ts @ fst (decode_all env d'), snd (decode_all env d'))"
  by (induction rule: reads.induct) (simp_all add: decode_all.simps [of env d for d] split: prod.split)

text \<open>The depth after some tokens, as long as they do not leave the element.\<close>

fun depth_after :: "nat \<Rightarrow> xml_token list \<Rightarrow> nat option" where
  "depth_after n [] = Some n"
| "depth_after n (StartElement name attrs # ts) = depth_after (n + 1) ts"
| "depth_after n (EndElement name # ts) = (if n = 0 then None else depth_after (n - 1) ts)"
| "depth_after n (_ # ts) = depth_after n ts"

lemma inner_end_reads:
  "reads env d ts d' \<Longrightarrow> depth_after n ts = Some m \<Longrightarrow> inner_end env n d = inner_end env m d'"
proof (induction arbitrary: n rule: reads.induct)
  case (reads_token d t d1 ts d2)
  then show ?case by (cases t) (auto simp: inner_end.simps [of env n d] split: if_splits)
qed simp

lemma depth_after_content: "depth_after n (content_tokens x @ ts) = depth_after n ts"
proof (induction x arbitrary: n ts)
  case (Element name attrs xs)
  have "depth_after n (concat (map content_tokens ys) @ ts) = depth_after n ts" if "set ys \<subseteq> set xs" for ys n ts
    using that by (induction ys) (simp_all add: Element.IH)
  from this [OF subset_refl] show ?case by simp
qed simp_all

lemma depth_after_contents: "depth_after n (concat (map content_tokens xs) @ ts) = depth_after n ts"
  by (induction xs) (simp_all add: depth_after_content)

end
