(* ===== verification/Xmldom_Roundtrip.thy ===== *)
theory Xmldom_Roundtrip
  imports Xmldom_Parse Go_Xml_Decode Samples
begin

text \<open>
  The decoder reads what the DOM prints: escaped text, attributes, elements and whole documents.
\<close>

section \<open>Escaped text\<close>

text \<open>What is left of a text that was escaped and read again: bytes that XML cannot hold are replaced.\<close>

fun clean_text :: "string \<Rightarrow> string" where
  "clean_text [] = []"
| "clean_text (c # cs) =
     (case DecodeRune (c # cs) of (r, width) \<Rightarrow>
        (if \<not> is_in_character_range r \<or> r = rune_error \<and> width = 1 then esc_fffd else take width (c # cs))
        @ clean_text (drop (width - 1) cs))"

lemma clean_valid: "valid_text s \<Longrightarrow> clean_text s = s"
proof (induction s rule: clean_text.induct)
  case (2 c cs)
  obtain r w where d: "DecodeRune (c # cs) = (r, w)" by (cases "DecodeRune (c # cs)")
  have "take w (c # cs) @ drop (w - 1) cs = c # cs" using DecodeRune_width [of c cs] d by (cases w) auto
  with 2 d show ?case by (auto simp del: DecodeRune.simps)
qed simp

text \<open>A rune is decoded the same way whatever follows it.\<close>

lemma DecodeRune_prefix:
  assumes "DecodeRune (c # cs) = (r, w)" and "\<not> (r = rune_error \<and> w = 1)"
  shows "DecodeRune (take w (c # cs) @ t) = (r, w)"
  using assms
  by (auto simp: Let_def split: list.splits if_splits)

lemma valid_text_prepend:
  assumes "DecodeRune (c # cs) = (r, w)" and "is_in_character_range r"
    and "\<not> (r = rune_error \<and> w = 1)" and "valid_text t"
  shows "valid_text (take w (c # cs) @ t)"
proof -
  have w: "1 \<le> w" "w \<le> length (c # cs)" using DecodeRune_width [of c cs] assms(1) by simp_all
  then obtain x where x: "take w (c # cs) = c # x" "length x = w - 1" by (cases w) auto
  with DecodeRune_prefix [OF assms(1,3), of t] assms(2-4) show ?thesis
    by (simp del: DecodeRune.simps)
qed

lemma valid_text_fffd: "valid_text (esc_fffd @ t) = valid_text t"
proof -
  have "DecodeRune (esc_fffd @ t) = (rune_error, 3)"
    by (simp add: esc_fffd_def rune_error_def byte_in_def)
  then show ?thesis
    by (simp add: esc_fffd_def is_in_character_range_def rune_error_def del: DecodeRune.simps)
qed

lemma valid_clean: "valid_text (clean_text s)"
proof (induction s rule: clean_text.induct)
  case (2 c cs)
  obtain r w where d: "DecodeRune (c # cs) = (r, w)" by (cases "DecodeRune (c # cs)")
  with "2.IH" [OF d [symmetric]] valid_text_prepend [OF d] valid_text_fffd show ?case
    by (auto simp del: DecodeRune.simps)
qed simp

lemma legal_valid: "valid_text s \<Longrightarrow> illegal_text s = None"
  by (induction s rule: valid_text.induct) (auto split: prod.splits simp del: DecodeRune.simps)

text \<open>Bytes that the scanner copies, and the references that escaping writes.\<close>

definition copied :: "char option \<Rightarrow> char \<Rightarrow> bool" where
  "copied quote b \<longleftrightarrow> quote \<noteq> Some b \<and> b \<notin> {CHR ''<'', CHR ''>'', CHR ''&'', CHR 0x0D, CHR 0x0A}"

lemma text_loop_copied:
  "list_all (copied quote) p \<Longrightarrow>
    \<exists>c0 c1. text_loop env quote False b0 b1 buf (p @ s) = text_loop env quote False c0 c1 (buf @ p) s"
proof (induction p arbitrary: b0 b1 buf)
  case (Cons b p)
  then have "text_loop env quote False b0 b1 buf ((b # p) @ s)
      = text_loop env quote False b1 b (buf @ [b]) (p @ s)"
    by (auto simp: text_loop.simps copied_def)
  with Cons.IH [of b1 b "buf @ [b]"] Cons.prems show ?case by simp
qed auto

lemma digit_simps [simp]: "digit_of base (CHR '';'') = None"
  by (simp add: digit_of_def)

lemma not_name_bytes [simp]:
  "\<not> name_byte (CHR '';'')" "\<not> name_byte (CHR ''='')" "\<not> name_byte (CHR ''>'')" "\<not> name_byte (CHR '' '')"
  "\<not> name_byte (CHR ''/'')" "\<not> name_byte (CHR ''<'')" "\<not> name_byte (CHR 0x22)"
  by (simp_all add: name_byte_def is_name_byte_def)

lemma read_references:
  "read_reference env (''#34;'' @ s) = Inr ([CHR 0x22], s)"
  "read_reference env (''#39;'' @ s) = Inr ([CHR 0x27], s)"
  "read_reference env (''amp;'' @ s) = Inr (''&'', s)"
  "read_reference env (''lt;'' @ s) = Inr (''<'', s)"
  "read_reference env (''gt;'' @ s) = Inr (''>'', s)"
  "read_reference env (''#x9;'' @ s) = Inr ([CHR 0x09], s)"
  "read_reference env (''#xA;'' @ s) = Inr ([CHR 0x0A], s)"
  "read_reference env (''#xD;'' @ s) = Inr ([CHR 0x0D], s)"
  by (simp_all add: read_reference_def reference_end_def HasPrefix_def Let_def digit_of_def digits_value_def
      encode_rune_def MaxRune_def entity_def isName_def name_byte_def is_name_byte_def first_rune_def
      second_rune_def rune_error_def char_of_def bit_0)

definition escapes :: "(char \<times> string) list" where
  "escapes = [(CHR 0x22, ''#34;''), (CHR 0x27, ''#39;''), (CHR ''&'', ''amp;''), (CHR ''<'', ''lt;''),
     (CHR ''>'', ''gt;''), (CHR 0x09, ''#x9;''), (CHR 0x0A, ''#xA;''), (CHR 0x0D, ''#xD;'')]"

lemma text_loop_reference:
  assumes "(c, p) \<in> set escapes" and "quote \<in> {None, Some (CHR 0x22)}"
  shows "text_loop env quote False b0 b1 buf ((CHR ''&'' # p) @ s)
    = text_loop env quote False (CHR 0x00) (CHR 0x00) (buf @ [c]) s"
proof -
  have "read_reference env (p @ s) = Inr ([c], s)"
    using assms(1) read_references [of env s] by (auto simp: escapes_def)
  with assms(2) show ?thesis by (auto simp: text_loop.simps)
qed

lemma escape_rune_cases:
  assumes "DecodeRune (c # cs) = (r, w)"
  shows "(\<exists>p. escape_rune r w (take w (c # cs)) = CHR ''&'' # p \<and> take w (c # cs) = [c] \<and> (c, p) \<in> set escapes
        \<and> is_in_character_range r \<and> \<not> (r = rune_error \<and> w = 1))
    \<or> escape_rune r w (take w (c # cs)) = esc_fffd \<and> (\<not> is_in_character_range r \<or> r = rune_error \<and> w = 1)
    \<or> escape_rune r w (take w (c # cs)) = take w (c # cs) \<and> is_in_character_range r \<and> \<not> (r = rune_error \<and> w = 1)
        \<and> set (take w (c # cs)) \<inter> fst ` set escapes = {}"
proof (cases "w = 1")
  case True
  with DecodeRune_one [of c cs r] assms
  have r: "r = of_char c \<and> r < 0x80 \<or> r = rune_error \<and> 0x80 \<le> (of_char c :: nat)" by auto
  consider "r \<in> {34, 39, 38, 60, 62, 9, 10, 13}" | "r \<notin> {34, 39, 38, 60, 62, 9, 10, 13}" by blast
  then show ?thesis
  proof cases
    case 1
    with r have "r = of_char c" by (auto simp: rune_error_def)
    then have c: "c = char_of r" by simp
    from 1 show ?thesis
      by (elim insertE emptyE)
        (simp_all add: escape_rune_def True c char_of_def bit_0 escapes_def is_in_character_range_def rune_error_def)
  next
    case 2
    with r True show ?thesis by (auto simp: escape_rune_def escapes_def)
  qed
next
  case False
  from DecodeRune_multi [OF assms False] have big: "0x80 \<le> r"
    and bytes: "\<forall>b \<in> set (take w (c # cs)). 0x80 \<le> (of_char b :: nat)" by blast+
  from bytes have "set (take w (c # cs)) \<inter> fst ` set escapes = {}"
    by (force simp: escapes_def)
  with big False show ?thesis by (auto simp: escape_rune_def)
qed

lemma text_loop_escaped:
  assumes "quote \<in> {None, Some (CHR 0x22)}"
  shows "\<exists>c0 c1. text_loop env quote False b0 b1 buf (EscapeText v @ s)
    = text_loop env quote False c0 c1 (buf @ clean_text v) s"
proof (induction v arbitrary: b0 b1 buf rule: clean_text.induct)
  case (2 c cs)
  obtain r w where d: "DecodeRune (c # cs) = (r, w)" by (cases "DecodeRune (c # cs)")
  let ?e = "escape_rune r w (take w (c # cs))" and ?v = "drop (w - 1) cs"
  let ?raw = "if \<not> is_in_character_range r \<or> r = rune_error \<and> w = 1 then esc_fffd else take w (c # cs)"
  have copied: "list_all (copied quote) (take w (c # cs))" if "set (take w (c # cs)) \<inter> fst ` set escapes = {}"
    using that assms by (fastforce simp: list_all_iff copied_def escapes_def)
  have fffd: "list_all (copied quote) esc_fffd"
    using assms by (auto simp: esc_fffd_def copied_def)
  have "\<exists>c0 c1. text_loop env quote False b0 b1 buf (?e @ EscapeText ?v @ s)
      = text_loop env quote False c0 c1 (buf @ ?raw) (EscapeText ?v @ s)"
  proof -
    consider (reference) p where "?e = CHR ''&'' # p" "take w (c # cs) = [c]" "(c, p) \<in> set escapes"
        "is_in_character_range r" "\<not> (r = rune_error \<and> w = 1)"
      | (replaced) "?e = esc_fffd" "\<not> is_in_character_range r \<or> r = rune_error \<and> w = 1"
      | (raw) "?e = take w (c # cs)" "is_in_character_range r" "\<not> (r = rune_error \<and> w = 1)"
        "set (take w (c # cs)) \<inter> fst ` set escapes = {}"
      using escape_rune_cases [OF d] by blast
    then show ?thesis
    proof cases
      case reference
      then have "?raw = [c]" by auto
      with text_loop_reference [OF reference(3) assms, of env b0 b1 buf "EscapeText ?v @ s"] show ?thesis
        unfolding reference(1) by auto
    next
      case replaced
      with text_loop_copied [OF fffd, of env b0 b1 buf "EscapeText ?v @ s"] show ?thesis by simp
    next
      case raw
      then have "?raw = take w (c # cs)" by auto
      with raw text_loop_copied [OF copied, of env b0 b1 buf "EscapeText ?v @ s"] show ?thesis by simp
    qed
  qed
  then obtain c0 c1 where head: "text_loop env quote False b0 b1 buf (?e @ EscapeText ?v @ s)
      = text_loop env quote False c0 c1 (buf @ ?raw) (EscapeText ?v @ s)" by blast
  from "2.IH" [OF d [symmetric], of c0 c1 "buf @ ?raw"] show ?case
    by (simp only: EscapeText.simps clean_text.simps d prod.case append_assoc head)
qed auto

text \<open>Escaped text, up to the quote of an attribute or the next tag.\<close>

lemma read_escaped:
  "read_text env (Some (CHR 0x22)) False (EscapeText v @ CHR 0x22 # s) = Inr (clean_text v, s)"
  "read_text env None False (EscapeText v @ CHR ''<'' # s) = Inr (clean_text v, CHR ''<'' # s)"
proof -
  obtain c0 c1 d0 d1 where
    "text_loop env (Some (CHR 0x22)) False (CHR 0x00) (CHR 0x00) [] (EscapeText v @ CHR 0x22 # s)
       = text_loop env (Some (CHR 0x22)) False c0 c1 (clean_text v) (CHR 0x22 # s)"
    "text_loop env None False (CHR 0x00) (CHR 0x00) [] (EscapeText v @ CHR ''<'' # s)
       = text_loop env None False d0 d1 (clean_text v) (CHR ''<'' # s)"
    using text_loop_escaped [of "Some (CHR 0x22)" env "CHR 0x00" "CHR 0x00" "[]" v "CHR 0x22 # s"]
      text_loop_escaped [of None env "CHR 0x00" "CHR 0x00" "[]" v "CHR ''<'' # s"] by auto
  then show "read_text env (Some (CHR 0x22)) False (EscapeText v @ CHR 0x22 # s) = Inr (clean_text v, s)"
    "read_text env None False (EscapeText v @ CHR ''<'' # s) = Inr (clean_text v, CHR ''<'' # s)"
    by (simp_all add: read_text_def text_loop.simps legal_valid valid_clean)
qed

section \<open>Names and attributes\<close>

text \<open>Plain names: ASCII, without a name space, starting with a letter or an underscore.\<close>

definition name_char :: "char \<Rightarrow> bool" where
  "name_char c \<longleftrightarrow>
     (let n = (of_char c :: nat) in
      65 \<le> n \<and> n \<le> 90 \<or> 97 \<le> n \<and> n \<le> 122 \<or> 48 \<le> n \<and> n \<le> 57 \<or> n = 45 \<or> n = 46 \<or> n = 95)"

definition plain_name :: "string \<Rightarrow> bool" where
  "plain_name s \<longleftrightarrow> list_all name_char s \<and>
     (case s of [] \<Rightarrow> False
      | c # _ \<Rightarrow> \<not> (48 \<le> (of_char c :: nat) \<and> (of_char c :: nat) \<le> 57) \<and> c \<noteq> CHR ''-'' \<and> c \<noteq> CHR ''.'')"

definition local_name :: "string \<Rightarrow> xml_name" where
  "local_name s = \<lparr>xn_Space = [], xn_Local = s\<rparr>"

lemma name_char_byte: "name_char c \<Longrightarrow> name_byte c \<and> c \<noteq> CHR '':'' \<and> (of_char c :: nat) < 0x80"
  by (auto simp: name_char_def name_byte_def is_name_byte_def Let_def)

lemma name_char_rune: "name_char c \<Longrightarrow> first_rune env (of_char c) \<or> second_rune env (of_char c)"
  by (auto simp: name_char_def first_rune_def second_rune_def Let_def)

lemma name_runes_plain: "list_all name_char s \<Longrightarrow> name_runes env s"
proof (induction s)
  case (Cons c s)
  then show ?case
    using name_char_byte [of c] name_char_rune [of c env] by (auto simp: rune_error_def)
qed simp

lemma isName_plain: "plain_name s \<Longrightarrow> isName env s"
proof (cases s)
  case (Cons c cs)
  assume "plain_name s"
  then have c: "name_char c" "\<not> (48 \<le> (of_char c :: nat) \<and> (of_char c :: nat) \<le> 57)" "c \<noteq> CHR ''-''" "c \<noteq> CHR ''.''"
    and cs: "list_all name_char cs" by (simp_all add: plain_name_def Cons)
  have "(of_char c :: nat) \<noteq> 45" "(of_char c :: nat) \<noteq> 46"
    using c(3,4) by (auto simp: of_char_eq_iff char_of_def bit_0)
  with c(1,2) have "first_rune env (of_char c)"
    by (auto simp: name_char_def first_rune_def Let_def)
  with name_char_byte [OF c(1)] name_runes_plain [OF cs] show ?thesis
    by (auto simp: Cons isName_def rune_error_def)
qed (simp add: plain_name_def)

lemma read_plain_name:
  assumes "plain_name n" and "s \<noteq> []" and "\<not> name_byte (hd s)"
  shows "nsname env missing (n @ s) = Inr (local_name n, s)"
proof -
  have bytes: "list_all name_byte n" "list_all (\<lambda>c. c \<noteq> CHR '':'') n" "n \<noteq> []"
    using assms(1) name_char_byte by (auto simp: plain_name_def list_all_iff)
  have "takeWhile name_byte (n @ s) = n" "dropWhile name_byte (n @ s) = s"
    using bytes(1) assms(2,3) by (cases s; auto simp: takeWhile_append dropWhile_append list_all_iff)+
  then have "read_name env missing (n @ s) = Inr (n, s)"
    using assms(2) bytes(3) isName_plain [OF assms(1)] by (simp add: read_name_def)
  moreover have "dropWhile (\<lambda>c. c \<noteq> CHR '':'') n = []"
    using bytes(2) by (simp add: list_all_iff)
  ultimately show ?thesis
    by (simp add: nsname_def split_name_def local_name_def)
qed

lemma plain_name_start:
  assumes "plain_name n"
  obtains c r where "n = c # r" "name_char c"
  using assms by (cases n) (auto simp: plain_name_def)

lemma not_space [simp]: "name_char c \<Longrightarrow> \<not> xml_space c"
  by (auto simp: xml_space_def name_char_def)

lemma skip_space_plain: "plain_name n \<Longrightarrow> skip_space (n @ s) = n @ s"
  by (auto simp: skip_space_def elim!: plain_name_start)

lemma skip_space_mark [simp]:
  "skip_space (CHR ''='' # s) = CHR ''='' # s" "skip_space (CHR ''>'' # s) = CHR ''>'' # s"
  "skip_space (CHR 0x22 # s) = CHR 0x22 # s" "skip_space (CHR ''/'' # s) = CHR ''/'' # s"
  "skip_space (CHR '' '' # s) = skip_space s"
  by (simp_all add: skip_space_def xml_space_def)

definition clean_attr :: "string \<times> string \<Rightarrow> xml_name \<times> string" where
  "clean_attr a = (local_name (fst a), clean_text (snd a))"

lemma read_printed_attr:
  assumes "plain_name (fst a)"
  shows "read_attr env (tl (print_attr a) @ s) = Inr (clean_attr a, s)"
proof -
  have "tl (print_attr a) @ s = fst a @ CHR ''='' # CHR 0x22 # EscapeText (snd a) @ CHR 0x22 # s"
    by (simp add: print_attr_def)
  moreover have "read_attrval env (CHR 0x22 # EscapeText (snd a) @ CHR 0x22 # s) = Inr (clean_text (snd a), s)"
    by (simp add: read_attrval_def quote_chars_def read_escaped)
  ultimately show ?thesis
    using read_plain_name [OF assms] by (simp add: read_attr_def clean_attr_def)
qed

lemma read_printed_attrs:
  assumes "list_all (\<lambda>a. plain_name (fst a)) attrs"
  shows "read_attrs env acc (concat (map print_attr attrs) @ CHR ''>'' # s) = Inr ((acc @ map clean_attr attrs, False), s)"
    and "read_attrs env acc (concat (map print_attr attrs) @ CHR '' '' # CHR ''/'' # CHR ''>'' # s)
      = Inr ((acc @ map clean_attr attrs, True), s)"
proof -
  have step: "read_attrs env acc (print_attr a @ t) = read_attrs env (acc @ [clean_attr a]) t"
    if "plain_name (fst a)" for a acc t
  proof -
    from that obtain c r where cr: "fst a = c # r" "name_char c" by (rule plain_name_start)
    then have "c \<noteq> CHR ''/''" "c \<noteq> CHR ''>''" by (auto simp: name_char_def)
    moreover have "skip_space (print_attr a @ t) = tl (print_attr a) @ t"
      using skip_space_plain [OF that] by (simp add: print_attr_def)
    moreover have eq: "tl (print_attr a) @ t = c # tl (tl (print_attr a)) @ t" by (simp add: print_attr_def cr)
    moreover have "read_attr env (c # tl (tl (print_attr a)) @ t) = Inr (clean_attr a, t)"
      using read_printed_attr [OF that, of env t] by (simp only: eq)
    ultimately show ?thesis by (simp add: read_attrs.simps [of env acc])
  qed
  show "read_attrs env acc (concat (map print_attr attrs) @ CHR ''>'' # s) = Inr ((acc @ map clean_attr attrs, False), s)"
    using assms by (induction attrs arbitrary: acc) (simp_all add: step read_attrs.simps [of env _ "CHR ''>'' # s"])
  show "read_attrs env acc (concat (map print_attr attrs) @ CHR '' '' # CHR ''/'' # CHR ''>'' # s)
      = Inr ((acc @ map clean_attr attrs, True), s)"
    using assms
    by (induction attrs arbitrary: acc)
      (simp_all add: step read_attrs.simps [of env _ "CHR '' '' # CHR ''/'' # CHR ''>'' # s"])
qed

section \<open>Tags and texts\<close>

lemma attrs_no_name:
  "\<not> name_byte (hd (concat (map print_attr attrs) @ CHR ''>'' # s))"
  "\<not> name_byte (hd (concat (map print_attr attrs) @ CHR '' '' # CHR ''/'' # CHR ''>'' # s))"
  by (cases attrs; simp add: print_attr_def)+

lemma scan_printed_start:
  assumes "plain_name name" and "list_all (\<lambda>a. plain_name (fst a)) attrs"
  shows "scan_token env (CHR ''<'' # name @ concat (map print_attr attrs) @ CHR ''>'' # s)
      = Inr ((StartElement (local_name name) (map clean_attr attrs), False), s)"
    and "scan_token env (CHR ''<'' # name @ concat (map print_attr attrs) @ CHR '' '' # CHR ''/'' # CHR ''>'' # s)
      = Inr ((StartElement (local_name name) (map clean_attr attrs), True), s)"
proof -
  from assms(1) obtain c r where c: "name = c # r" "name_char c" by (rule plain_name_start)
  then have tag: "c \<noteq> CHR ''/''" "c \<noteq> CHR ''?''" "c \<noteq> CHR ''!''" by (auto simp: name_char_def)
  have start: "scan_token env (CHR ''<'' # name @ t) = read_start env (name @ t)" for t
    using tag by (simp add: scan_token_def HasPrefix_def c(1))
  show "scan_token env (CHR ''<'' # name @ concat (map print_attr attrs) @ CHR ''>'' # s)
      = Inr ((StartElement (local_name name) (map clean_attr attrs), False), s)"
    unfolding start
    by (simp add: read_start_def read_plain_name [OF assms(1)] attrs_no_name read_printed_attrs [OF assms(2)])
  show "scan_token env (CHR ''<'' # name @ concat (map print_attr attrs) @ CHR '' '' # CHR ''/'' # CHR ''>'' # s)
      = Inr ((StartElement (local_name name) (map clean_attr attrs), True), s)"
    unfolding start
    by (simp add: read_start_def read_plain_name [OF assms(1)] attrs_no_name read_printed_attrs [OF assms(2)])
qed

lemma scan_printed_end:
  assumes "plain_name name"
  shows "scan_token env (CHR ''<'' # CHR ''/'' # name @ CHR ''>'' # s) = Inr ((EndElement (local_name name), False), s)"
  by (simp add: scan_token_def HasPrefix_def read_end_def read_plain_name [OF assms] with_open_def)

lemma EscapeText_empty: "EscapeText v = [] \<longleftrightarrow> v = []" "clean_text v = [] \<longleftrightarrow> v = []"
proof -
  have "EscapeText v \<noteq> [] \<and> clean_text v \<noteq> []" if "v \<noteq> []"
  proof -
    from that obtain c cs where v: "v = c # cs" by (cases v) auto
    obtain r w where d: "DecodeRune (c # cs) = (r, w)" by (cases "DecodeRune (c # cs)")
    have w: "take w (c # cs) \<noteq> []" using DecodeRune_width [of c cs] d by auto
    have "escape_rune r w (take w (c # cs)) \<noteq> []" using escape_rune_cases [OF d] w by (auto simp: esc_fffd_def)
    with w show ?thesis by (simp add: v d esc_fffd_def del: DecodeRune.simps)
  qed
  then show "EscapeText v = [] \<longleftrightarrow> v = []" "clean_text v = [] \<longleftrightarrow> v = []" by auto
qed

lemma scan_printed_text:
  assumes "v \<noteq> []"
  shows "scan_token env (EscapeText v @ CHR ''<'' # s) = Inr ((CharData (clean_text v), False), CHR ''<'' # s)"
proof -
  have "EscapeText v \<noteq> []" using assms EscapeText_empty by blast
  moreover have "CHR ''<'' \<notin> set (EscapeText v)" using EscapeText_no_markup by (auto simp: markup_bytes_def)
  ultimately have "\<not> HasPrefix (EscapeText v @ CHR ''<'' # s) ''<''"
    by (cases "EscapeText v") (auto simp: HasPrefix_def)
  then show ?thesis by (simp add: scan_token_def read_escaped)
qed

section \<open>Elements\<close>

text \<open>Name spaces play no part in the tree.\<close>

fun local_token :: "xml_token \<Rightarrow> xml_token" where
  "local_token (StartElement n attrs) =
     StartElement (local_name (xn_Local n)) (map (\<lambda>(a, v). (local_name (xn_Local a), v)) attrs)"
| "local_token (EndElement n) = EndElement (local_name (xn_Local n))"
| "local_token t = t"

lemma parse_local_token: "parse_token (local_token t) s = parse_token t s"
  by (cases t) (simp_all add: local_name_def comp_def case_prod_beta)

lemma parse_local_tokens: "parse_tokens (map local_token ts) s = parse_tokens ts s"
  by (induction ts arbitrary: s) (simp_all add: parse_local_token split: sum.split)

text \<open>The printed tree with its texts clean.\<close>

fun clean_node :: "node \<Rightarrow> node" where
  "clean_node (Node name attrs children txt) =
     Node name (map (\<lambda>(a, v). (a, clean_text v)) attrs) (map clean_node children) (clean_text txt)"

fun plain_node :: "node \<Rightarrow> bool" where
  "plain_node (Node name attrs children txt) \<longleftrightarrow>
     plain_name name \<and> list_all (\<lambda>a. plain_name (fst a)) attrs \<and> list_all plain_node children"

text \<open>Between tags the stack ends in an open element, or is empty.\<close>

definition between_tags :: "xml_decoder \<Rightarrow> bool" where
  "between_tags d \<longleftrightarrow> xd_ToClose d = None \<and> undo_ns (xd_Stack d) (xd_Ns d) = (xd_Stack d, xd_Ns d)"

lemma translate_local [simp]: "xn_Local (translate ns b n) = xn_Local n"
  by (simp add: translate_def Let_def)

lemma undo_declare:
  "undo_ns (xd_Stack (fold declare_ns attrs d)) (xd_Ns (fold declare_ns attrs d)) = undo_ns (xd_Stack d) (xd_Ns d)"
proof (induction attrs arbitrary: d)
  case (Cons a attrs)
  have "undo_ns (xd_Stack (declare_ns a d)) (xd_Ns (declare_ns a d)) = undo_ns (xd_Stack d) (xd_Ns d)"
    by (simp add: declare_ns_def push_ns_def)
  with Cons show ?case by simp
qed simp

text \<open>A start tag puts the decoder inside the element, the matching end tag takes it back.\<close>

definition inside :: "xml_name \<Rightarrow> (xml_name \<times> string) list \<Rightarrow> xml_decoder \<Rightarrow> xml_decoder" where
  "inside name attrs d = snd (start_element name attrs d)"

lemma inside_simps [simp]:
  "xd_Rest (inside name attrs d) = xd_Rest d" "xd_ToClose (inside name attrs d) = xd_ToClose d"
  by (simp_all add: inside_def start_element_def Let_def)

lemma between_inside: "xd_ToClose d = None \<Longrightarrow> between_tags (inside name attrs d)"
  by (simp add: between_tags_def inside_def start_element_def Let_def)

lemma end_inside:
  assumes "undo_ns (xd_Stack d) (xd_Ns d) = (xd_Stack d, xd_Ns d)"
  shows "\<exists>t. end_element name ((inside name attrs d)\<lparr>xd_Rest := s, xd_ToClose := None\<rparr>) =
      Inr (EndElement t, d\<lparr>xd_Rest := s, xd_ToClose := None\<rparr>) \<and> xn_Local t = xn_Local name"
proof -
  let ?d1 = "fold declare_ns attrs d"
  have "undo_ns (xd_Stack ?d1) (xd_Ns ?d1) = (xd_Stack d, xd_Ns d)" using assms by (simp add: undo_declare)
  then show ?thesis
    by (auto simp: end_element_def inside_def start_element_def Let_def intro!: xml_decoder.equality)
qed

lemma start_element_local:
  "local_token (fst (start_element (local_name name) (map clean_attr attrs) d))
     = StartElement (local_name name) (map clean_attr attrs)"
  by (simp add: start_element_def Let_def comp_def case_prod_beta clean_attr_def local_name_def)

lemma Token_start:
  assumes "xd_ToClose d = None" and "plain_name name" and "list_all (\<lambda>a. plain_name (fst a)) attrs"
  shows "xd_Rest d = CHR ''<'' # name @ concat (map print_attr attrs) @ CHR ''>'' # s \<Longrightarrow>
      \<exists>t. Token env d = Inr (t, inside (local_name name) (map clean_attr attrs) (d\<lparr>xd_Rest := s\<rparr>))
        \<and> local_token t = StartElement (local_name name) (map clean_attr attrs)"
    and "xd_Rest d = CHR ''<'' # name @ concat (map print_attr attrs) @ CHR '' '' # CHR ''/'' # CHR ''>'' # s \<Longrightarrow>
      \<exists>t. Token env d = Inr (t, inside (local_name name) (map clean_attr attrs)
            (d\<lparr>xd_Rest := s, xd_ToClose := Some (local_name name)\<rparr>))
        \<and> local_token t = StartElement (local_name name) (map clean_attr attrs)"
proof -
  have same: "d\<lparr>xd_Rest := s, xd_ToClose := None\<rparr> = d\<lparr>xd_Rest := s\<rparr>"
    using assms(1) by (intro xml_decoder.equality) simp_all
  have pair: "x = (fst x, inside n as e)" if "x = start_element n as e" for x n as e
    using that by (simp add: inside_def)
  note start = scan_printed_start [OF assms(2,3), of env s] start_element_local [of name attrs]
  show "\<exists>t. Token env d = Inr (t, inside (local_name name) (map clean_attr attrs) (d\<lparr>xd_Rest := s\<rparr>))
      \<and> local_token t = StartElement (local_name name) (map clean_attr attrs)"
    if "xd_Rest d = CHR ''<'' # name @ concat (map print_attr attrs) @ CHR ''>'' # s"
    using start that assms(1) by (auto simp: Token_def rawToken_def same intro: pair)
  show "\<exists>t. Token env d = Inr (t, inside (local_name name) (map clean_attr attrs)
        (d\<lparr>xd_Rest := s, xd_ToClose := Some (local_name name)\<rparr>))
      \<and> local_token t = StartElement (local_name name) (map clean_attr attrs)"
    if "xd_Rest d = CHR ''<'' # name @ concat (map print_attr attrs) @ CHR '' '' # CHR ''/'' # CHR ''>'' # s"
    using start that assms(1) by (auto simp: Token_def rawToken_def intro: pair)
qed

lemma Token_end:
  assumes "between_tags d" and "plain_name name"
    and "e = inside (local_name name) attrs d \<and> rest = CHR ''<'' # CHR ''/'' # name @ CHR ''>'' # s \<and> tc = None
      \<or> e = inside (local_name name) attrs d \<and> rest = s \<and> tc = Some (local_name name)"
  shows "\<exists>t. Token env (e\<lparr>xd_Rest := rest, xd_ToClose := tc\<rparr>) = Inr (t, d\<lparr>xd_Rest := s\<rparr>)
    \<and> local_token t = EndElement (local_name name)"
proof -
  have same: "d\<lparr>xd_Rest := s, xd_ToClose := None\<rparr> = d\<lparr>xd_Rest := s\<rparr>"
    using assms(1) by (intro xml_decoder.equality) (simp_all add: between_tags_def)
  have "rawToken env (e\<lparr>xd_Rest := rest, xd_ToClose := tc\<rparr>) =
      Inr (EndElement (local_name name), (inside (local_name name) attrs d)\<lparr>xd_Rest := s, xd_ToClose := None\<rparr>)"
    using assms(3) scan_printed_end [OF assms(2), of env s] by (auto simp: rawToken_def)
  moreover obtain t where "end_element (local_name name) ((inside (local_name name) attrs d)\<lparr>xd_Rest := s, xd_ToClose := None\<rparr>) =
      Inr (EndElement t, d\<lparr>xd_Rest := s\<rparr>)" "xn_Local t = name"
    using end_inside [of d "local_name name" s attrs] assms(1) by (auto simp: between_tags_def same local_name_def)
  ultimately show ?thesis by (auto simp: Token_def)
qed

lemma Token_text:
  assumes "xd_ToClose d = None" and "xd_Rest d = EscapeText v @ CHR ''<'' # s" and "v \<noteq> []"
  shows "Token env d = Inr (CharData (clean_text v), d\<lparr>xd_Rest := CHR ''<'' # s\<rparr>)"
proof -
  have "d\<lparr>xd_Rest := CHR ''<'' # s, xd_ToClose := None\<rparr> = d\<lparr>xd_Rest := CHR ''<'' # s\<rparr>"
    using assms(1) by (intro xml_decoder.equality) simp_all
  with assms scan_printed_text [OF assms(3), of env s] show ?thesis by (auto simp: Token_def rawToken_def)
qed

text \<open>What the scanner still has to read plays no part in the name spaces.\<close>

lemma declare_rest:
  "fold declare_ns attrs (d\<lparr>xd_Rest := r\<rparr>) = (fold declare_ns attrs d)\<lparr>xd_Rest := r\<rparr>"
  "fold declare_ns attrs (d\<lparr>xd_ToClose := tc\<rparr>) = (fold declare_ns attrs d)\<lparr>xd_ToClose := tc\<rparr>"
proof (induction attrs arbitrary: d)
  case (Cons a attrs)
  have "declare_ns a (d\<lparr>xd_Rest := r\<rparr>) = (declare_ns a d)\<lparr>xd_Rest := r\<rparr>"
    "declare_ns a (d\<lparr>xd_ToClose := tc\<rparr>) = (declare_ns a d)\<lparr>xd_ToClose := tc\<rparr>" for d
    by (cases d; simp add: declare_ns_def push_ns_def)+
  with Cons show "fold declare_ns (a # attrs) (d\<lparr>xd_Rest := r\<rparr>) = (fold declare_ns (a # attrs) d)\<lparr>xd_Rest := r\<rparr>"
    "fold declare_ns (a # attrs) (d\<lparr>xd_ToClose := tc\<rparr>) = (fold declare_ns (a # attrs) d)\<lparr>xd_ToClose := tc\<rparr>" for d
    by simp_all
qed simp_all

lemma inside_rest:
  "inside name attrs (d\<lparr>xd_Rest := r\<rparr>) = (inside name attrs d)\<lparr>xd_Rest := r\<rparr>"
  "inside name attrs (d\<lparr>xd_ToClose := tc\<rparr>) = (inside name attrs d)\<lparr>xd_ToClose := tc\<rparr>"
  by (simp_all add: inside_def start_element_def declare_rest Let_def)

lemma between_rest [simp]: "between_tags (d\<lparr>xd_Rest := r\<rparr>) = between_tags d"
  by (simp add: between_tags_def)

lemma node_tokens_eq:
  "node_tokens (Node name attrs children txt) =
     StartElement (local_name name) (map (\<lambda>(a, v). (local_name a, v)) attrs)
     # concat (map node_tokens children) @ (if txt = [] then [] else [CharData txt]) @ [EndElement (local_name name)]"
  by (simp add: node_tokens_def [abs_def] local_name_def comp_def)

lemma reads_nodes:
  assumes "\<And>n d s. n \<in> set ns \<Longrightarrow> between_tags d \<Longrightarrow> xd_Rest d = XML_text n @ s \<Longrightarrow>
      \<exists>ts. reads env d ts (d\<lparr>xd_Rest := s\<rparr>) \<and> map local_token ts = node_tokens (clean_node n)"
    and "between_tags d" and "xd_Rest d = concat (map XML_text ns) @ s"
  shows "\<exists>ts. reads env d ts (d\<lparr>xd_Rest := s\<rparr>)
    \<and> map local_token ts = concat (map node_tokens (map clean_node ns))"
  using assms
proof (induction ns arbitrary: d)
  case Nil
  then have "d\<lparr>xd_Rest := s\<rparr> = d" by simp
  then show ?case using reads_none [of env d] by auto
next
  case (Cons n ns)
  let ?r = "concat (map XML_text ns) @ s"
  have "xd_Rest d = XML_text n @ ?r" using Cons.prems(3) by simp
  with Cons.prems(1) [of n d ?r] Cons.prems(2) obtain ts where
    ts: "reads env d ts (d\<lparr>xd_Rest := ?r\<rparr>)" "map local_token ts = node_tokens (clean_node n)" by auto
  from Cons.IH [of "d\<lparr>xd_Rest := ?r\<rparr>"] Cons.prems(1,2) obtain us where
    us: "reads env (d\<lparr>xd_Rest := ?r\<rparr>) us (d\<lparr>xd_Rest := s\<rparr>)"
      "map local_token us = concat (map node_tokens (map clean_node ns))" by auto
  from reads_append [OF ts(1) us(1)] ts(2) us(2) show ?case by auto
qed

lemma reads_node:
  assumes "plain_node n" and "between_tags d" and "xd_Rest d = XML_text n @ s"
  shows "\<exists>ts. reads env d ts (d\<lparr>xd_Rest := s\<rparr>) \<and> map local_token ts = node_tokens (clean_node n)"
  using assms
proof (induction n arbitrary: d s)
  case (Node name attrs children body)
  let ?in = "inside (local_name name) (map clean_attr attrs) d"
  have tc: "xd_ToClose d = None" and nm: "plain_name name" and at: "list_all (\<lambda>a. plain_name (fst a)) attrs"
    using Node.prems by (simp_all add: between_tags_def)
  have attrs: "map clean_attr attrs = map (\<lambda>(a, v). (local_name a, v)) (map (\<lambda>(a, v). (a, clean_text v)) attrs)"
    by (simp add: clean_attr_def case_prod_beta)
  show ?case
  proof (cases "children = [] \<and> body = []")
    case True
    with Node.prems(3) have "xd_Rest d = CHR ''<'' # name @ concat (map print_attr attrs) @ CHR '' '' # CHR ''/'' # CHR ''>'' # s"
      by simp
    from Token_start(2) [OF tc nm at this, of env] obtain t where
      t: "Token env d = Inr (t, ?in\<lparr>xd_Rest := s, xd_ToClose := Some (local_name name)\<rparr>)"
        "local_token t = StartElement (local_name name) (map clean_attr attrs)" by (auto simp: inside_rest)
    from Token_end [OF Node.prems(2) nm, of ?in "map clean_attr attrs" s s "Some (local_name name)" env] obtain u where
      u: "Token env (?in\<lparr>xd_Rest := s, xd_ToClose := Some (local_name name)\<rparr>) = Inr (u, d\<lparr>xd_Rest := s\<rparr>)"
        "local_token u = EndElement (local_name name)" by auto
    from reads_token [OF t(1) reads_one [OF u(1)]] t(2) u(2) True show ?thesis
      by (intro exI [of _ "[t, u]"]) (simp add: node_tokens_eq attrs)
  next
    case False
    let ?close = "CHR ''<'' # CHR ''/'' # name @ CHR ''>'' # s"
    let ?body = "EscapeText body @ ?close"
    let ?kids = "concat (map XML_text children) @ ?body"
    from False Node.prems(3) have "xd_Rest d = CHR ''<'' # name @ concat (map print_attr attrs) @ CHR ''>'' # ?kids"
      by auto
    from Token_start(1) [OF tc nm at this, of env] obtain t where
      t: "Token env d = Inr (t, ?in\<lparr>xd_Rest := ?kids\<rparr>)"
        "local_token t = StartElement (local_name name) (map clean_attr attrs)" by (auto simp: inside_rest)
    have between: "between_tags ?in" by (rule between_inside [OF tc])
    have "\<exists>ts. reads env (?in\<lparr>xd_Rest := ?kids\<rparr>) ts ((?in\<lparr>xd_Rest := ?kids\<rparr>)\<lparr>xd_Rest := ?body\<rparr>)
        \<and> map local_token ts = concat (map node_tokens (map clean_node children))"
      by (rule reads_nodes) (use Node.IH Node.prems(1) between in \<open>auto simp: list_all_iff\<close>)
    then obtain ks where ks: "reads env (?in\<lparr>xd_Rest := ?kids\<rparr>) ks (?in\<lparr>xd_Rest := ?body\<rparr>)"
      "map local_token ks = concat (map node_tokens (map clean_node children))" by auto
    have "\<exists>bs. reads env (?in\<lparr>xd_Rest := ?body\<rparr>) bs (?in\<lparr>xd_Rest := ?close\<rparr>)
        \<and> bs = (if clean_text body = [] then [] else [CharData (clean_text body)])"
    proof (cases "body = []")
      case True
      then show ?thesis by (simp add: reads_none)
    next
      case False
      from Token_text [of "?in\<lparr>xd_Rest := ?body\<rparr>" body "CHR ''/'' # name @ CHR ''>'' # s" env] False tc
      show ?thesis by (auto simp: EscapeText_empty intro: reads_one)
    qed
    then obtain bs where bs: "reads env (?in\<lparr>xd_Rest := ?body\<rparr>) bs (?in\<lparr>xd_Rest := ?close\<rparr>)"
      "bs = (if clean_text body = [] then [] else [CharData (clean_text body)])" by blast
    have "?in\<lparr>xd_Rest := ?close, xd_ToClose := None\<rparr> = ?in\<lparr>xd_Rest := ?close\<rparr>"
      using tc by (intro xml_decoder.equality) simp_all
    with Token_end [OF Node.prems(2) nm, of ?in "map clean_attr attrs" ?close s None env] obtain u where
      u: "Token env (?in\<lparr>xd_Rest := ?close\<rparr>) = Inr (u, d\<lparr>xd_Rest := s\<rparr>)" "local_token u = EndElement (local_name name)"
      by auto
    from reads_token [OF t(1) reads_append [OF ks(1) reads_append [OF bs(1) reads_one [OF u(1)]]]] t(2) ks(2) bs(2) u(2)
    show ?thesis by (intro exI [of _ "t # ks @ bs @ [u]"]) (simp add: node_tokens_eq attrs)
  qed
qed

lemma depth_local: "depth_after n (map local_token ts) = depth_after n ts"
  by (induction n ts rule: depth_after.induct) simp_all

lemma depth_nodes: "depth_after n (concat (map node_tokens ns) @ ts) = depth_after n ts"
  using depth_after_contents [of n "map node_content ns" ts] by (simp add: node_tokens_def [abs_def] comp_def)

section \<open>Documents\<close>

text \<open>Trees whose texts are trimmed and hold nothing but what XML can hold.\<close>

fun legal_node :: "node \<Rightarrow> bool" where
  "legal_node (Node name attrs children txt) \<longleftrightarrow>
     list_all (\<lambda>a. valid_text (snd a)) attrs \<and> list_all legal_node children
     \<and> valid_text txt \<and> TrimSpace txt = txt"

lemma legal_clean: "legal_node n \<Longrightarrow> clean_node n = n"
proof (induction n)
  case (Node name attrs children body)
  then have "map clean_node children = children" "map (\<lambda>(a, v). (a, clean_text v)) attrs = attrs"
    by (auto simp: list_all_iff clean_valid intro!: map_idI)
  with Node.prems show ?case by (simp add: clean_valid)
qed

lemma legal_trimmed: "legal_node n \<Longrightarrow> trimmed n"
  by (induction n) (simp add: list_all_iff)

lemma Tokens_printed:
  assumes "plain_node n"
  shows "\<exists>ts. Tokens env (XML_text n, io_EOF) = (ts, io_EOF) \<and> map local_token ts = node_tokens (clean_node n)"
proof -
  let ?d = "NewDecoder (XML_text n, io_EOF)"
  have "between_tags ?d" "xd_Rest ?d = XML_text n @ []" by (simp_all add: between_tags_def NewDecoder_def)
  from reads_node [OF assms this, of env] obtain ts where
    ts: "reads env ?d ts (?d\<lparr>xd_Rest := []\<rparr>)" "map local_token ts = node_tokens (clean_node n)" by blast
  have "decode_all env (?d\<lparr>xd_Rest := []\<rparr>) = ([], io_EOF)"
    by (simp add: decode_all.simps [of env] Token_def rawToken_def NewDecoder_def)
  with reads_decode [OF ts(1)] ts(2) show ?thesis by (simp add: Tokens_def)
qed

lemma meta_node: "meta_content (node_content n) m = m"
proof (induction n arbitrary: m)
  case (Node name attrs children body)
  have "fold meta_content (map node_content cs) m = m" if "set cs \<subseteq> set children" for cs m
    using that Node.IH by (induction cs arbitrary: m) simp_all
  from this [OF subset_refl] show ?case by (cases m) simp
qed

lemma Parse_printed:
  assumes "plain_node n" and "legal_node n"
  shows "Parse env (XML_text n, io_EOF) =
    Inr (Inr \<lparr>doc_ProcInst = [], doc_Directives = [], doc_Root = Some n\<rparr>)"
proof -
  from Tokens_printed [OF assms(1), of env] obtain ts where ts: "Tokens env (XML_text n, io_EOF) = (ts, io_EOF)"
    "map local_token ts = node_tokens n" by (auto simp: legal_clean [OF assms(2)])
  have "node_tokens n \<noteq> []" by (cases n) (simp add: node_tokens_eq)
  with ts(2) have "ts \<noteq> []" by auto
  have "parse_tokens ts parse_start = parse_tokens (node_tokens n) parse_start"
    by (simp add: ts(2) [symmetric] parse_local_tokens)
  with \<open>ts \<noteq> []\<close> \<open>node_tokens n \<noteq> []\<close> have "Parse env (XML_text n, io_EOF) = Parse_stream (node_tokens n, io_EOF)"
    by (simp add: Parse_def ts(1) Parse_stream_def)
  also have "\<dots> = Inr (Inr \<lparr>doc_ProcInst = [], doc_Directives = [], doc_Root = Some n\<rparr>)"
    using Parse_contents [of "[node_content n]" io_EOF] content_nodes_of [OF legal_trimmed [OF assms(2)]]
    by (simp add: node_tokens_def first_node_def meta_node)
  finally show ?thesis .
qed

section \<open>What the parser makes can be printed and parsed again\<close>

lemma illegal_valid: "illegal_text s = None \<longleftrightarrow> valid_text s"
  by (induction s rule: valid_text.induct) (auto split: prod.splits simp del: DecodeRune.simps)

lemma read_text_valid: "read_text env quote cdata s = Inr (t, rest) \<Longrightarrow> valid_text t"
  by (auto simp: read_text_def illegal_valid split: sum.splits option.splits)

fun legal_token :: "xml_token \<Rightarrow> bool" where
  "legal_token (StartElement n attrs) \<longleftrightarrow> list_all (\<lambda>a. valid_text (snd a)) attrs"
| "legal_token (CharData t) \<longleftrightarrow> valid_text t"
| "legal_token _ \<longleftrightarrow> True"

lemma read_attr_legal: "read_attr env s = Inr (a, rest) \<Longrightarrow> valid_text (snd a)"
  by (auto simp: read_attr_def read_attrval_def split: sum.splits list.splits if_splits dest!: read_text_valid)

lemma read_attrs_legal:
  "read_attrs env attrs s = Inr ((as, closed), rest) \<Longrightarrow> list_all (\<lambda>a. valid_text (snd a)) attrs \<Longrightarrow>
     list_all (\<lambda>a. valid_text (snd a)) as"
proof (induction env attrs s rule: read_attrs.induct)
  case (1 env attrs s)
  from "1.prems"(1) obtain b r where br: "skip_space s = b # r"
    by (auto simp: read_attrs.simps [of env attrs s] split: list.splits)
  have step: "list_all (\<lambda>a. valid_text (snd a)) as"
    if "read_attr env (b # r) = Inr (a, r')" "read_attrs env (attrs @ [a]) r' = Inr ((as, closed), rest)"
      "b \<noteq> CHR ''/''" "b \<noteq> CHR ''>''" for a r'
    using "1.IH" [OF br that(3,4,1) refl that(2)] read_attr_legal [OF that(1)] "1.prems"(2) by simp
  show ?case
    using "1.prems" step
    by (fastforce simp: read_attrs.simps [of env attrs s] br split: list.splits if_splits sum.splits)
qed

lemma scan_token_legal: "scan_token env s = Inr ((t, closed), rest) \<Longrightarrow> legal_token t"
proof -
  have start: "read_start env s = Inr ((t, closed), rest) \<Longrightarrow> legal_token t" for s
    by (auto simp: read_start_def split: sum.splits dest!: read_attrs_legal)
  have "read_exclamation env s = Inr (t, rest) \<Longrightarrow> legal_token t" for s
    by (auto simp: read_exclamation_def read_comment_def read_cdata_def simp del: read_mark.simps
        split: sum.splits list.splits if_splits dest!: read_text_valid)
  moreover have "read_end env s = Inr (t, rest) \<Longrightarrow> legal_token t" for s
    by (auto simp: read_end_def split: sum.splits list.splits if_splits)
  moreover have "read_instruction env s = Inr (t, rest) \<Longrightarrow> legal_token t" for s
    by (auto simp: read_instruction_def split: sum.splits option.splits if_splits)
  ultimately show "scan_token env s = Inr ((t, closed), rest) \<Longrightarrow> legal_token t"
    using start
    by (auto simp: scan_token_def with_open_def split: sum.splits list.splits if_splits dest!: read_text_valid)
qed

lemma Token_legal:
  assumes "Token env d = Inr (t, d')"
  shows "legal_token t"
proof -
  from assms obtain u d1 where raw: "rawToken env d = Inr (u, d1)"
    and step: "(case u of StartElement name attrs \<Rightarrow> (t, d') = start_element name attrs d1
      | EndElement name \<Rightarrow> end_element name d1 = Inr (t, d') | _ \<Rightarrow> t = u \<and> d' = d1)"
    by (auto simp: Token_def split: sum.splits xml_token.splits)
  from raw have "legal_token u"
    by (auto simp: rawToken_def split: option.splits if_splits sum.splits dest!: scan_token_legal)
  moreover have "legal_token t" if "end_element n d1 = Inr (t, d')" for n
    using end_element_Inr(1) [OF that] by auto
  ultimately show ?thesis
    using step by (auto simp: start_element_def Let_def list_all_iff split: xml_token.splits)
qed

lemma decode_legal: "list_all legal_token (fst (decode_all env d))"
proof (induction env d rule: decode_all.induct)
  case (1 env d)
  then show ?case
    by (cases "Token env d")
      (auto simp: decode_all.simps [of env d] dest: Token_legal split: prod.splits)
qed

fun legal_content :: "xml_content \<Rightarrow> bool" where
  "legal_content (Text t) \<longleftrightarrow> valid_text t"
| "legal_content (Element n attrs xs) \<longleftrightarrow> list_all (\<lambda>a. valid_text (snd a)) attrs \<and> list_all legal_content xs"
| "legal_content _ \<longleftrightarrow> True"

lemma legal_content_tokens: "list_all legal_token (content_tokens x) \<Longrightarrow> legal_content x"
  by (induction x) (auto simp: list_all_iff)

text \<open>Trimming keeps a text legal, and is done once.\<close>

lemma valid_cases:
  assumes "valid_text (c # cs)"
  obtains r w where "DecodeRune (c # cs) = (r, w)" "is_in_character_range r" "\<not> (r = rune_error \<and> w = 1)"
    "valid_text (drop (w - 1) cs)" "take w (c # cs) = c # take (w - 1) cs"
proof -
  obtain r w where d: "DecodeRune (c # cs) = (r, w)" by (cases "DecodeRune (c # cs)")
  moreover have "take w (c # cs) = c # take (w - 1) cs" using DecodeRune_width [of c cs] d by (cases w) auto
  ultimately show thesis using assms that by (auto simp del: DecodeRune.simps)
qed

lemma trim_right_step:
  assumes "DecodeRune (c # cs) = (r, w)" and "\<not> (r = rune_error \<and> w = 1)"
  shows "trim_right (take w (c # cs) @ t) = (if IsSpace r \<and> trim_right t = [] then [] else take w (c # cs) @ trim_right t)"
proof -
  have w: "1 \<le> w" "w \<le> length (c # cs)" using DecodeRune_width [of c cs] assms(1) by simp_all
  then obtain x where x: "take w (c # cs) = c # x" "length x = w - 1" by (cases w) auto
  then have "take w (c # x @ t) = c # x" "drop (w - 1) (x @ t) = t" using w(1) by (cases w; simp)+
  with x(1) DecodeRune_prefix [OF assms, of t] show ?thesis by (simp add: Let_def del: DecodeRune.simps)
qed

lemma trim_right_legal: "valid_text s \<Longrightarrow> valid_text (trim_right s) \<and> trim_right (trim_right s) = trim_right s"
proof (induction s rule: trim_right.induct)
  case (2 c cs)
  from "2.prems" obtain r w where d: "DecodeRune (c # cs) = (r, w)" "is_in_character_range r"
    "\<not> (r = rune_error \<and> w = 1)" "valid_text (drop (w - 1) cs)" by (rule valid_cases)
  note IH = "2.IH" [OF d(1) [symmetric] d(4)]
  let ?t = "trim_right (drop (w - 1) cs)"
  have eq: "trim_right (c # cs) = (if IsSpace r \<and> ?t = [] then [] else take w (c # cs) @ ?t)"
    by (simp add: d(1) Let_def del: DecodeRune.simps)
  show ?case
    unfolding eq using IH valid_text_prepend [OF d(1-3)] trim_right_step [OF d(1,3)] by simp
qed simp

lemma trim_left_legal: "valid_text s \<Longrightarrow> valid_text (trim_left s) \<and> trim_left (trim_left s) = trim_left s"
proof (induction s rule: trim_left.induct)
  case (2 c cs)
  from "2.prems" obtain r w where d: "DecodeRune (c # cs) = (r, w)" "valid_text (drop (w - 1) cs)"
    by (rule valid_cases)
  with 2 show ?case by (simp del: DecodeRune.simps valid_text.simps)
qed simp

lemma trim_left_of_right:
  assumes "valid_text s" and "trim_left s = s"
  shows "trim_left (trim_right s) = trim_right s"
proof (cases s)
  case (Cons c cs)
  from assms(1) [unfolded Cons] obtain r w where d: "DecodeRune (c # cs) = (r, w)"
    "\<not> (r = rune_error \<and> w = 1)" "take w (c # cs) = c # take (w - 1) cs" by (rule valid_cases)
  let ?t = "trim_right (drop (w - 1) cs)"
  have shorter: "length (trim_left s) \<le> length s" for s
    by (induction s rule: trim_left.induct) (auto split: prod.splits simp del: DecodeRune.simps intro: le_trans)
  have "\<not> IsSpace r"
    using assms(2) shorter [of "drop (w - 1) cs"] by (auto simp: Cons d(1) simp del: DecodeRune.simps)
  then have "trim_right s = take w (c # cs) @ ?t" by (simp add: Cons d(1) Let_def del: DecodeRune.simps)
  with DecodeRune_prefix [OF d(1,2), of ?t] \<open>\<not> IsSpace r\<close> show ?thesis
    by (simp add: d(3) del: DecodeRune.simps)
qed simp

lemma TrimSpace_legal: "valid_text s \<Longrightarrow> valid_text (TrimSpace s) \<and> TrimSpace (TrimSpace s) = TrimSpace s"
  using trim_left_legal [of s] trim_right_legal [of "trim_left s"] trim_left_of_right [of "trim_left s"]
  by (simp add: TrimSpace_def)

lemma legal_content_nodes: "legal_content x \<Longrightarrow> list_all legal_node (content_nodes x)"
proof (induction x)
  case (Element name attrs xs)
  have "valid_text (last_text xs) \<and> TrimSpace (last_text xs) = last_text xs"
  proof (cases "filter is_text xs")
    case Nil
    then show ?thesis by (simp add: last_text_def TrimSpace_def)
  next
    case (Cons t ts)
    then have "last (t # ts) \<in> {x \<in> set xs. is_text x}" by (metis last_in_set list.distinct(1) set_filter)
    then obtain u where "last (t # ts) = Text u" "Text u \<in> set xs"
      by (cases "last (t # ts)") (simp_all del: last.simps)
    with Element.prems TrimSpace_legal [of u] Cons show ?thesis by (auto simp: last_text_def list_all_iff)
  qed
  with Element show ?case by (auto simp: list_all_iff)
qed simp_all

lemma Parse_legal:
  assumes "Parse env r = Inr (Inr doc)" and "doc_Root doc = Some n"
  shows "legal_node n"
proof -
  from Parse_document [of env r] assms(1) obtain ts xs where ts: "Tokens env r = (ts, io_EOF)"
    "ts = concat (map content_tokens xs)"
    and root: "doc_Root doc = first_node (concat (map content_nodes xs))"
    by (auto split: if_splits)
  have "list_all legal_token ts" using decode_legal [of env "NewDecoder r"] ts(1) by (simp add: Tokens_def)
  then have "list_all legal_content xs"
    using legal_content_tokens by (simp add: ts(2) list_all_iff)
  then have "list_all legal_node (concat (map content_nodes xs))"
    using legal_content_nodes by (fastforce simp: list_all_iff)
  with root assms(2) show ?thesis by (simp add: first_node_def split: list.splits)
qed

text \<open>
  C15: printing and parsing are inverse on every tree the parser can make. Whatever the content
  file looks like (prolog, comments, CDATA, entities, name spaces, either kind of quotes), the
  tree parsed from it is the tree parsed from its own print, provided its names are plain.
\<close>

theorem print_parse_roundtrip:
  assumes "Parse env r = Inr (Inr doc)" and "doc_Root doc = Some n" and "plain_node n"
  shows "Parse env (XML_text n, io_EOF) =
    Inr (Inr \<lparr>doc_ProcInst = [], doc_Directives = [], doc_Root = Some n\<rparr>)"
  by (rule Parse_printed [OF assms(3) Parse_legal [OF assms(1,2)]])

lemmas decoder_steps = Parse_def Tokens_def NewDecoder_def decode_all.simps Token_def rawToken_def scan_token_def
  HasPrefix_def read_start_def nsname_def read_name_def isName_def name_byte_def is_name_byte_def first_rune_def
  second_rune_def rune_error_def split_name_def read_attrs.simps skip_space_def xml_space_def start_element_def
  translate_def read_text_def text_loop.simps is_in_character_range_def read_end_def with_open_def end_element_def
  read_attr_def read_attrval_def quote_chars_def declare_ns_def push_ns_def read_exclamation_def read_comment_def
  read_instruction_def check_declaration_def procInst_def read_reference_def reference_end_def entity_def
  digit_of_def digits_value_def encode_rune_def MaxRune_def char_of_def bit_0 read_cdata_def
  Parse_stream_def parse_start_def document_of_def stringifyProcInst_def TrimSpace_def IsSpace_def Let_def

definition ex_source :: string where
  "ex_source = ''<?xml version='1.0'?><!-- x --><h:a xmlns:h='u'><b c='1 &lt; &#50;'/>d<![CDATA[ e&]]></h:a>''"

definition ex_source_root :: node where
  "ex_source_root = Node ''a'' [(''h'', ''u'')] [Node ''b'' [(''c'', ''1 < 2'')] [] []] ''e&''"

lemma ex_source_document:
  "Parse ex_env (ex_source, io_EOF) =
    Inr (Inr \<lparr>doc_ProcInst = ''<?xml version='1.0'?>'', doc_Directives = [], doc_Root = Some ex_source_root\<rparr>)"
  by (simp add: ex_source_def ex_source_root_def decoder_steps)

theorem print_parse_roundtrip_witness:
  "\<exists>doc. Parse ex_env (ex_source, io_EOF) = Inr (Inr doc) \<and> doc_Root doc = Some ex_source_root
    \<and> Parse ex_env (XML_text ex_source_root, io_EOF) =
        Inr (Inr \<lparr>doc_ProcInst = [], doc_Directives = [], doc_Root = Some ex_source_root\<rparr>)"
proof -
  have "plain_node ex_source_root" by code_simp
  from print_parse_roundtrip [OF ex_source_document _ this] ex_source_document show ?thesis by simp
qed

end
