(* ===== verification/Xccdf_Strings.thy ===== *)
theory Xccdf_Strings
  imports Xmldom_Roundtrip Samples
begin

text \<open>
  Package \<open>xccdf\<close>, file \<open>strings.go\<close>: the inner XML of a description, a rationale or a
  warning, read back from the element as the DOM prints it.
\<close>

definition GetDescriptionFromXMLString :: "go_env \<Rightarrow> string \<Rightarrow> go_error + string" where
  "GetDescriptionFromXMLString env raw = Unmarshal_inner env ''description'' raw"

definition GetRationaleFromXMLString :: "go_env \<Rightarrow> string \<Rightarrow> go_error + string" where
  "GetRationaleFromXMLString env raw = Unmarshal_inner env ''rationale'' raw"

definition GetWarningFromXMLString :: "go_env \<Rightarrow> string \<Rightarrow> go_error + string" where
  "GetWarningFromXMLString env raw = Unmarshal_inner env ''warning'' raw"

section \<open>Reading printed elements\<close>

fun inner_xml :: "node \<Rightarrow> string" where
  "inner_xml (Node name attrs children txt) = concat (map XML_text children) @ EscapeText txt"

text \<open>Every element reader gives back the markup between the tags of the printed element.\<close>

lemma inner_end_printed:
  assumes "list_all plain_node children" and "plain_name name" and "between_tags d"
    and "xd_Stack d = Opened n # below" and "translate (xd_Ns d) True (local_name name) = n"
    and "xd_Rest d = concat (map XML_text children) @ EscapeText body @ ''</'' @ name @ ''>'' @ s"
  shows "\<exists>d'. inner_end env 0 d = Inr d' \<and> xd_Rest d' = ''</'' @ name @ ''>'' @ s"
proof -
  let ?close = "CHR ''<'' # CHR ''/'' # name @ CHR ''>'' # s"
  let ?text = "d\<lparr>xd_Rest := EscapeText body @ ?close\<rparr>" and ?last = "d\<lparr>xd_Rest := ?close\<rparr>"
  have "xd_Rest d = concat (map XML_text children) @ EscapeText body @ ?close" using assms(6) by simp
  from reads_nodes [OF reads_node assms(3) this] assms(1) obtain ts where
    ts: "reads env d ts ?text" "map local_token ts = concat (map node_tokens (map clean_node children))"
    by (auto simp: list_all_iff)
  have "depth_after 0 ts = Some 0"
    using depth_nodes [of 0 "map clean_node children" "[]"] by (simp add: depth_local [of 0 ts, symmetric] ts(2))
  note children = inner_end_reads [OF ts(1) this]
  have last: "inner_end env 0 ?text = inner_end env 0 ?last"
  proof (cases "body = []")
    case False
    have "Token env ?text = Inr (CharData (clean_text body), ?last)"
      using Token_text [of ?text body "tl ?close"] False assms(3) by (simp add: between_tags_def)
    then show ?thesis by (simp add: inner_end.simps [of env 0 ?text])
  qed simp
  have "rawToken env ?last = Inr (EndElement (local_name name), d\<lparr>xd_Rest := s, xd_ToClose := None\<rparr>)"
    using assms(3) scan_printed_end [OF assms(2), of env s] by (simp add: rawToken_def between_tags_def)
  then have "\<exists>t d'. Token env ?last = Inr (EndElement t, d')"
    using assms(4,5) by (auto simp: Token_def end_element_def Let_def split: prod.split)
  then have "inner_end env 0 ?last = Inr ?last"
    by (auto simp: inner_end.simps [of env 0 ?last])
  with children last show ?thesis by auto
qed

lemma inner_xml_read:
  assumes "plain_node n"
    and "(get, nd_Name n) \<in> {(GetDescriptionFromXMLString, ''description''),
      (GetRationaleFromXMLString, ''rationale''), (GetWarningFromXMLString, ''warning'')}"
  shows "get env (XML_text n) = Inr (inner_xml n)"
proof -
  obtain name attrs children body where n: "n = Node name attrs children body" by (cases n)
  have nm: "plain_name name" and at: "list_all (\<lambda>a. plain_name (fst a)) attrs"
    and kids: "list_all plain_node children" using assms(1) n by auto
  let ?d = "NewDecoder (XML_text n, io_EOF)" and ?as = "map clean_attr attrs"
  have tc: "xd_ToClose ?d = None" and between: "between_tags ?d" by (simp_all add: NewDecoder_def between_tags_def)
  have start: "Unmarshal_inner env name (XML_text n) = (case inner_end env 0 d of Inl err \<Rightarrow> Inl err
      | Inr d' \<Rightarrow> Inr (take (length (xd_Rest d) - length (xd_Rest d')) (xd_Rest d)))"
    if "Token env ?d = Inr (StartElement t as, d)" "xn_Local t = name" for t as d
    using that by (simp add: Unmarshal_inner_def first_start.simps [of env ?d])
  have "Unmarshal_inner env name (XML_text n) = Inr (inner_xml n)"
  proof (cases "children = [] \<and> body = []")
    case True
    then have "xd_Rest ?d = CHR ''<'' # name @ concat (map print_attr attrs) @ CHR '' '' # CHR ''/'' # CHR ''>'' # []"
      by (simp add: n NewDecoder_def)
    let ?in = "inside (local_name name) ?as ?d"
    let ?e = "?in\<lparr>xd_Rest := [], xd_ToClose := Some (local_name name)\<rparr>"
    from Token_start(2) [OF tc nm at \<open>xd_Rest ?d = _\<close>, of env] obtain t as where
      t: "Token env ?d = Inr (StartElement t as, ?e)" "xn_Local t = name"
      by (auto simp: inside_rest local_name_def elim!: local_token.elims)
    from Token_end [OF between nm, of ?in ?as "[]" "[]" "Some (local_name name)" env] obtain u where
      u: "Token env ?e = Inr (EndElement u, ?d\<lparr>xd_Rest := []\<rparr>)" by (auto elim!: local_token.elims)
    have "inner_end env 0 ?e = Inr ?e" by (simp add: inner_end.simps [of env 0 ?e] u)
    with True show ?thesis unfolding start [OF t] by (simp add: n)
  next
    case False
    let ?r = "concat (map XML_text children) @ EscapeText body @ ''</'' @ name @ ''>''"
    from False have "xd_Rest ?d = CHR ''<'' # name @ concat (map print_attr attrs) @ CHR ''>'' # ?r"
      by (auto simp: n NewDecoder_def)
    let ?e = "(inside (local_name name) ?as ?d)\<lparr>xd_Rest := ?r\<rparr>"
    from Token_start(1) [OF tc nm at \<open>xd_Rest ?d = _\<close>, of env] obtain t as where
      t: "Token env ?d = Inr (StartElement t as, ?e)" "xn_Local t = name"
      by (auto simp: inside_rest local_name_def elim!: local_token.elims)
    have e: "between_tags ?e" using between_inside [OF tc] by simp
    have "\<exists>n below. xd_Stack ?e = Opened n # below \<and> translate (xd_Ns ?e) True (local_name name) = n"
      by (simp add: inside_def start_element_def Let_def)
    with inner_end_printed [OF kids nm e, of _ _ body "[]" env] obtain d' where
      d': "inner_end env 0 ?e = Inr d'" "xd_Rest d' = ''</'' @ name @ ''>''" by auto
    then show ?thesis unfolding start [OF t] by (simp add: n)
  qed
  with assms(2) n show ?thesis
    by (auto simp: GetDescriptionFromXMLString_def GetRationaleFromXMLString_def GetWarningFromXMLString_def)
qed

text \<open>
  C21: the description of an object is, byte for byte, the markup between the tags of the
  element the DOM printed, for every element with plain XML names, and reading it does not
  fail; the same holds for rationales and warnings.
\<close>

theorem inner_xml_roundtrip:
  assumes "plain_node n"
    and "(get, nd_Name n) \<in> {(GetDescriptionFromXMLString, ''description''),
      (GetRationaleFromXMLString, ''rationale''), (GetWarningFromXMLString, ''warning'')}"
  shows "get env (XML_text n) = Inr (inner_xml n)"
  by (rule inner_xml_read [OF assms])

theorem inner_xml_roundtrip_witness:
  "GetDescriptionFromXMLString ex_env (XML_text (Node ''description'' [(''lang'', ''en-US'')]
       [Node ''pre'' [] [] ''a < b'', Node ''br'' [] [] []] ''No root''))
     = Inr ''<pre>a &lt; b</pre><br />No root''"
proof -
  let ?n = "Node ''description'' [(''lang'', ''en-US'')]
       [Node ''pre'' [] [] ''a < b'', Node ''br'' [] [] []] ''No root''"
  have plain: "plain_node ?n" by code_simp
  have inner: "inner_xml ?n = ''<pre>a &lt; b</pre><br />No root''"
    by (simp add: escape_rune_def is_in_character_range_def rune_error_def)
  have "(GetDescriptionFromXMLString, nd_Name ?n) \<in> {(GetDescriptionFromXMLString, ''description''),
      (GetRationaleFromXMLString, ''rationale''), (GetWarningFromXMLString, ''warning'')}" by simp
  from inner_xml_roundtrip [OF plain this, of ex_env] show ?thesis unfolding inner .
qed

section \<open>Descriptions from the source\<close>

text \<open>The elements of a document below one of them, in document order.\<close>

fun elements_of :: "xml_content \<Rightarrow> xml_content list" where
  "elements_of (Element name attrs xs) = Element name attrs xs # concat (map elements_of xs)"
| "elements_of _ = []"

fun plain_element :: "xml_content \<Rightarrow> bool" where
  "plain_element (Element name attrs xs) \<longleftrightarrow>
     plain_name (xn_Local name) \<and> list_all (\<lambda>a. plain_name (xn_Local (fst a))) attrs"
| "plain_element _ \<longleftrightarrow> True"

fun is_element :: "xml_content \<Rightarrow> bool" where
  "is_element (Element name attrs xs) \<longleftrightarrow> True"
| "is_element _ \<longleftrightarrow> False"

lemma subnodes_elements: "concat (map subnodes (content_nodes x)) = concat (map content_nodes (elements_of x))"
proof (induction x)
  case (Element name attrs xs)
  then have "concat (map subnodes (concat (map content_nodes xs))) = concat (map content_nodes (concat (map elements_of xs)))"
    by (induction xs) simp_all
  then show ?case by simp
qed simp_all

lemma plain_elements: "list_all plain_element (elements_of x) \<Longrightarrow> list_all plain_node (content_nodes x)"
  by (induction x) (auto simp: list_all_iff case_prod_beta)

lemma elements_are_elements: "list_all is_element (elements_of x)"
  by (induction x) (auto simp: list_all_iff)

lemma content_node_at:
  assumes "list_all is_element xs" and "i < length xs"
  shows "length (concat (map content_nodes xs)) = length xs"
    and "content_nodes (xs ! i) = [concat (map content_nodes xs) ! i]"
proof -
  have "\<exists>ns. map content_nodes xs = map (\<lambda>n. [n]) ns"
    using assms(1)
  proof (induction xs)
    case (Cons x xs)
    then obtain ns where "map content_nodes xs = map (\<lambda>n. [n]) ns" by auto
    moreover from Cons.prems obtain n where "content_nodes x = [n]" by (cases x) auto
    ultimately have "map content_nodes (x # xs) = map (\<lambda>n. [n]) (n # ns)" by simp
    then show ?case by blast
  qed simp
  then obtain ns where ns: "map content_nodes xs = map (\<lambda>n. [n]) ns" ..
  moreover from this have "length xs = length ns" by (metis length_map)
  moreover have "concat (map (\<lambda>n. [n]) ns) = ns" by simp
  ultimately show "length (concat (map content_nodes xs)) = length xs" "content_nodes (xs ! i) = [concat (map content_nodes xs) ! i]"
    using assms(2) by (simp_all, metis nth_map)
qed

text \<open>
  C37: the way of a description with markup from the content file to the object. Let the input be
  a document, and let the \<open>i\<close>-th element of its root element hold a text that is followed by no
  other text directly inside the element. Then the parser succeeds, the tree has a node for every
  element, and the description (or rationale, or warning) read from the \<open>i\<close>-th node is: its child
  elements, printed in order, and then only that last text, trimmed and escaped. So the texts
  between the child elements are lost, whatever they are, and where only white space follows the
  last child, all text of the element is. The names of the element and of what it holds are plain.
\<close>

theorem description_from_source:
  assumes "Tokens env input = (concat (map content_tokens xs), io_EOF)" and "find is_element xs = Some outer"
    and "i < length (elements_of outer)" and "elements_of outer ! i = Element name attrs (before @ Text t # after)"
    and "\<forall>x \<in> set after. \<not> is_text x" and "\<forall>x \<in> set (elements_of (elements_of outer ! i)). plain_element x"
    and "(get, xn_Local name) \<in> {(GetDescriptionFromXMLString, ''description''),
      (GetRationaleFromXMLString, ''rationale''), (GetWarningFromXMLString, ''warning'')}"
  shows "\<exists>doc root. Parse env input = Inr (Inr doc) \<and> doc_Root doc = Some root
    \<and> length (subnodes root) = length (elements_of outer)
    \<and> nd_Children (subnodes root ! i) = concat (map content_nodes (before @ after))
    \<and> get env (XML_text (subnodes root ! i)) =
        Inr (concat (map XML_text (nd_Children (subnodes root ! i))) @ EscapeText (TrimSpace t))"
proof -
  from find_Some_mem [OF assms(2)] have "is_element outer" "xs \<noteq> []" by auto
  then obtain root where root: "content_nodes outer = [root]" by (cases outer) auto
  have "first_node (concat (map content_nodes xs)) = Some root"
    using assms(2)
  proof (induction xs)
    case (Cons x xs)
    then show ?case using root by (cases x) (auto simp: first_node_def split: if_splits)
  qed simp
  then obtain doc where doc: "Parse env input = Inr (Inr doc)" "doc_Root doc = Some root"
    using Parse_contents [of xs io_EOF] \<open>xs \<noteq> []\<close> by (simp add: Parse_def assms(1))
  let ?n = "subnodes root ! i" and ?e = "Element name attrs (before @ Text t # after)"
  have sub: "subnodes root = concat (map content_nodes (elements_of outer))"
    using subnodes_elements [of outer] by (simp add: root)
  from content_node_at [OF elements_are_elements assms(3)] have
    len: "length (subnodes root) = length (elements_of outer)" and n: "content_nodes ?e = [?n]"
    by (simp_all add: sub assms(4))
  have "filter is_text (before @ Text t # after) = filter is_text before @ [Text t]"
    using assms(5) by simp
  then have "last_text (before @ Text t # after) = TrimSpace t"
    unfolding last_text_def by (cases "filter is_text before") simp_all
  with n have node: "?n = Node (xn_Local name) (map (\<lambda>(a, v). (xn_Local a, v)) attrs)
      (concat (map content_nodes (before @ after))) (TrimSpace t)" by simp
  have "plain_node ?n"
    using plain_elements [of ?e, unfolded n] assms(4,6)
    by (simp add: list_all_iff del: elements_of.simps plain_node.simps)
  from inner_xml_read [OF this, of get env] assms(7) have
    "get env (XML_text ?n) = Inr (concat (map XML_text (nd_Children ?n)) @ EscapeText (TrimSpace t))"
    by (simp add: node)
  with doc len show ?thesis by (intro exI [of _ doc] exI [of _ root]) (simp add: node)
qed

definition ex_markup :: string where
  "ex_markup = ''<Rule><description>Use <b>sudo</b> only.</description></Rule>''"

definition ex_markup_contents :: "xml_content list" where
  "ex_markup_contents = [Element (local_name ''Rule'') []
     [Element (local_name ''description'') []
       [Text ''Use '', Element (local_name ''b'') [] [Text ''sudo''], Text '' only.'']]]"

lemma ex_markup_tokens: "Tokens ex_env (ex_markup, io_EOF) = (concat (map content_tokens ex_markup_contents), io_EOF)"
  by (simp add: ex_markup_def ex_markup_contents_def decoder_steps local_name_def)

theorem description_from_source_witness:
  "\<exists>doc root. Parse ex_env (ex_markup, io_EOF) = Inr (Inr doc) \<and> doc_Root doc = Some root
     \<and> GetDescriptionFromXMLString ex_env (XML_text (subnodes root ! 1)) = Inr ''<b>sudo</b>only.''"
proof -
  let ?b = "Element (local_name ''b'') [] [Text ''sudo'']"
  let ?d = "Element (local_name ''description'') [] ([Text ''Use '', ?b] @ Text '' only.'' # [])"
  let ?outer = "Element (local_name ''Rule'') [] [?d]"
  have outer: "find is_element ex_markup_contents = Some ?outer" by (simp add: ex_markup_contents_def)
  have at: "1 < length (elements_of ?outer)" "elements_of ?outer ! 1 = ?d" by simp_all
  have plain: "\<forall>x \<in> set (elements_of (elements_of ?outer ! 1)). plain_element x"
    unfolding at by (simp add: local_name_def plain_name_def name_char_def)
  have trim: "TrimSpace ''sudo'' = ''sudo''" "TrimSpace '' only.'' = ''only.''"
    by (simp_all add: TrimSpace_def IsSpace_def)
  from description_from_source [OF ex_markup_tokens outer at _ plain, of GetDescriptionFromXMLString]
  obtain doc root where doc: "Parse ex_env (ex_markup, io_EOF) = Inr (Inr doc)" "doc_Root doc = Some root"
    and kids: "nd_Children (subnodes root ! 1) = concat (map content_nodes [Text ''Use '', ?b])"
    and get: "GetDescriptionFromXMLString ex_env (XML_text (subnodes root ! 1)) =
        Inr (concat (map XML_text (nd_Children (subnodes root ! 1))) @ EscapeText (TrimSpace '' only.''))"
    by (auto simp: local_name_def)
  have "nd_Children (subnodes root ! 1) = [Node ''b'' [] [] ''sudo'']"
    unfolding kids by (simp add: local_name_def last_text_def trim)
  with doc get show ?thesis by (simp add: trim escape_rune_def is_in_character_range_def rune_error_def)
qed

end
