(* ===== verification/Go_Regexp.thy ===== *)
theory Go_Regexp
  imports Go_Xml
begin

text \<open>
  What the program uses of Go's \<open>regexp\<close>: patterns without repetition, alternation, classes
  or groups, that is sequences of literal bytes, escaped punctuation, the dot and the two
  anchors. The compiler of any other pattern belongs to the run-time environment.
\<close>

datatype re_atom = Lit char | AnyRune | BeginText | EndText

definition re_meta :: string where
  "re_meta = [CHR 0x5C] @ ''.+*?()|[]{}^$''"

definition re_punct :: "char \<Rightarrow> bool" where
  "re_punct c \<longleftrightarrow>
     (let n = (of_char c :: nat) in
      0x21 \<le> n \<and> n \<le> 0x2F \<or> 0x3A \<le> n \<and> n \<le> 0x40 \<or> 0x5B \<le> n \<and> n \<le> 0x60 \<or> 0x7B \<le> n \<and> n \<le> 0x7E)"

text \<open>The atoms of a pattern of the fragment.\<close>

fun re_atoms :: "string \<Rightarrow> re_atom list option" where
  "re_atoms [] = Some []"
| "re_atoms (c # cs) =
     (if c = CHR 0x5C then
        (case cs of
           [] \<Rightarrow> None
         | d # ds \<Rightarrow> if re_punct d then map_option ((#) (Lit d)) (re_atoms ds) else None)
      else if c = CHR ''.'' then map_option ((#) AnyRune) (re_atoms cs)
      else if c = CHR ''^'' then map_option ((#) BeginText) (re_atoms cs)
      else if c = CHR ''$'' then map_option ((#) EndText) (re_atoms cs)
      else if c \<in> set re_meta \<or> 0x80 \<le> (of_char c :: nat) then None
      else map_option ((#) (Lit c)) (re_atoms cs))"

text \<open>
  Matching at a position of the text: the flag says that it is the beginning. The dot takes
  one rune and no line feed.
\<close>

fun match_at :: "re_atom list \<Rightarrow> bool \<Rightarrow> string \<Rightarrow> bool" where
  "match_at [] start s = True"
| "match_at (Lit c # ats) start s = (case s of [] \<Rightarrow> False | x # xs \<Rightarrow> x = c \<and> match_at ats False xs)"
| "match_at (AnyRune # ats) start s =
     (case s of
        [] \<Rightarrow> False
      | x # xs \<Rightarrow> x \<noteq> CHR 0x0A \<and> match_at ats False (drop (snd (DecodeRune (x # xs))) (x # xs)))"
| "match_at (BeginText # ats) start s = (start \<and> match_at ats start s)"
| "match_at (EndText # ats) start s = (s = [] \<and> match_at ats start s)"

text \<open>An unanchored search tries the positions one rune after the other.\<close>

function search :: "re_atom list \<Rightarrow> bool \<Rightarrow> string \<Rightarrow> bool" where
  "search ats start [] = match_at ats start []"
| "search ats start (x # xs) =
     (match_at ats start (x # xs)
      \<or> search ats False (drop (snd (DecodeRune (x # xs))) (x # xs)))"
  by pat_completeness auto

lemma rune_shorter: "length (drop (snd (DecodeRune (x # xs))) (x # xs)) < length (x # xs)"
  using DecodeRune_width [of x xs] by (simp del: DecodeRune.simps)

termination search
  by (relation "measure (length \<circ> snd \<circ> snd)")
    (use rune_shorter in \<open>simp_all del: DecodeRune.simps drop_eq_Nil length_drop\<close>)

definition Compile :: "go_env \<Rightarrow> string \<Rightarrow> go_error + (string \<Rightarrow> bool)" where
  "Compile env pattern =
     (case re_atoms pattern of
        Some ats \<Rightarrow> Inr (search ats True)
      | None \<Rightarrow> ge_regexp env pattern)"

text \<open>A pattern anchored at the beginning matches nowhere else.\<close>

lemma search_anchored: "search (BeginText # ats) start s \<longleftrightarrow> match_at (BeginText # ats) start s"
proof -
  have "\<not> search (BeginText # ats) start s" if "\<not> start" for start s
    using that
    by (induction "BeginText # ats" start s rule: search.induct) (simp_all del: DecodeRune.simps)
  from this [of False] show ?thesis by (cases s) (simp_all del: DecodeRune.simps)
qed

lemma match_at_literal:
  "match_at (map Lit p @ [EndText]) start s \<longleftrightarrow> s = p"
  by (induction p arbitrary: start s) (auto split: list.split)

end
