(* ===== verification/Profile_Parser.thy ===== *)
theory Profile_Parser
  imports Xccdf Xccdf_Strings Xmldom_Parse Go_Regexp Kube_Client
begin

text \<open>
  Package \<open>profileparser\<close>: reading the rules and variables of a data stream from its DOM,
  with the standards a rule refers to as annotations. The loops hand every object to an
  action of the caller.
\<close>

section \<open>Configuration\<close>

text \<open>
  The struct of the source, and what the package and its main program take from outside: the
  run-time environment, the YAML decoder of apimachinery, which decodes a text into an object and
  may fail, and the file system: opening a file gives its bytes and the error that ends them.
\<close>

record 'w parser_config =
  pc_DataStreamPath :: string
  pc_ProfileBundleKey :: nsname
  pc_Client :: "'w client"
  pc_Scheme :: scheme
  pc_env :: go_env
  pc_DecodeYAML :: "string \<Rightarrow> json \<Rightarrow> json \<times> go_error option"
  pc_Open :: "string \<Rightarrow> go_error + reader"

definition LogAndReturnError :: "string \<Rightarrow> go_error" where
  "LogAndReturnError errormsg = ErrorString errormsg"

text \<open>What the loop body makes of a node: an error for the caller, nothing, or an object.\<close>

datatype 'a parsed = Abort go_error | Skip | Emit 'a

section \<open>Variables\<close>

definition getVariableType :: "node \<Rightarrow> string" where
  "getVariableType varNode =
     (case GetAttribute varNode ''type'' of
        None \<Rightarrow> VarTypeString
      | Some typeAttr \<Rightarrow>
          if snd typeAttr = ''string'' then VarTypeString
          else if snd typeAttr = ''number'' then VarTypeNumber
          else if snd typeAttr = ''boolean'' then VarTypeBool
          else VarTypeString)"

fun var_values_loop :: "node list \<Rightarrow> variable \<Rightarrow> go_error + variable" where
  "var_values_loop [] v = Inr v"
| "var_values_loop (val # vals) v =
     (case GetAttribute val ''selector'' of
        Some selector \<Rightarrow>
          var_values_loop vals (v\<lparr>va_Selections := va_Selections v
            @ [\<lparr>vs_Description = snd selector, vs_Value = nd_Text val\<rparr>]\<rparr>)
      | None \<Rightarrow>
          if va_Value v \<noteq> [] then
            Inl (ErrorString (''attempting to set multiple values for variable '' @ va_ID v
                              @ ''; already had '' @ va_Value v))
          else var_values_loop vals (v\<lparr>va_Value := nd_Text val\<rparr>))"

definition parseVarValues :: "node \<Rightarrow> variable \<Rightarrow> go_error + variable" where
  "parseVarValues varNode v = var_values_loop (FindByName varNode ''value'') v"

text \<open>The optional texts: an error of the decoder leaves the field empty.\<close>

definition text_or_empty :: "(string \<Rightarrow> go_error + string) \<Rightarrow> node option \<Rightarrow> string" where
  "text_or_empty decode n =
     (case n of None \<Rightarrow> []
      | Some x \<Rightarrow> (case decode (XML_text x) of Inl err \<Rightarrow> [] | Inr s \<Rightarrow> s))"

definition api_type :: "string \<Rightarrow> type_meta" where
  "api_type kind = \<lparr>tm_Kind = kind, tm_APIVersion = gv_String SchemeGroupVersion\<rparr>"

definition parse_variable :: "go_env \<Rightarrow> string \<Rightarrow> node \<Rightarrow> variable parsed" where
  "parse_variable env ns varObj =
     (if GetAttributeValue varObj ''hidden'' = ''true'' then Skip
      else let ident = GetAttributeValue varObj ''id'' in
      if ident = [] then Abort (LogAndReturnError ''no id in variable'')
      else case FindOneByName varObj ''title'' of
        None \<Rightarrow> Abort (LogAndReturnError ''no title in variable'')
      | Some title \<Rightarrow>
          (let v = \<lparr>va_TypeMeta = api_type ''Variable'',
                    va_Meta = zero_meta\<lparr>om_Name := GetVariableNameFromID env ident, om_Namespace := ns\<rparr>,
                    va_ID = ident, va_Title = nd_Text title,
                    va_Description = text_or_empty (GetDescriptionFromXMLString env)
                      (FindOneByName varObj ''description''),
                    va_Type = getVariableType varObj, va_Value = [], va_Selections = []\<rparr>
           in case parseVarValues varObj v of Inl err \<Rightarrow> Skip | Inr v \<Rightarrow> Emit v))"

section \<open>Fixes\<close>

definition machineConfigFixType :: string where
  "machineConfigFixType = ''urn:xccdf:fix:script:ignition''"
definition kubernetesFixType :: string where
  "kubernetesFixType = ''urn:xccdf:fix:script:kubernetes''"

definition isRelevantFix :: "node \<Rightarrow> bool" where
  "isRelevantFix fx =
     (if GetAttributeValue fx ''system'' = machineConfigFixType then True
      else if GetAttributeValue fx ''system'' = kubernetesFixType then True
      else False)"

text \<open>A caller that gets an error drops the object.\<close>

definition readObjFromYAML ::
  "(string \<Rightarrow> json \<Rightarrow> json \<times> go_error option) \<Rightarrow> string \<Rightarrow> go_error + json" where
  "readObjFromYAML decode r =
     (let obj = JObject [] in
      case decode r obj of
        (obj, Some err) \<Rightarrow> Inl err
      | (obj, None) \<Rightarrow> Inr obj)"

fun fixes_loop ::
  "(string \<Rightarrow> go_error + json) \<Rightarrow> node list \<Rightarrow> fix_definition list \<Rightarrow> string set
   \<Rightarrow> fix_definition list" where
  "fixes_loop yaml [] fixes foundPlatformMap = fixes"
| "fixes_loop yaml (fixNodeObj # rest) fixes foundPlatformMap =
     (if \<not> isRelevantFix fixNodeObj then fixes_loop yaml rest fixes foundPlatformMap
      else let platform = GetAttributeValue fixNodeObj ''platform'' in
      if platform \<in> foundPlatformMap then fixes_loop yaml rest fixes foundPlatformMap
      else case yaml (nd_Text fixNodeObj) of
        Inl err \<Rightarrow> fixes_loop yaml rest fixes foundPlatformMap
      | Inr fixKubeObj \<Rightarrow>
          fixes_loop yaml rest
            (fixes @ [\<lparr>fd_Platform = platform,
                      fd_Disruption = GetAttributeValue fixNodeObj ''disruption'',
                      fd_FixObject = Some fixKubeObj\<rparr>])
            (insert platform foundPlatformMap))"

section \<open>Standards\<close>

record compliance_standard =
  cs_Name :: string
  cs_hrefMatcher :: "string \<Rightarrow> bool"

type_synonym annotations_formatter =
  "(string \<rightharpoonup> string) \<Rightarrow> string \<Rightarrow> string \<Rightarrow> (string \<rightharpoonup> string)"

record reference_parser =
  rp_registeredStds :: "compliance_standard list"
  rp_annotationFormatters :: "annotations_formatter list"

definition newStandardParser :: reference_parser where
  "newStandardParser = \<lparr>rp_registeredStds = [], rp_annotationFormatters = []\<rparr>"

definition registerStandard ::
  "go_env \<Rightarrow> reference_parser \<Rightarrow> string \<Rightarrow> string \<Rightarrow> go_error option \<times> reference_parser" where
  "registerStandard env p name hrefRegexp =
     (case Compile env hrefRegexp of
        Inl err \<Rightarrow> (Some err, p)
      | Inr matcher \<Rightarrow>
          (None, p\<lparr>rp_registeredStds := rp_registeredStds p
            @ [\<lparr>cs_Name = name, cs_hrefMatcher = matcher\<rparr>]\<rparr>))"

definition registerFormatter :: "reference_parser \<Rightarrow> annotations_formatter \<Rightarrow> reference_parser" where
  "registerFormatter p formatter =
     p\<lparr>rp_annotationFormatters := rp_annotationFormatters p @ [formatter]\<rparr>"

definition appendKeyWithSep ::
  "(string \<rightharpoonup> string) \<Rightarrow> string \<Rightarrow> string \<Rightarrow> char \<Rightarrow> (string \<rightharpoonup> string)" where
  "appendKeyWithSep annotations key item sep =
     (case annotations key of
        None \<Rightarrow> annotations(key \<mapsto> item)
      | Some curVal \<Rightarrow>
          (let curList = Split curVal sep in
           if item \<in> set curList then annotations
           else annotations(key \<mapsto> Join (curList @ [item]) [sep])))"

definition controlAnnotationBase :: string where
  "controlAnnotationBase = ''control.compliance.openshift.io/''"
definition rhacmStdsAnnotationKey :: string where
  "rhacmStdsAnnotationKey = ''policies.open-cluster-management.io/standards''"
definition rhacmCtrlsAnnotationsKey :: string where
  "rhacmCtrlsAnnotationsKey = ''policies.open-cluster-management.io/controls''"

definition profileOperatorFormatter :: annotations_formatter where
  "profileOperatorFormatter annotations std ctrl =
     appendKeyWithSep annotations (controlAnnotationBase @ std) ctrl (CHR '';'')"

definition rhacmFormatter :: annotations_formatter where
  "rhacmFormatter annotations std ctrl =
     appendKeyWithSep (appendKeyWithSep annotations rhacmStdsAnnotationKey std (CHR '',''))
       rhacmCtrlsAnnotationsKey ctrl (CHR '','')"

text \<open>The three nested loops of \<open>parseXmlNode\<close>; its error is always nil.\<close>

definition format_reference ::
  "reference_parser \<Rightarrow> node \<Rightarrow> (string \<rightharpoonup> string) \<Rightarrow> (string \<rightharpoonup> string)" where
  "format_reference p refEl annotations =
     (let href = GetAttributeValue refEl ''href'' in
      if href = [] then annotations
      else fold (\<lambda>std ann.
             if \<not> cs_hrefMatcher std href then ann
             else fold (\<lambda>formatter ann. formatter ann (cs_Name std) (nd_Text refEl))
                    (rp_annotationFormatters p) ann)
           (rp_registeredStds p) annotations)"

definition parseXmlNode :: "reference_parser \<Rightarrow> node \<Rightarrow> (string \<rightharpoonup> string)" where
  "parseXmlNode p ruleObj =
     fold (format_reference p) (FindByName ruleObj ''reference'') Map.empty"

definition nist_href :: string where
  "nist_href = ''^http://nvlpubs.nist.gov/nistpubs/SpecialPublications/NIST'' @ [CHR 0x5C]
     @ ''.SP'' @ [CHR 0x5C] @ ''.800-53r4'' @ [CHR 0x5C] @ ''.pdf$''"

text \<open>The global parser as \<open>init\<close> leaves it.\<close>

definition stdParser :: "go_env \<Rightarrow> reference_parser" where
  "stdParser env =
     (let p = snd (registerStandard env newStandardParser ''NIST-800-53'' nist_href)
      in registerFormatter (registerFormatter p profileOperatorFormatter) rhacmFormatter)"

section \<open>Rules\<close>

definition parse_rule :: "go_env \<Rightarrow> (string \<Rightarrow> go_error + json) \<Rightarrow> string \<Rightarrow> node \<Rightarrow> rule parsed" where
  "parse_rule env yaml ns ruleObj =
     (let ident = GetAttributeValue ruleObj ''id'' in
      if ident = [] then Abort (LogAndReturnError ''no id in rule'')
      else case FindOneByName ruleObj ''title'' of
        None \<Rightarrow> Abort (LogAndReturnError ''no title in rule'')
      | Some title \<Rightarrow>
          (let fixes = fixes_loop yaml (FindByName ruleObj ''fix'') [] {};
               annotations = parseXmlNode (stdParser env) ruleObj
           in Emit \<lparr>ru_TypeMeta = api_type ''Rule'',
                    ru_Meta = zero_meta\<lparr>om_Name := GetRuleNameFromID env ident, om_Namespace := ns,
                                        om_Annotations := Some annotations\<rparr>,
                    ru_ID = ident, ru_Title = nd_Text title,
                    ru_Description = text_or_empty (GetDescriptionFromXMLString env)
                      (FindOneByName ruleObj ''description''),
                    ru_Rationale = text_or_empty (GetRationaleFromXMLString env)
                      (FindOneByName ruleObj ''rationale''),
                    ru_Warning = text_or_empty (GetWarningFromXMLString env)
                      (FindOneByName ruleObj ''warning''),
                    ru_Severity = (case FindOneByName ruleObj ''severity'' of
                                     None \<Rightarrow> [] | Some severity \<Rightarrow> nd_Text severity),
                    ru_AvailableFixes = fixes\<rparr>))"

section \<open>The loops\<close>

text \<open>
  Both loops give up on the first node they cannot read, and only log the error of an action.
\<close>

fun variables_do ::
  "go_env \<Rightarrow> string \<Rightarrow> (variable \<Rightarrow> ('w world, go_error option) state) \<Rightarrow> node list
   \<Rightarrow> ('w world, go_error option) state" where
  "variables_do env ns action [] = ret None"
| "variables_do env ns action (varObj # varObjs) =
     (case parse_variable env ns varObj of
        Abort err \<Rightarrow> ret (Some err)
      | Skip \<Rightarrow> variables_do env ns action varObjs
      | Emit v \<Rightarrow> do { _ \<leftarrow> action v; variables_do env ns action varObjs })"

fun rules_do ::
  "go_env \<Rightarrow> (string \<Rightarrow> go_error + json) \<Rightarrow> string
   \<Rightarrow> (rule \<Rightarrow> ('w world, go_error option) state) \<Rightarrow> node list
   \<Rightarrow> ('w world, go_error option) state" where
  "rules_do env yaml ns action [] = ret None"
| "rules_do env yaml ns action (ruleObj # ruleObjs) =
     (case parse_rule env yaml ns ruleObj of
        Abort err \<Rightarrow> ret (Some err)
      | Skip \<Rightarrow> rules_do env yaml ns action ruleObjs
      | Emit p \<Rightarrow> do { _ \<leftarrow> action p; rules_do env yaml ns action ruleObjs })"

text \<open>A query on a document without a root is a nil dereference.\<close>

definition ParseVariablesAndDo ::
  "document \<Rightarrow> 'w parser_config \<Rightarrow> (variable \<Rightarrow> ('w world, go_error option) state)
   \<Rightarrow> ('w world, go_panic + go_error option) state" where
  "ParseVariablesAndDo contentDom pcfg action =
     (case doc_Root contentDom of
        None \<Rightarrow> ret (Inl NilDereference)
      | Some root \<Rightarrow> do {
          err \<leftarrow> variables_do (pc_env pcfg) (nn_Namespace (pc_ProfileBundleKey pcfg)) action
                   (Query root ''Value'');
          ret (Inr err)
        })"

definition ParseRulesAndDo ::
  "document \<Rightarrow> 'w parser_config \<Rightarrow> (rule \<Rightarrow> ('w world, go_error option) state)
   \<Rightarrow> ('w world, go_panic + go_error option) state" where
  "ParseRulesAndDo contentDom pcfg action =
     (case doc_Root contentDom of
        None \<Rightarrow> ret (Inl NilDereference)
      | Some root \<Rightarrow> do {
          err \<leftarrow> rules_do (pc_env pcfg) (readObjFromYAML (pc_DecodeYAML pcfg))
                   (nn_Namespace (pc_ProfileBundleKey pcfg)) action (Query root ''Rule'');
          ret (Inr err)
        })"

end
