(* ===== verification/Parser_Main.thy ===== *)
theory Parser_Main
  imports Profile_Parser Go_Flags
begin

text \<open>
  The parser program (\<open>cmd/profileparser/main.go\<close>), which runs in the Pod of a bundle: it
  turns a data stream into Profile, Rule and Variable objects and reports the outcome in the
  status of the ProfileBundle.
\<close>

section \<open>Configuration\<close>

definition assertNotEmpty :: "string \<Rightarrow> process_end + unit" where
  "assertNotEmpty param = (if param = [] then Inl (Exit 1) else Inr ())"

text \<open>The checks of \<open>newParserConfig\<close> on the parsed flags.\<close>

definition check_config :: "nsname \<Rightarrow> process_end + unit" where
  "check_config key =
     (case assertNotEmpty (nn_Name key) of
        Inl e \<Rightarrow> Inl e
      | Inr _ \<Rightarrow> assertNotEmpty (nn_Namespace key))"

definition getK8sScheme :: scheme where
  "getK8sScheme =
     (let scheme = [];
          scheme = AddKnownTypes scheme SchemeGroupVersion [T_ProfileBundle];
          scheme = AddKnownTypes scheme SchemeGroupVersion [T_ProfileList];
          scheme = AddKnownTypes scheme SchemeGroupVersion [T_Profile];
          scheme = AddKnownTypes scheme SchemeGroupVersion [T_RuleList];
          scheme = AddKnownTypes scheme SchemeGroupVersion [T_Rule];
          scheme = AddKnownTypes scheme SchemeGroupVersion [T_VariableList];
          scheme = AddKnownTypes scheme SchemeGroupVersion [T_Variable];
          scheme = AddKnownTypes scheme SchemeGroupVersion [T_CreateOptions];
          scheme = AddKnownTypes scheme SchemeGroupVersion [T_UpdateOptions]
      in scheme)"

text \<open>
  What the process gets from outside: its arguments, what the flag sets of the libraries make of
  other flags, the way to the API server, and the environment of the parser package. The
  contents of a \<open>rest.Config\<close> do not matter.
\<close>

type_synonym rest_config = string

record 'w parser_process =
  pp_Args :: "string list"
  pp_OtherFlag :: "string \<Rightarrow> string list \<Rightarrow> process_end + bool"
  pp_GetConfig :: "go_error + rest_config"
  pp_NewClient :: "rest_config \<Rightarrow> scheme \<Rightarrow> go_error + 'w client"
  pp_env :: go_env
  pp_DecodeYAML :: "string \<Rightarrow> json \<Rightarrow> json \<times> go_error option"
  pp_Open :: "string \<Rightarrow> go_error + reader"

definition getK8sClient :: "'w parser_process \<Rightarrow> scheme \<Rightarrow> process_end + 'w client" where
  "getK8sClient proc scheme =
     (case pp_GetConfig proc of
        Inl err \<Rightarrow> Inl (Exit 1)
      | Inr cfg \<Rightarrow>
          (case pp_NewClient proc cfg scheme of
             Inl err \<Rightarrow> Inl (Exit 1)
           | Inr client \<Rightarrow> Inr client))"

definition parser_flags :: "string set" where
  "parser_flags = {''ds-path'', ''profile-bundle-name'', ''profile-bundle-namespace''}"

definition newParserConfig :: "'w parser_process \<Rightarrow> process_end + 'w parser_config" where
  "newParserConfig proc =
     (case parse_args parser_flags (pp_OtherFlag proc) (pp_Args proc) Map.empty of
        Inl e \<Rightarrow> Inl e
      | Inr vals \<Rightarrow>
     (let path = flag_value vals ''ds-path'' ''/content/ssg-ocp4-ds.xml'';
          key = nsn (flag_value vals ''profile-bundle-namespace'' [])
                    (flag_value vals ''profile-bundle-name'' [])
      in case check_config key of
        Inl e \<Rightarrow> Inl e
      | Inr _ \<Rightarrow>
     (let scheme = getK8sScheme
      in case getK8sClient proc scheme of
        Inl e \<Rightarrow> Inl e
      | Inr client \<Rightarrow>
          Inr \<lparr>pc_DataStreamPath = path, pc_ProfileBundleKey = key, pc_Client = client,
               pc_Scheme = scheme, pc_env = pp_env proc,
               pc_DecodeYAML = pp_DecodeYAML proc, pc_Open = pp_Open proc\<rparr>)))"

definition getProfileBundle ::
  "'w parser_config \<Rightarrow> ('w world, process_end + profile_bundle) state" where
  "getProfileBundle pcfg = do {
     got \<leftarrow> client_get (cl_Get_ProfileBundle (pc_Client pcfg)) (pc_ProfileBundleKey pcfg);
     case got of Inl err \<Rightarrow> ret (Inl (Exit 1)) | Inr pb \<Rightarrow> ret (Inr pb)
   }"

definition readContent :: "'w parser_config \<Rightarrow> string \<Rightarrow> go_error + reader" where
  "readContent pcfg filename = pc_Open pcfg (Clean filename)"

section \<open>Profiles\<close>

definition getPrefixedName :: "string \<Rightarrow> string \<Rightarrow> string" where
  "getPrefixedName pbName objName = pbName @ ''-'' @ objName"

fun selected_rules :: "go_env \<Rightarrow> string \<Rightarrow> node list \<Rightarrow> profile_rule list" where
  "selected_rules env pbName [] = []"
| "selected_rules env pbName (ruleObj # ruleObjs) =
     (let idref = GetAttributeValue ruleObj ''idref'' in
      if idref = [] then selected_rules env pbName ruleObjs
      else if GetAttributeValue ruleObj ''selected'' = ''true''
      then NewProfileRule (getPrefixedName pbName (GetRuleNameFromID env idref))
             # selected_rules env pbName ruleObjs
      else selected_rules env pbName ruleObjs)"

definition selected_values :: "node list \<Rightarrow> profile_value list" where
  "selected_values valueObjs =
     filter (\<lambda>idref. idref \<noteq> []) (map (\<lambda>v. GetAttributeValue v ''idref'') valueObjs)"

definition parse_profile :: "go_env \<Rightarrow> nsname \<Rightarrow> node \<Rightarrow> profile parsed" where
  "parse_profile env key profileObj =
     (let ident = GetAttributeValue profileObj ''id'' in
      if ident = [] then Abort (LogAndReturnError ''no id in profile'')
      else case FindOneByName profileObj ''title'' of
        None \<Rightarrow> Abort (LogAndReturnError ''no title in profile'')
      | Some title \<Rightarrow>
          (case FindOneByName profileObj ''description'' of
             None \<Rightarrow> Abort (LogAndReturnError ''no description in profile'')
           | Some description \<Rightarrow>
               Emit \<lparr>pr_TypeMeta = api_type ''Profile'',
                     pr_Meta = zero_meta\<lparr>om_Name := GetProfileNameFromID env ident,
                                         om_Namespace := nn_Namespace key\<rparr>,
                     pr_Title = nd_Text title, pr_Description = nd_Text description,
                     pr_ID = ident,
                     pr_Rules = selected_rules env (nn_Name key) (FindByName profileObj ''select''),
                     pr_Values = selected_values (FindByName profileObj ''set-value'')\<rparr>))"

text \<open>Unlike the loops over rules and variables, this one ends at the first failed action.\<close>

fun profiles_do ::
  "go_env \<Rightarrow> nsname \<Rightarrow> (profile \<Rightarrow> ('w world, go_error option) state) \<Rightarrow> node list
   \<Rightarrow> ('w world, go_error option) state" where
  "profiles_do env key action [] = ret None"
| "profiles_do env key action (profileObj # profileObjs) =
     (case parse_profile env key profileObj of
        Abort err \<Rightarrow> ret (Some err)
      | Skip \<Rightarrow> profiles_do env key action profileObjs
      | Emit p \<Rightarrow> do {
          err \<leftarrow> action p;
          case err of Some e \<Rightarrow> ret (Some e) | None \<Rightarrow> profiles_do env key action profileObjs
        })"

definition parseProfilesAndDo ::
  "document \<Rightarrow> 'w parser_config \<Rightarrow> (profile \<Rightarrow> ('w world, go_error option) state)
   \<Rightarrow> ('w world, go_panic + go_error option) state" where
  "parseProfilesAndDo contentDom pcfg action =
     (case doc_Root contentDom of
        None \<Rightarrow> ret (Inl NilDereference)
      | Some root \<Rightarrow> do {
          err \<leftarrow> profiles_do (pc_env pcfg) (pc_ProfileBundleKey pcfg) action (Query root ''Profile'');
          ret (Inr err)
        })"

section \<open>Status of the bundle\<close>

definition status_update_or_exit ::
  "'w parser_config \<Rightarrow> profile_bundle \<Rightarrow> ('w world, process_end + unit) state" where
  "status_update_or_exit pcfg pbCopy = do {
     err \<leftarrow> StatusUpdate (pc_Client pcfg) (ProfileBundleObj pbCopy);
     case err of Some e \<Rightarrow> ret (Inl (Exit 1)) | None \<Rightarrow> ret (Inr ())
   }"

definition updateProfileBundleStatus ::
  "'w parser_config \<Rightarrow> profile_bundle \<Rightarrow> go_error option \<Rightarrow> ('w world, process_end + unit) state" where
  "updateProfileBundleStatus pcfg pb err =
     (case err of
        Some e \<Rightarrow> status_update_or_exit pcfg
          (pb\<lparr>pb_Status := \<lparr>pbst_DataStreamStatus = DataStreamInvalid,
                            pbst_ErrorMessage = error_text (pc_env pcfg) e\<rparr>\<rparr>)
      | None \<Rightarrow> status_update_or_exit pcfg
          (pb\<lparr>pb_Status := (pb_Status pb)\<lparr>pbst_DataStreamStatus := DataStreamValid\<rparr>\<rparr>))"

section \<open>The actions\<close>

text \<open>Creating an object, where one that exists already is as good.\<close>

definition create_or_exists ::
  "'w client \<Rightarrow> kobject \<Rightarrow> ('w world, go_error option) state" where
  "create_or_exists cl x = do {
     err \<leftarrow> Create cl x;
     case err of
       None \<Rightarrow> ret None
     | Some e \<Rightarrow> if IsAlreadyExists e then ret None else ret (Some e)
   }"

definition profile_action ::
  "'w parser_config \<Rightarrow> profile_bundle \<Rightarrow> profile \<Rightarrow> ('w world, go_error option) state" where
  "profile_action pcfg pb p =
     (let meta = (pr_Meta p)\<lparr>om_Name := getPrefixedName (om_Name (pb_Meta pb)) (om_Name (pr_Meta p))\<rparr> in
      case SetControllerReference T_ProfileBundle (pb_Meta pb) meta (pc_Scheme pcfg) of
        Inl err \<Rightarrow> ret (Some err)
      | Inr meta \<Rightarrow> create_or_exists (pc_Client pcfg) (ProfileObj (p\<lparr>pr_Meta := meta\<rparr>)))"

definition rule_action ::
  "'w parser_config \<Rightarrow> profile_bundle \<Rightarrow> rule \<Rightarrow> ('w world, go_error option) state" where
  "rule_action pcfg pb r =
     (let ruleName = om_Name (ru_Meta r);
          annotations = (case om_Annotations (ru_Meta r) of None \<Rightarrow> Map.empty | Some a \<Rightarrow> a);
          meta = (ru_Meta r)\<lparr>om_Name := getPrefixedName (om_Name (pb_Meta pb)) ruleName,
                             om_Annotations := Some (annotations(RuleIDAnnotationKey \<mapsto> ruleName))\<rparr> in
      case SetControllerReference T_ProfileBundle (pb_Meta pb) meta (pc_Scheme pcfg) of
        Inl err \<Rightarrow> ret (Some err)
      | Inr meta \<Rightarrow> create_or_exists (pc_Client pcfg) (RuleObj (r\<lparr>ru_Meta := meta\<rparr>)))"

definition variable_action ::
  "'w parser_config \<Rightarrow> profile_bundle \<Rightarrow> variable \<Rightarrow> ('w world, go_error option) state" where
  "variable_action pcfg pb v =
     (let meta = (va_Meta v)\<lparr>om_Name := getPrefixedName (om_Name (pb_Meta pb)) (om_Name (va_Meta v))\<rparr> in
      case SetControllerReference T_ProfileBundle (pb_Meta pb) meta (pc_Scheme pcfg) of
        Inl err \<Rightarrow> ret (Some err)
      | Inr meta \<Rightarrow> create_or_exists (pc_Client pcfg) (VariableObj (v\<lparr>va_Meta := meta\<rparr>)))"

section \<open>main\<close>

text \<open>An outcome in the status and then the end of the process with a code.\<close>

definition report_and_exit ::
  "'w parser_config \<Rightarrow> profile_bundle \<Rightarrow> go_error option \<Rightarrow> nat \<Rightarrow> ('w world, process_end) state" where
  "report_and_exit pcfg pb err code = do {
     updated \<leftarrow> updateProfileBundleStatus pcfg pb err;
     case updated of Inl e \<Rightarrow> ret e | Inr _ \<Rightarrow> ret (Exit code)
   }"

definition parse_content ::
  "'w parser_config \<Rightarrow> profile_bundle \<Rightarrow> document \<Rightarrow> ('w world, process_end) state" where
  "parse_content pcfg pb contentDom = do {
     res \<leftarrow> parseProfilesAndDo contentDom pcfg (profile_action pcfg pb);
     case res of
       Inl panic \<Rightarrow> ret (Panic panic)
     | Inr (Some err) \<Rightarrow> report_and_exit pcfg pb (Some err) 0
     | Inr None \<Rightarrow> do {
     res \<leftarrow> ParseRulesAndDo contentDom pcfg (rule_action pcfg pb);
     case res of
       Inl panic \<Rightarrow> ret (Panic panic)
     | Inr (Some err) \<Rightarrow> report_and_exit pcfg pb (Some err) 0
     | Inr None \<Rightarrow> do {
     res \<leftarrow> ParseVariablesAndDo contentDom pcfg (variable_action pcfg pb);
     case res of
       Inl panic \<Rightarrow> ret (Panic panic)
     | Inr err \<Rightarrow> report_and_exit pcfg pb err 0
     }}}"

definition content_error :: "go_env \<Rightarrow> string \<Rightarrow> go_error \<Rightarrow> go_error" where
  "content_error env what err =
     ErrorString (''Couldn't read content '' @ what @ '': '' @ error_text env err)"

definition run_parser :: "'w parser_config \<Rightarrow> ('w world, process_end) state" where
  "run_parser pcfg = do {
     got \<leftarrow> getProfileBundle pcfg;
     case got of
       Inl e \<Rightarrow> ret e
     | Inr pb \<Rightarrow>
         (case readContent pcfg (pc_DataStreamPath pcfg) of
            Inl err \<Rightarrow> report_and_exit pcfg pb
              (Some (content_error (pc_env pcfg) ''file'' err)) 1
          | Inr contentFile \<Rightarrow>
              (case Parse (pc_env pcfg) contentFile of
                 Inl panic \<Rightarrow> ret (Panic panic)
               | Inr (Inl err) \<Rightarrow> report_and_exit pcfg pb
                   (Some (content_error (pc_env pcfg) ''XML'' err)) 1
               | Inr (Inr contentDom) \<Rightarrow> parse_content pcfg pb contentDom))
   }"

definition main :: "'w parser_process \<Rightarrow> ('w world, process_end) state" where
  "main proc = (case newParserConfig proc of Inl e \<Rightarrow> ret e | Inr pcfg \<Rightarrow> run_parser pcfg)"

end
