(* ===== verification/Parser_Correct.thy ===== *)
theory Parser_Correct
  imports Parser_Main Effects
begin

text \<open>
  What a run of the parser program guarantees whatever the API server answers: the objects it
  creates are those of the data stream, in its order, and the status it reports.
\<close>

section \<open>The objects of a data stream\<close>

text \<open>What a loop hands to its action, and the error it ends with.\<close>

fun emitted :: "(node \<Rightarrow> 'a parsed) \<Rightarrow> node list \<Rightarrow> 'a list" where
  "emitted parse [] = []"
| "emitted parse (n # ns) =
     (case parse n of Abort _ \<Rightarrow> [] | Skip \<Rightarrow> emitted parse ns | Emit x \<Rightarrow> x # emitted parse ns)"

fun first_abort :: "(node \<Rightarrow> 'a parsed) \<Rightarrow> node list \<Rightarrow> go_error option" where
  "first_abort parse [] = None"
| "first_abort parse (n # ns) =
     (case parse n of Abort err \<Rightarrow> Some err | _ \<Rightarrow> first_abort parse ns)"

text \<open>
  The object an action creates, when the bundle can be its controller: named with the prefix
  of the bundle, and controlled by it.
\<close>

definition controlled :: "'w parser_config \<Rightarrow> profile_bundle \<Rightarrow> object_meta \<Rightarrow> object_meta option" where
  "controlled pcfg pb m =
     (case SetControllerReference T_ProfileBundle (pb_Meta pb)
        (m\<lparr>om_Name := getPrefixedName (om_Name (pb_Meta pb)) (om_Name m)\<rparr>) (pc_Scheme pcfg) of
        Inl _ \<Rightarrow> None | Inr m' \<Rightarrow> Some m')"

definition profile_object :: "'w parser_config \<Rightarrow> profile_bundle \<Rightarrow> profile \<Rightarrow> kobject option" where
  "profile_object pcfg pb p =
     map_option (\<lambda>m. ProfileObj (p\<lparr>pr_Meta := m\<rparr>)) (controlled pcfg pb (pr_Meta p))"

definition with_rule_id :: "object_meta \<Rightarrow> object_meta" where
  "with_rule_id m = m\<lparr>om_Annotations :=
     Some ((case om_Annotations m of None \<Rightarrow> Map.empty | Some a \<Rightarrow> a)(RuleIDAnnotationKey \<mapsto> om_Name m))\<rparr>"

definition rule_object :: "'w parser_config \<Rightarrow> profile_bundle \<Rightarrow> rule \<Rightarrow> kobject option" where
  "rule_object pcfg pb r =
     map_option (\<lambda>m. RuleObj (r\<lparr>ru_Meta := m\<rparr>)) (controlled pcfg pb (with_rule_id (ru_Meta r)))"

definition variable_object :: "'w parser_config \<Rightarrow> profile_bundle \<Rightarrow> variable \<Rightarrow> kobject option" where
  "variable_object pcfg pb v =
     map_option (\<lambda>m. VariableObj (v\<lparr>va_Meta := m\<rparr>)) (controlled pcfg pb (va_Meta v))"

section \<open>The actions\<close>

text \<open>A write after which the object exists.\<close>

definition created :: "api_write \<Rightarrow> bool" where
  "created w \<longleftrightarrow> (case wr_Error w of None \<Rightarrow> True | Some e \<Rightarrow> IsAlreadyExists e)"

definition creates :: "kobject option \<Rightarrow> go_error option \<Rightarrow> api_write list \<Rightarrow> bool" where
  "creates x out ws \<longleftrightarrow>
     (case x of
        None \<Rightarrow> ws = [] \<and> out \<noteq> None
      | Some x \<Rightarrow> \<exists>e. ws = [wr Create_verb x e]
          \<and> (out = None \<longleftrightarrow> created (wr Create_verb x e)))"

lemma effects_create_or_exists: "effects (create_or_exists cl x) (creates (Some x))"
  unfolding create_or_exists_def by (auto intro!: effects_intro simp: creates_def created_def)

lemma effects_profile_action: "effects (profile_action pcfg pb p) (creates (profile_object pcfg pb p))"
  unfolding profile_action_def profile_object_def controlled_def Let_def
  by (cases "SetControllerReference T_ProfileBundle (pb_Meta pb) ((pr_Meta p)
      \<lparr>om_Name := getPrefixedName (om_Name (pb_Meta pb)) (om_Name (pr_Meta p))\<rparr>) (pc_Scheme pcfg)")
    (auto intro!: effects_ret effects_create_or_exists simp: creates_def [of None])

lemma effects_rule_action: "effects (rule_action pcfg pb r) (creates (rule_object pcfg pb r))"
proof -
  have "(with_rule_id m)\<lparr>om_Name := n\<rparr> = m\<lparr>om_Name := n, om_Annotations := Some ((case om_Annotations m of
      None \<Rightarrow> Map.empty | Some a \<Rightarrow> a)(RuleIDAnnotationKey \<mapsto> om_Name m))\<rparr>" for m n
    by (simp add: with_rule_id_def)
  moreover have "om_Name (with_rule_id m) = om_Name m" for m by (simp add: with_rule_id_def)
  ultimately show ?thesis
    unfolding rule_action_def rule_object_def controlled_def Let_def
    by (auto intro!: effects_ret effects_create_or_exists simp: creates_def [of None] split: sum.split)
qed

lemma effects_variable_action:
  "effects (variable_action pcfg pb v) (creates (variable_object pcfg pb v))"
  unfolding variable_action_def variable_object_def controlled_def Let_def
  by (cases "SetControllerReference T_ProfileBundle (pb_Meta pb) ((va_Meta v)
      \<lparr>om_Name := getPrefixedName (om_Name (pb_Meta pb)) (om_Name (va_Meta v))\<rparr>) (pc_Scheme pcfg)")
    (auto intro!: effects_ret effects_create_or_exists simp: creates_def [of None])

section \<open>The loops\<close>

text \<open>The loops over rules and variables share one contract: they only log what an action answers.\<close>

locale logging_loop =
  fixes parse :: "node \<Rightarrow> 'a parsed"
    and loop :: "('a \<Rightarrow> ('w world, go_error option) state) \<Rightarrow> node list \<Rightarrow> ('w world, go_error option) state"
  assumes loop_Nil: "loop action [] = ret None"
    and loop_Abort: "parse n = Abort err \<Longrightarrow> loop action (n # ns) = ret (Some err)"
    and loop_Skip: "parse n = Skip \<Longrightarrow> loop action (n # ns) = loop action ns"
    and loop_Emit: "parse n = Emit x \<Longrightarrow>
      loop action (n # ns) = State_Monad.bind (action x) (\<lambda>_. loop action ns)"
begin

lemma effects_loop:
  assumes "\<And>x. effects (action x) (creates (obj x))"
  shows "effects (loop action nodes) (\<lambda>out ws. out = first_abort parse nodes
    \<and> list_all (\<lambda>w. wr_Verb w = Create_verb) ws
    \<and> map wr_Object ws = List.map_filter obj (emitted parse nodes))"
proof (induction nodes)
  case Nil
  then show ?case by (simp add: loop_Nil effects_ret List.map_filter_simps)
next
  case (Cons n nodes)
  show ?case
  proof (cases "parse n")
    case (Emit x)
    have "effects (loop action nodes) (\<lambda>out ws'. out = first_abort parse (n # nodes)
        \<and> list_all (\<lambda>w. wr_Verb w = Create_verb) (ws @ ws')
        \<and> map wr_Object (ws @ ws') = List.map_filter obj (emitted parse (n # nodes)))"
      if "creates (obj x) out ws" for out ws
      using that Emit
      by (intro effects_mono [OF Cons.IH])
        (auto simp: creates_def List.map_filter_simps split: option.splits)
    then show ?thesis
      unfolding loop_Emit [OF Emit] by (intro effects_bind effects_mono [OF assms])
  qed (use Cons.IH in \<open>simp_all add: loop_Abort loop_Skip effects_ret List.map_filter_simps\<close>)
qed

end

interpretation rule_loop: logging_loop "parse_rule env yaml ns" "rules_do env yaml ns"
  by unfold_locales simp_all

interpretation variable_loop: logging_loop "parse_variable env ns" "variables_do env ns"
  by unfold_locales simp_all

lemma effects_profiles_do:
  assumes "\<And>x. effects (action x) (creates (obj x))"
  shows "effects (profiles_do env key action nodes) (\<lambda>out ws.
    list_all (\<lambda>w. wr_Verb w = Create_verb) ws
    \<and> (\<exists>rest. List.map_filter obj (emitted (parse_profile env key) nodes) = map wr_Object ws @ rest
         \<and> (out = None \<longrightarrow> rest = []))
    \<and> (out = None \<longrightarrow> first_abort (parse_profile env key) nodes = None
         \<and> list_all created ws \<and> (\<forall>x \<in> set (emitted (parse_profile env key) nodes). obj x \<noteq> None))
    \<and> (\<forall>err. out = Some err \<longrightarrow> first_abort (parse_profile env key) nodes = Some err
         \<or> (\<exists>x \<in> set (emitted (parse_profile env key) nodes). obj x = None) \<or> \<not> list_all created ws))"
proof (induction nodes)
  case Nil
  then show ?case by (simp add: effects_ret List.map_filter_simps)
next
  case (Cons n nodes)
  show ?case
  proof (cases "parse_profile env key n")
    case (Emit x)
    let ?Q = "\<lambda>out ws. list_all (\<lambda>w. wr_Verb w = Create_verb) ws
      \<and> (\<exists>rest. List.map_filter obj (emitted (parse_profile env key) (n # nodes)) = map wr_Object ws @ rest
         \<and> (out = None \<longrightarrow> rest = []))
      \<and> (out = None \<longrightarrow> first_abort (parse_profile env key) (n # nodes) = None
         \<and> list_all created ws \<and> (\<forall>x \<in> set (emitted (parse_profile env key) (n # nodes)). obj x \<noteq> None))
      \<and> (\<forall>err. out = Some err \<longrightarrow> first_abort (parse_profile env key) (n # nodes) = Some err
         \<or> (\<exists>x \<in> set (emitted (parse_profile env key) (n # nodes)). obj x = None) \<or> \<not> list_all created ws)"
    have "effects (case out of Some e \<Rightarrow> ret (Some e) | None \<Rightarrow> profiles_do env key action nodes)
        (\<lambda>out' ws'. ?Q out' (ws @ ws'))" if "creates (obj x) out ws" for out ws
    proof (cases out)
      case None
      with that obtain o' e where "obj x = Some o'" "ws = [wr Create_verb o' e]"
        "created (wr Create_verb o' e)"
        by (auto simp: creates_def split: option.splits)
      with None Emit show ?thesis
        by (auto simp: List.map_filter_simps intro!: effects_mono [OF Cons.IH])
    next
      case (Some e)
      with that Emit show ?thesis
        by (auto intro!: effects_ret simp: creates_def List.map_filter_simps split: option.splits)
    qed
    with Emit show ?thesis
      by (simp only: profiles_do.simps parsed.case) (intro effects_bind effects_mono [OF assms])
  qed (use Cons.IH in \<open>simp_all add: effects_ret List.map_filter_simps\<close>)
qed

section \<open>The specification of a run\<close>

definition stream_profiles :: "'w parser_config \<Rightarrow> node \<Rightarrow> profile list" where
  "stream_profiles pcfg root =
     emitted (parse_profile (pc_env pcfg) (pc_ProfileBundleKey pcfg)) (Query root ''Profile'')"

definition stream_rules :: "'w parser_config \<Rightarrow> node \<Rightarrow> rule list" where
  "stream_rules pcfg root =
     emitted (parse_rule (pc_env pcfg) (readObjFromYAML (pc_DecodeYAML pcfg))
       (nn_Namespace (pc_ProfileBundleKey pcfg))) (Query root ''Rule'')"

definition stream_variables :: "'w parser_config \<Rightarrow> node \<Rightarrow> variable list" where
  "stream_variables pcfg root =
     emitted (parse_variable (pc_env pcfg) (nn_Namespace (pc_ProfileBundleKey pcfg))) (Query root ''Value'')"

definition stream_objects :: "'w parser_config \<Rightarrow> profile_bundle \<Rightarrow> node \<Rightarrow> kobject list" where
  "stream_objects pcfg pb root =
     List.map_filter (profile_object pcfg pb) (stream_profiles pcfg root)
     @ List.map_filter (rule_object pcfg pb) (stream_rules pcfg root)
     @ List.map_filter (variable_object pcfg pb) (stream_variables pcfg root)"

text \<open>The first node, in the order of the three loops, that cannot be read.\<close>

definition stream_error :: "'w parser_config \<Rightarrow> node \<Rightarrow> go_error option" where
  "stream_error pcfg root =
     (case first_abort (parse_profile (pc_env pcfg) (pc_ProfileBundleKey pcfg)) (Query root ''Profile'') of
        Some err \<Rightarrow> Some err
      | None \<Rightarrow>
          (case first_abort (parse_rule (pc_env pcfg) (readObjFromYAML (pc_DecodeYAML pcfg))
                 (nn_Namespace (pc_ProfileBundleKey pcfg))) (Query root ''Rule'') of
             Some err \<Rightarrow> Some err
           | None \<Rightarrow> first_abort (parse_variable (pc_env pcfg)
                      (nn_Namespace (pc_ProfileBundleKey pcfg))) (Query root ''Value'')))"

definition valid_bundle :: "profile_bundle \<Rightarrow> profile_bundle" where
  "valid_bundle pb = pb\<lparr>pb_Status := (pb_Status pb)\<lparr>pbst_DataStreamStatus := DataStreamValid\<rparr>\<rparr>"

definition invalid_bundle :: "go_env \<Rightarrow> profile_bundle \<Rightarrow> go_error \<Rightarrow> profile_bundle" where
  "invalid_bundle env pb err = pb\<lparr>pb_Status := \<lparr>pbst_DataStreamStatus = DataStreamInvalid,
     pbst_ErrorMessage = error_text env err\<rparr>\<rparr>"

definition exit_code :: "nat \<Rightarrow> go_error option \<Rightarrow> process_end" where
  "exit_code code e = Exit (if e = None then code else 1)"

fun is_profile :: "kobject \<Rightarrow> bool" where
  "is_profile (ProfileObj _) = True"
| "is_profile _ = False"

text \<open>
  The writes of a run over a document and how it ends. A document without a root panics; a
  complete run creates every object of the stream, in order, every profile successfully, and
  reports the bundle as valid; an incomplete one has a cause, creates a prefix of them, and
  reports the bundle as invalid.
\<close>

inductive content_trace ::
  "'w parser_config \<Rightarrow> profile_bundle \<Rightarrow> document \<Rightarrow> api_write list \<Rightarrow> process_end \<Rightarrow> bool"
  for pcfg :: "'w parser_config" and pb :: profile_bundle and doc :: document where
  no_root: "doc_Root doc = None \<Longrightarrow> content_trace pcfg pb doc [] (Panic NilDereference)"
| complete:
    "doc_Root doc = Some root \<Longrightarrow> stream_error pcfg root = None \<Longrightarrow>
     map wr_Object ws = stream_objects pcfg pb root \<Longrightarrow>
     list_all (\<lambda>w. wr_Verb w = Create_verb) ws \<Longrightarrow>
     \<forall>p \<in> set (stream_profiles pcfg root). profile_object pcfg pb p \<noteq> None \<Longrightarrow>
     list_all created (filter (is_profile \<circ> wr_Object) ws) \<Longrightarrow>
     content_trace pcfg pb doc (ws @ [wr StatusUpdate_verb (ProfileBundleObj (valid_bundle pb)) e])
       (exit_code 0 e)"
| incomplete:
    "doc_Root doc = Some root \<Longrightarrow>
     map wr_Object ws @ rest = stream_objects pcfg pb root \<Longrightarrow>
     list_all (\<lambda>w. wr_Verb w = Create_verb) ws \<Longrightarrow>
     stream_error pcfg root = Some err
       \<or> (\<exists>p \<in> set (stream_profiles pcfg root). profile_object pcfg pb p = None)
       \<or> \<not> list_all created ws \<Longrightarrow>
     content_trace pcfg pb doc
       (ws @ [wr StatusUpdate_verb (ProfileBundleObj (invalid_bundle (pc_env pcfg) pb err)) e])
       (exit_code 0 e)"

lemma effects_status:
  assumes "\<And>e. Q (case e of Some _ \<Rightarrow> Inl (Exit 1) | None \<Rightarrow> Inr ())
    [wr StatusUpdate_verb (ProfileBundleObj st) e]"
  shows "effects (status_update_or_exit pcfg st) Q"
  unfolding status_update_or_exit_def
proof (intro effects_bind effects_writes)
  fix e
  show "effects (case e of Some e \<Rightarrow> ret (Inl (Exit 1)) | None \<Rightarrow> ret (Inr ()))
    (\<lambda>b ws'. Q b ([wr StatusUpdate_verb (ProfileBundleObj st) e] @ ws'))"
    using assms [of e] by (cases e) (simp_all add: effects_ret)
qed

lemma effects_report [effects_intro]:
  assumes "\<And>e. Q (exit_code code e) [wr StatusUpdate_verb (ProfileBundleObj (case err of
      None \<Rightarrow> valid_bundle pb | Some err \<Rightarrow> invalid_bundle (pc_env pcfg) pb err)) e]"
  shows "effects (report_and_exit pcfg pb err code) Q"
proof -
  have upd: "updateProfileBundleStatus pcfg pb err = status_update_or_exit pcfg (case err of
      None \<Rightarrow> valid_bundle pb | Some err \<Rightarrow> invalid_bundle (pc_env pcfg) pb err)"
    by (cases err) (simp_all add: updateProfileBundleStatus_def valid_bundle_def invalid_bundle_def)
  show ?thesis
    unfolding report_and_exit_def upd
  proof (intro effects_bind effects_status)
    fix e :: "go_error option"
    show "effects (case case e of Some _ \<Rightarrow> Inl (Exit 1) | None \<Rightarrow> Inr () of
         Inl e \<Rightarrow> ret e | Inr _ \<Rightarrow> ret (Exit code))
      (\<lambda>b ws'. Q b ([wr StatusUpdate_verb (ProfileBundleObj (case err of
        None \<Rightarrow> valid_bundle pb | Some err \<Rightarrow> invalid_bundle (pc_env pcfg) pb err)) e] @ ws'))"
      using assms [of e] by (cases e) (simp_all add: effects_ret exit_code_def)
  qed
qed

lemma effects_rules:
  assumes "doc_Root doc = Some root"
    and "\<And>out ws. out = first_abort (parse_rule (pc_env pcfg) (readObjFromYAML (pc_DecodeYAML pcfg))
        (nn_Namespace (pc_ProfileBundleKey pcfg))) (Query root ''Rule'') \<Longrightarrow>
      list_all (\<lambda>w. wr_Verb w = Create_verb) ws \<Longrightarrow>
      map wr_Object ws = List.map_filter (rule_object pcfg pb) (stream_rules pcfg root) \<Longrightarrow> Q (Inr out) ws"
  shows "effects (ParseRulesAndDo doc pcfg (rule_action pcfg pb)) Q"
  unfolding ParseRulesAndDo_def assms(1) option.case
  by (intro effects_bind effects_mono [OF rule_loop.effects_loop [OF effects_rule_action]])
    (simp add: assms(2) effects_ret stream_rules_def)

lemma effects_variables:
  assumes "doc_Root doc = Some root"
    and "\<And>out ws. out = first_abort (parse_variable (pc_env pcfg)
        (nn_Namespace (pc_ProfileBundleKey pcfg))) (Query root ''Value'') \<Longrightarrow>
      list_all (\<lambda>w. wr_Verb w = Create_verb) ws \<Longrightarrow>
      map wr_Object ws = List.map_filter (variable_object pcfg pb) (stream_variables pcfg root)
      \<Longrightarrow> Q (Inr out) ws"
  shows "effects (ParseVariablesAndDo doc pcfg (variable_action pcfg pb)) Q"
  unfolding ParseVariablesAndDo_def assms(1) option.case
  by (intro effects_bind effects_mono [OF variable_loop.effects_loop [OF effects_variable_action]])
    (simp add: assms(2) effects_ret stream_variables_def)

lemma effects_profiles:
  assumes "doc_Root doc = Some root"
    and "\<And>ws rest err. list_all (\<lambda>w. wr_Verb w = Create_verb) ws \<Longrightarrow>
      List.map_filter (profile_object pcfg pb) (stream_profiles pcfg root) = map wr_Object ws @ rest \<Longrightarrow>
      first_abort (parse_profile (pc_env pcfg) (pc_ProfileBundleKey pcfg)) (Query root ''Profile'') = Some err
        \<or> (\<exists>p \<in> set (stream_profiles pcfg root). profile_object pcfg pb p = None)
        \<or> \<not> list_all created ws \<Longrightarrow> Q (Inr (Some err)) ws"
    and "\<And>ws. list_all (\<lambda>w. wr_Verb w = Create_verb) ws \<Longrightarrow>
      List.map_filter (profile_object pcfg pb) (stream_profiles pcfg root) = map wr_Object ws \<Longrightarrow>
      first_abort (parse_profile (pc_env pcfg) (pc_ProfileBundleKey pcfg)) (Query root ''Profile'') = None
      \<Longrightarrow> list_all created ws
      \<Longrightarrow> \<forall>p \<in> set (stream_profiles pcfg root). profile_object pcfg pb p \<noteq> None \<Longrightarrow> Q (Inr None) ws"
  shows "effects (parseProfilesAndDo doc pcfg (profile_action pcfg pb)) Q"
  unfolding parseProfilesAndDo_def assms(1) option.case
proof (intro effects_bind effects_mono [OF effects_profiles_do [OF effects_profile_action]] effects_ret,
    elim conjE exE)
  fix out ws rest
  assume *: "list_all (\<lambda>w. wr_Verb w = Create_verb) ws"
    "List.map_filter (profile_object pcfg pb) (emitted (parse_profile (pc_env pcfg)
      (pc_ProfileBundleKey pcfg)) (Query root ''Profile'')) = map wr_Object ws @ rest"
    "out = None \<longrightarrow> rest = []"
    "out = None \<longrightarrow> first_abort (parse_profile (pc_env pcfg) (pc_ProfileBundleKey pcfg))
        (Query root ''Profile'') = None \<and> list_all created ws
      \<and> (\<forall>p \<in> set (emitted (parse_profile (pc_env pcfg) (pc_ProfileBundleKey pcfg))
          (Query root ''Profile'')). profile_object pcfg pb p \<noteq> None)"
    "\<forall>err. out = Some err \<longrightarrow> first_abort (parse_profile (pc_env pcfg) (pc_ProfileBundleKey pcfg))
        (Query root ''Profile'') = Some err
      \<or> (\<exists>p \<in> set (emitted (parse_profile (pc_env pcfg) (pc_ProfileBundleKey pcfg))
          (Query root ''Profile'')). profile_object pcfg pb p = None) \<or> \<not> list_all created ws"
  show "Q (Inr out) (ws @ [])"
  proof (cases out)
    case None
    with * [folded stream_profiles_def] show ?thesis by (simp add: assms(3))
  next
    case (Some err)
    with * [folded stream_profiles_def] have "Q (Inr (Some err)) ws" by (intro assms(2)) auto
    with Some show ?thesis by simp
  qed
qed

text \<open>The profiles are all there: what is left of a run.\<close>

definition profiles_done ::
  "'w parser_config \<Rightarrow> profile_bundle \<Rightarrow> node \<Rightarrow> api_write list \<Rightarrow> bool" where
  "profiles_done pcfg pb root ws \<longleftrightarrow>
     list_all (\<lambda>w. wr_Verb w = Create_verb) ws
     \<and> List.map_filter (profile_object pcfg pb) (stream_profiles pcfg root) = map wr_Object ws
     \<and> first_abort (parse_profile (pc_env pcfg) (pc_ProfileBundleKey pcfg)) (Query root ''Profile'') = None
     \<and> list_all created ws
     \<and> (\<forall>p \<in> set (stream_profiles pcfg root). profile_object pcfg pb p \<noteq> None)"

abbreviation rules_abort :: "'w parser_config \<Rightarrow> node \<Rightarrow> go_error option" where
  "rules_abort pcfg root \<equiv> first_abort (parse_rule (pc_env pcfg) (readObjFromYAML (pc_DecodeYAML pcfg))
     (nn_Namespace (pc_ProfileBundleKey pcfg))) (Query root ''Rule'')"

abbreviation variables_abort :: "'w parser_config \<Rightarrow> node \<Rightarrow> go_error option" where
  "variables_abort pcfg root \<equiv> first_abort (parse_variable (pc_env pcfg)
     (nn_Namespace (pc_ProfileBundleKey pcfg))) (Query root ''Value'')"

lemma not_profiles:
  "List.find is_profile (List.map_filter (rule_object pcfg pb) rs) = None"
  "List.find is_profile (List.map_filter (variable_object pcfg pb) vs) = None"
  by (auto simp: find_None_all List.map_filter_def rule_object_def variable_object_def)

lemma only_profiles:
  assumes "map wr_Object ws1 = List.map_filter (rule_object pcfg pb) rs"
    and "map wr_Object ws2 = List.map_filter (variable_object pcfg pb) vs"
  shows "filter (is_profile \<circ> wr_Object) ws1 = []" "filter (is_profile \<circ> wr_Object) ws2 = []"
  using not_profiles [of pcfg pb] unfolding assms [symmetric]
  by (auto simp: find_None_all filter_empty_conv) (metis assms find_None_all image_eqI set_map)+

lemma content_trace_all:
  assumes "doc_Root doc = Some root" and "profiles_done pcfg pb root ws"
    and "list_all (\<lambda>w. wr_Verb w = Create_verb) (ws1 @ ws2)" and "rules_abort pcfg root = None"
    and "map wr_Object ws1 = List.map_filter (rule_object pcfg pb) (stream_rules pcfg root)"
    and "map wr_Object ws2 = List.map_filter (variable_object pcfg pb) (stream_variables pcfg root)"
  shows "content_trace pcfg pb doc (ws @ ws1 @ ws2 @ [wr StatusUpdate_verb (ProfileBundleObj
      (case variables_abort pcfg root of
         None \<Rightarrow> valid_bundle pb | Some err \<Rightarrow> invalid_bundle (pc_env pcfg) pb err)) e]) (exit_code 0 e)"
proof -
  have objs: "map wr_Object (ws @ ws1 @ ws2) = stream_objects pcfg pb root"
    using assms(2,5,6) by (simp add: stream_objects_def profiles_done_def)
  have verbs: "list_all (\<lambda>w. wr_Verb w = Create_verb) (ws @ ws1 @ ws2)"
    using assms(2,3) by (simp add: profiles_done_def)
  show ?thesis
  proof (cases "variables_abort pcfg root")
    case None
    then have "stream_error pcfg root = None"
      using assms(2,4) by (simp add: stream_error_def profiles_done_def)
    moreover have "list_all created (filter (is_profile \<circ> wr_Object) (ws @ ws1 @ ws2))"
      using assms(2) only_profiles [OF assms(5,6)] by (auto simp: profiles_done_def list_all_iff)
    moreover have "\<forall>p \<in> set (stream_profiles pcfg root). profile_object pcfg pb p \<noteq> None"
      using assms(2) by (simp add: profiles_done_def)
    ultimately show ?thesis
      using content_trace.complete [OF assms(1) _ objs verbs, of e] None by simp
  next
    case (Some err)
    then have "stream_error pcfg root = Some err"
      using assms(2,4) by (simp add: stream_error_def profiles_done_def)
    moreover have "map wr_Object (ws @ ws1 @ ws2) @ [] = stream_objects pcfg pb root"
      using objs by simp
    ultimately show ?thesis
      using content_trace.incomplete [OF assms(1) _ verbs disjI1, of "[]" pcfg pb err e] Some by simp
  qed
qed

lemma content_trace_rules_stop:
  assumes "doc_Root doc = Some root" and "profiles_done pcfg pb root ws"
    and "list_all (\<lambda>w. wr_Verb w = Create_verb) ws1" and "rules_abort pcfg root = Some err"
    and "map wr_Object ws1 = List.map_filter (rule_object pcfg pb) (stream_rules pcfg root)"
  shows "content_trace pcfg pb doc (ws @ ws1 @ [wr StatusUpdate_verb (ProfileBundleObj
      (invalid_bundle (pc_env pcfg) pb err)) e]) (exit_code 0 e)"
proof -
  have "map wr_Object (ws @ ws1) @ List.map_filter (variable_object pcfg pb) (stream_variables pcfg root)
      = stream_objects pcfg pb root"
    using assms(2,5) by (simp add: stream_objects_def profiles_done_def)
  moreover have "list_all (\<lambda>w. wr_Verb w = Create_verb) (ws @ ws1)"
    using assms(2,3) by (simp add: profiles_done_def)
  moreover have "stream_error pcfg root = Some err"
    using assms(2,4) by (simp add: stream_error_def profiles_done_def)
  ultimately show ?thesis
    using content_trace.incomplete [OF assms(1) _ _ disjI1, of "ws @ ws1" _ pcfg pb err e] by simp
qed

lemma effects_after_profiles:
  assumes "doc_Root doc = Some root" and "profiles_done pcfg pb root ws"
  shows "effects (State_Monad.bind (ParseRulesAndDo doc pcfg (rule_action pcfg pb)) (\<lambda>res.
      case res of Inl panic \<Rightarrow> ret (Panic panic)
      | Inr (Some err) \<Rightarrow> report_and_exit pcfg pb (Some err) 0
      | Inr None \<Rightarrow> State_Monad.bind (ParseVariablesAndDo doc pcfg (variable_action pcfg pb)) (\<lambda>res.
          case res of Inl panic \<Rightarrow> ret (Panic panic) | Inr err \<Rightarrow> report_and_exit pcfg pb err 0)))
    (\<lambda>b ws'. content_trace pcfg pb doc (ws @ ws') b)"
proof (intro effects_bind effects_rules [OF assms(1)]; simp only: sum.case)
  fix out and ws1 :: "api_write list"
  assume r: "out = rules_abort pcfg root" "list_all (\<lambda>w. wr_Verb w = Create_verb) ws1"
    "map wr_Object ws1 = List.map_filter (rule_object pcfg pb) (stream_rules pcfg root)"
  show "effects (case rules_abort pcfg root of None \<Rightarrow>
        State_Monad.bind (ParseVariablesAndDo doc pcfg (variable_action pcfg pb)) (\<lambda>res.
          case res of Inl panic \<Rightarrow> ret (Panic panic) | Inr err \<Rightarrow> report_and_exit pcfg pb err 0)
      | Some err \<Rightarrow> report_and_exit pcfg pb (Some err) 0)
    (\<lambda>b ws'. content_trace pcfg pb doc (ws @ ws1 @ ws') b)"
  proof (cases "rules_abort pcfg root")
    case None
    have "effects (report_and_exit pcfg pb (variables_abort pcfg root) 0)
        (\<lambda>b ws'. content_trace pcfg pb doc (ws @ ws1 @ ws2 @ ws') b)"
      if "list_all (\<lambda>w. wr_Verb w = Create_verb) ws2"
        "map wr_Object ws2 = List.map_filter (variable_object pcfg pb) (stream_variables pcfg root)" for ws2
      by (intro effects_report content_trace_all [OF assms _ None r(3)]) (use that r(2) in simp_all)
    with None show ?thesis
      by (auto intro!: effects_bind effects_variables [OF assms(1)])
  next
    case (Some err)
    then show ?thesis
      by (auto intro!: effects_report content_trace_rules_stop [OF assms r(2) _ r(3)])
  qed
qed

lemma effects_parse_content:
  "effects (parse_content pcfg pb doc) (\<lambda>out ws. content_trace pcfg pb doc ws out)"
proof (cases "doc_Root doc")
  case None
  then show ?thesis
    by (auto simp: parse_content_def parseProfilesAndDo_def intro!: effects_intro content_trace.no_root)
next
  case (Some root)
  have stop: "effects (report_and_exit pcfg pb (Some err) 0) (\<lambda>b ws'. content_trace pcfg pb doc (ws @ ws') b)"
    if "list_all (\<lambda>w. wr_Verb w = Create_verb) ws"
      "List.map_filter (profile_object pcfg pb) (stream_profiles pcfg root) = map wr_Object ws @ rest"
      "first_abort (parse_profile (pc_env pcfg) (pc_ProfileBundleKey pcfg)) (Query root ''Profile'') = Some err
        \<or> (\<exists>p \<in> set (stream_profiles pcfg root). profile_object pcfg pb p = None) \<or> \<not> list_all created ws"
    for ws rest err
  proof -
    have "map wr_Object ws @ rest @ List.map_filter (rule_object pcfg pb) (stream_rules pcfg root)
        @ List.map_filter (variable_object pcfg pb) (stream_variables pcfg root) = stream_objects pcfg pb root"
      using that(2) by (simp add: stream_objects_def)
    moreover have "stream_error pcfg root = Some err
        \<or> (\<exists>p \<in> set (stream_profiles pcfg root). profile_object pcfg pb p = None) \<or> \<not> list_all created ws"
      using that(3) by (auto simp: stream_error_def)
    ultimately have "content_trace pcfg pb doc (ws @ [wr StatusUpdate_verb
        (ProfileBundleObj (invalid_bundle (pc_env pcfg) pb err)) e]) (exit_code 0 e)" for e
      by (rule content_trace.incomplete [OF Some _ that(1)])
    then show ?thesis by (intro effects_report) simp
  qed
  show ?thesis
    unfolding parse_content_def
    by (intro effects_bind effects_profiles [OF Some]; simp only: sum.case option.case)
      (rule stop, assumption+, rule effects_after_profiles [OF Some], simp add: profiles_done_def)
qed

text \<open>
  The specification of a run with its configuration: without the bundle it writes nothing;
  content that cannot be read or parsed is reported in the status, and the process fails so
  that the Pod is restarted; otherwise the document decides.
\<close>

inductive run_trace :: "'w parser_config \<Rightarrow> api_write list \<Rightarrow> process_end \<Rightarrow> bool"
  for pcfg :: "'w parser_config" where
  no_start: "run_trace pcfg [] (Exit 1)"
| no_content: "pc_Open pcfg (Clean (pc_DataStreamPath pcfg)) = Inl err \<Longrightarrow>
    run_trace pcfg [wr StatusUpdate_verb (ProfileBundleObj (invalid_bundle (pc_env pcfg) pb
      (content_error (pc_env pcfg) ''file'' err))) e] (Exit 1)"
| no_document: "pc_Open pcfg (Clean (pc_DataStreamPath pcfg)) = Inr content \<Longrightarrow>
    Parse (pc_env pcfg) content = Inr (Inl err) \<Longrightarrow>
    run_trace pcfg [wr StatusUpdate_verb (ProfileBundleObj (invalid_bundle (pc_env pcfg) pb
      (content_error (pc_env pcfg) ''XML'' err))) e] (Exit 1)"
| document: "pc_Open pcfg (Clean (pc_DataStreamPath pcfg)) = Inr content \<Longrightarrow>
    Parse (pc_env pcfg) content = Inr (Inr doc) \<Longrightarrow> content_trace pcfg pb doc ws out \<Longrightarrow> run_trace pcfg ws out"

lemma effects_run_parser: "effects (run_parser pcfg) (\<lambda>out ws. run_trace pcfg ws out)"
proof -
  have doc: "effects (parse_content pcfg pb doc) (\<lambda>out ws. run_trace pcfg ws out)"
    if "pc_Open pcfg (Clean (pc_DataStreamPath pcfg)) = Inr content" "Parse (pc_env pcfg) content = Inr (Inr doc)"
    for pb content doc
    using that by (intro effects_mono [OF effects_parse_content]) (rule run_trace.document)
  have exit: "exit_code 1 e = Exit 1" for e by (simp add: exit_code_def)
  show ?thesis
    unfolding run_parser_def getProfileBundle_def readContent_def
    by (auto intro!: effects_intro doc run_trace.no_start run_trace.no_content run_trace.no_document
        simp: exit simp del: One_nat_def split: sum.splits)
qed

text \<open>A process whose configuration fails writes nothing.\<close>

definition main_trace :: "'w parser_process \<Rightarrow> api_write list \<Rightarrow> process_end \<Rightarrow> bool" where
  "main_trace proc ws out \<longleftrightarrow>
     (case newParserConfig proc of
        Inl e \<Rightarrow> ws = [] \<and> out = e
      | Inr pcfg \<Rightarrow> run_trace pcfg ws out)"

lemma effects_main: "effects (main proc) (\<lambda>out ws. main_trace proc ws out)"
  unfolding main_def main_trace_def
  by (cases "newParserConfig proc") (simp_all add: effects_ret effects_run_parser)

text \<open>
  C3: whatever the API server answers, a run of the parser follows its specification. In
  particular a bundle is reported as valid only after a Create for every profile, rule and
  readable variable of the data stream, in document order, with every profile created or
  existing; a run over unreadable content reports it and fails; and a process without a usable
  configuration writes nothing.
\<close>

theorem main_refines_trace:
  "\<exists>ws. w_writes (snd (run_state (main proc) s)) = w_writes s @ ws
     \<and> main_trace proc ws (fst (run_state (main proc) s))"
  using effectsD [OF effects_main, of proc s] by auto

end
