(* ===== verification/Parser_Samples.thy ===== *)
theory Parser_Samples
  imports Parser_Main Api_Server
begin

text \<open>
  A small data stream and the configuration of a parser run over it, for the witnesses.
\<close>

definition ex_rule_id :: string where
  "ex_rule_id = ''xccdf_org.ssgproject.content_rule_no_root''"

definition ex_profile_node :: node where
  "ex_profile_node = Node ''Profile'' [(''id'', ''xccdf_org.ssgproject.content_profile_moderate'')]
     [Node ''title'' [] [] ''Moderate'', Node ''description'' [] [] ''A profile'',
      Node ''select'' [(''idref'', ex_rule_id), (''selected'', ''true'')] [] []] []"

definition ex_description_node :: node where
  "ex_description_node = Node ''description'' [(''lang'', ''en-US'')]
     [Node ''pre'' [] [] ''a < b'', Node ''br'' [] [] []] ''No direct root logins''"

definition ex_reference_node :: node where
  "ex_reference_node = Node ''reference''
     [(''href'', ''http://nvlpubs.nist.gov/nistpubs/SpecialPublications/NIST.SP.800-53r4.pdf'')] [] ''AC-6''"

definition ex_rule_node :: node where
  "ex_rule_node = Node ''Rule'' [(''id'', ex_rule_id), (''severity'', ''medium'')]
     [Node ''title'' [] [] ''No root'', ex_description_node, ex_reference_node,
      Node ''fix'' [(''system'', kubernetesFixType), (''platform'', ''ocp4'')] [] ''kind: Secret''] []"

definition ex_value_node :: node where
  "ex_value_node = Node ''Value'' [(''id'', ''xccdf_org.ssgproject.content_value_banner''),
     (''type'', ''string'')]
     [Node ''title'' [] [] ''Banner'', Node ''value'' [] [] ''a'',
      Node ''value'' [(''selector'', ''other'')] [] ''b''] []"

definition ex_root :: node where
  "ex_root = Node ''Benchmark'' [] [ex_profile_node, ex_rule_node, ex_value_node] []"

definition ex_pcfg :: "mem_server parser_config" where
  "ex_pcfg = \<lparr>pc_DataStreamPath = ''/content/ssg-rhcos4-ds.xml'',
     pc_ProfileBundleKey = nsn ''ns'' ''rhcos'', pc_Client = mem_client,
     pc_Scheme = getK8sScheme, pc_env = ex_env,
     pc_DecodeYAML = (\<lambda>_ obj. (obj, None)), pc_Open = (\<lambda>_. Inr (XML_text ex_root, io_EOF))\<rparr>"

lemmas ex_nodes = ex_root_def ex_profile_node_def ex_rule_node_def ex_value_node_def
  ex_description_node_def ex_reference_node_def

lemma ex_document:
  "Parse env (XML_text ex_root, io_EOF) = Inr (Inr \<lparr>doc_ProcInst = [], doc_Directives = [], doc_Root = Some ex_root\<rparr>)"
proof (rule Parse_printed)
  show "plain_node ex_root" by code_simp
  show "legal_node ex_root"
    by (simp add: ex_nodes ex_rule_id_def kubernetesFixType_def TrimSpace_def IsSpace_def
        is_in_character_range_def rune_error_def)
qed

end
