(* ===== verification/Parser_Functional.thy ===== *)
theory Parser_Functional
  imports Parser_Samples
begin

text \<open>
  What the parser reads off a node: fixes, variable values, annotations, names.
\<close>

section \<open>Fixes\<close>

text \<open>The fix of a node, when it is of a kind the operator applies and its text decodes.\<close>

definition fix_of :: "(string \<Rightarrow> go_error + json) \<Rightarrow> node \<Rightarrow> fix_definition option" where
  "fix_of yaml n =
     (if isRelevantFix n then
        (case yaml (nd_Text n) of
           Inl _ \<Rightarrow> None
         | Inr obj \<Rightarrow> Some \<lparr>fd_Platform = GetAttributeValue n ''platform'',
                             fd_Disruption = GetAttributeValue n ''disruption'', fd_FixObject = Some obj\<rparr>)
      else None)"

abbreviation fix_for :: "string \<Rightarrow> fix_definition list \<Rightarrow> fix_definition option" where
  "fix_for p fixes \<equiv> List.find (\<lambda>f. fd_Platform f = p) fixes"

lemma fixes_loop_Cons:
  "fixes_loop yaml (n # nodes) acc seen =
     (case fix_of yaml n of
        None \<Rightarrow> fixes_loop yaml nodes acc seen
      | Some f \<Rightarrow>
          if fd_Platform f \<in> seen then fixes_loop yaml nodes acc seen
          else fixes_loop yaml nodes (acc @ [f]) (insert (fd_Platform f) seen))"
  by (simp add: fix_of_def Let_def split: sum.split)

declare fixes_loop.simps(2) [simp del]

lemma fixes_loop_find:
  "fix_for p (fixes_loop yaml nodes acc (fd_Platform ` set acc)) =
     (case fix_for p acc of Some f \<Rightarrow> Some f | None \<Rightarrow> fix_for p (List.map_filter (fix_of yaml) nodes))"
proof (induction nodes arbitrary: acc)
  case Nil
  then show ?case by (simp add: List.map_filter_simps split: option.split)
next
  case (Cons n nodes)
  show ?case
  proof (cases "fix_of yaml n")
    case (Some f)
    have "fix_for (fd_Platform f) acc \<noteq> None" if "fd_Platform f \<in> fd_Platform ` set acc"
      using that unfolding find_None_all by force
    with Some show ?thesis
      using Cons.IH [of acc] Cons.IH [of "acc @ [f]"]
      by (auto simp: fixes_loop_Cons List.map_filter_simps find_append split: option.split)
  qed (simp add: fixes_loop_Cons List.map_filter_simps Cons.IH split: option.split)
qed

lemma fixes_loop_distinct:
  "distinct (map fd_Platform acc) \<Longrightarrow>
     distinct (map fd_Platform (fixes_loop yaml nodes acc (fd_Platform ` set acc)))"
proof (induction nodes arbitrary: acc)
  case (Cons n nodes)
  then show ?case
    using Cons.IH [of "acc @ [f]" for f] by (auto simp: fixes_loop_Cons split: option.split)
qed simp

text \<open>
  C24: a rule offers at most one fix per platform, and for each platform it is the first
  ignition or Kubernetes fix of the rule whose text decodes to an object; a platform without
  such a fix has none.
\<close>

theorem fixes_first_per_platform:
  "distinct (map fd_Platform (fixes_loop yaml nodes [] {}))
   \<and> (\<forall>p. fix_for p (fixes_loop yaml nodes [] {}) = fix_for p (List.map_filter (fix_of yaml) nodes))"
  using fixes_loop_distinct [of "[]" yaml nodes] fixes_loop_find [of _ yaml nodes "[]"] by simp

section \<open>Values of a variable\<close>

definition default_values :: "node list \<Rightarrow> string list" where
  "default_values vals = map nd_Text (filter (\<lambda>n. GetAttribute n ''selector'' = None) vals)"

definition choices :: "node list \<Rightarrow> value_selection list" where
  "choices vals = List.map_filter (\<lambda>n. map_option
     (\<lambda>a. \<lparr>vs_Description = snd a, vs_Value = nd_Text n\<rparr>) (GetAttribute n ''selector'')) vals"

definition multiple_values :: "string \<Rightarrow> string \<Rightarrow> go_error" where
  "multiple_values ident val = ErrorString (''attempting to set multiple values for variable '' @ ident
     @ ''; already had '' @ val)"

lemma var_values_loop_eq:
  "var_values_loop vals v =
     (let ds = va_Value v # default_values vals in
      case List.find (\<lambda>d. d \<noteq> []) (butlast ds) of
        Some d \<Rightarrow> Inl (multiple_values (va_ID v) d)
      | None \<Rightarrow> Inr (v\<lparr>va_Value := last ds, va_Selections := va_Selections v @ choices vals\<rparr>))"
proof (induction vals arbitrary: v)
  case Nil
  then show ?case by (simp add: default_values_def choices_def List.map_filter_simps)
next
  case (Cons n vals)
  then show ?case
    by (cases "GetAttribute n ''selector''")
      (auto simp: default_values_def choices_def List.map_filter_simps multiple_values_def Let_def
        split: option.split)
qed

text \<open>
  C26: the values with a selector become the choices of the variable, in order; of the others
  the last is its value, and the variable is rejected exactly when one of the others before it
  is not empty.
\<close>

theorem parseVarValues_spec:
  "parseVarValues n v =
     (let ds = va_Value v # default_values (FindByName n ''value'') in
      case List.find (\<lambda>d. d \<noteq> []) (butlast ds) of
        Some d \<Rightarrow> Inl (multiple_values (va_ID v) d)
      | None \<Rightarrow> Inr (v\<lparr>va_Value := last ds,
                       va_Selections := va_Selections v @ choices (FindByName n ''value'')\<rparr>))"
  unfolding parseVarValues_def by (rule var_values_loop_eq)

section \<open>Annotations\<close>

text \<open>The items of an annotation, and adding one as the list operation it implements.\<close>

definition items_of :: "(string \<rightharpoonup> string) \<Rightarrow> string \<Rightarrow> char \<Rightarrow> string list" where
  "items_of ann key sep = (case ann key of None \<Rightarrow> [] | Some s \<Rightarrow> Split s sep)"

definition add_item :: "string list \<Rightarrow> string \<Rightarrow> string list" where
  "add_item xs x = (if x \<in> set xs then xs else xs @ [x])"

lemma Join_snoc: "xs \<noteq> [] \<Longrightarrow> Join (xs @ [x]) sep = Join xs sep @ sep @ x"
  by (induction xs rule: induct_list012) auto

lemma Split_append_Join:
  assumes "xs \<noteq> []" and "\<forall>p \<in> set xs. sep \<notin> set p"
  shows "Split (Join xs [sep] @ sep # s) sep = xs @ Split s sep"
  using assms by (induction xs rule: induct_list012) (auto simp: Split_append)

lemma items_appendKeyWithSep:
  "items_of (appendKeyWithSep ann key item sep) key' sep =
     (if key' \<noteq> key then items_of ann key' sep
      else if ann key \<noteq> None \<and> item \<in> set (items_of ann key sep) then items_of ann key sep
      else items_of ann key sep @ Split item sep)"
proof (cases "ann key")
  case None
  then show ?thesis by (simp add: appendKeyWithSep_def items_of_def)
next
  case (Some cur)
  have "Split (Join (Split cur sep @ [item]) [sep]) sep = Split cur sep @ Split item sep"
    using Split_append_Join [of "Split cur sep" sep item] Split_no_sep [of _ cur sep]
    by (simp add: Join_snoc)
  with Some show ?thesis by (simp add: appendKeyWithSep_def items_of_def Let_def)
qed

lemma items_add:
  assumes "sep \<notin> set item"
  shows "items_of (appendKeyWithSep ann key item sep) key sep = add_item (items_of ann key sep) item"
  using assms items_appendKeyWithSep [of ann key item sep key] Split_id [OF assms]
  by (auto simp: add_item_def items_of_def appendKeyWithSep_def Let_def split: option.split)



text \<open>
  C32: adding an item to an annotation refines adding it to the list of its items: an item
  that is there already is not added again, the others stay in order, and no other annotation
  changes. This holds for an item without the separator; any other one is split up and added
  every time.
\<close>

theorem appendKeyWithSep_refines:
  assumes "sep \<notin> set item"
  shows "items_of (appendKeyWithSep ann key item sep) key sep = add_item (items_of ann key sep) item
    \<and> (appendKeyWithSep ann key item sep) |` (- {key}) = ann |` (- {key})"
  using items_add [OF assms]
  by (auto simp: appendKeyWithSep_def Let_def split: option.split)

theorem appendKeyWithSep_refines_witness:
  "items_of (appendKeyWithSep [''k'' \<mapsto> ''AC-2;AC-6''] ''k'' ''AC-6'' (CHR '';'')) ''k'' (CHR '';'')
     = [''AC-2'', ''AC-6'']"
  using appendKeyWithSep_refines [of "CHR '';''" "''AC-6''" "[''k'' \<mapsto> ''AC-2;AC-6'']" "''k''"]
  by (simp add: items_of_def add_item_def)

section \<open>The registered standard\<close>

definition nist_head :: string where "nist_head = ''http://nvlpubs''"
definition nist_mid :: string where "nist_mid = ''nist''"
definition nist_tail :: string where
  "nist_tail = ''gov/nistpubs/SpecialPublications/NIST.SP.800-53r4.pdf''"

definition nist_atoms :: "re_atom list" where
  "nist_atoms = BeginText # map Lit nist_head @ AnyRune # map Lit nist_mid @ AnyRune
     # map Lit nist_tail @ [EndText]"

lemma nist_head_not_Nil: "nist_head \<noteq> []"
  by (simp add: nist_head_def)

lemma re_atoms_nist: "re_atoms nist_href = Some nist_atoms"
  by code_simp

lemma stdParser_eq:
  "stdParser env = \<lparr>rp_registeredStds = [\<lparr>cs_Name = ''NIST-800-53'', cs_hrefMatcher = search nist_atoms True\<rparr>],
     rp_annotationFormatters = [profileOperatorFormatter, rhacmFormatter]\<rparr>"
  by (simp add: stdParser_def registerStandard_def Compile_def re_atoms_nist newStandardParser_def
      registerFormatter_def Let_def)

lemma match_at_lits:
  "match_at (map Lit p @ ats) start s \<longleftrightarrow> (\<exists>r. s = p @ r \<and> match_at ats (start \<and> p = []) r)"
  by (induction p arbitrary: start s) (auto split: list.split)

lemma match_at_any_ascii:
  assumes "is_ascii s"
  shows "match_at (AnyRune # ats) start s \<longleftrightarrow> (\<exists>c r. s = c # r \<and> c \<noteq> CHR 0x0A \<and> match_at ats False r)"
proof (cases s)
  case (Cons c r)
  with assms have "(of_char c :: nat) < 0x80" by (simp add: is_ascii_def)
  with Cons show ?thesis by simp
qed simp

text \<open>
  C33: the standard matches an ASCII reference exactly when it is the address of the NIST
  document, with any character except a line feed in the place of two of its dots.
\<close>

theorem nist_matches:
  assumes "is_ascii href" and "std \<in> set (rp_registeredStds (stdParser env))"
  shows "cs_hrefMatcher std href \<longleftrightarrow>
    (\<exists>a b. a \<noteq> CHR 0x0A \<and> b \<noteq> CHR 0x0A \<and> href = nist_head @ [a] @ nist_mid @ [b] @ nist_tail)"
proof -
  have "cs_hrefMatcher std href \<longleftrightarrow> match_at nist_atoms True href"
    using assms(2) search_anchored by (simp add: stdParser_eq nist_atoms_def)
  also have "\<dots> \<longleftrightarrow> (\<exists>r. href = nist_head @ r \<and> match_at (AnyRune # map Lit nist_mid @ AnyRune
      # map Lit nist_tail @ [EndText]) False r)"
    using nist_head_not_Nil by (simp add: nist_atoms_def match_at_lits del: match_at.simps(3))
  also have "\<dots> \<longleftrightarrow> (\<exists>a r. href = nist_head @ a # r \<and> a \<noteq> CHR 0x0A
      \<and> match_at (map Lit nist_mid @ AnyRune # map Lit nist_tail @ [EndText]) False r)"
    using assms(1) by (auto simp: match_at_any_ascii is_ascii_def simp del: match_at.simps)
  also have "\<dots> \<longleftrightarrow> (\<exists>a b r. href = nist_head @ a # nist_mid @ b # r \<and> a \<noteq> CHR 0x0A \<and> b \<noteq> CHR 0x0A
      \<and> match_at (map Lit nist_tail @ [EndText]) False r)"
    using assms(1) by (fastforce simp: match_at_any_ascii match_at_lits is_ascii_def simp del: match_at.simps)
  also have "\<dots> \<longleftrightarrow> (\<exists>a b. a \<noteq> CHR 0x0A \<and> b \<noteq> CHR 0x0A \<and> href = nist_head @ [a] @ nist_mid @ [b] @ nist_tail)"
    by (auto simp: match_at_lits)
  finally show ?thesis .
qed

text \<open>The matcher takes an address with other characters for the dots of the host name.\<close>

theorem nist_matches_witness:
  "\<exists>std \<in> set (rp_registeredStds (stdParser ex_env)).
     cs_hrefMatcher std (nist_head @ ''X'' @ nist_mid @ ''Y'' @ nist_tail)"
proof -
  obtain std where std: "std \<in> set (rp_registeredStds (stdParser ex_env))"
    by (simp add: stdParser_eq)
  have "is_ascii (nist_head @ ''X'' @ nist_mid @ ''Y'' @ nist_tail)" by code_simp
  from nist_matches [OF this std] have "cs_hrefMatcher std (nist_head @ ''X'' @ nist_mid @ ''Y'' @ nist_tail)"
    by (auto intro!: exI [of _ "CHR ''X''"] exI [of _ "CHR ''Y''"])
  with std show ?thesis ..
qed

section \<open>The annotations of a rule\<close>







lemma fold_add_item: "fold (\<lambda>x xs. add_item xs x) ts [] = rev (remdups (rev ts))"
  by (induction ts rule: rev_induct) (simp_all add: add_item_def)




end
