(* ===== verification/Parser_Objects.thy ===== *)
theory Parser_Objects
  imports Parser_Correct Parser_Functional
begin

text \<open>
  The objects a run creates, one by one: where they come from, what they are called, and who
  owns them. The three kinds of objects share one contract.
\<close>

section \<open>The contract of the node readers\<close>

locale stream_object =
  fixes parse :: "go_env \<Rightarrow> string \<Rightarrow> node \<Rightarrow> 'a parsed"
    and meta :: "'a \<Rightarrow> object_meta"
    and ident :: "'a \<Rightarrow> string"
    and name_of :: "go_env \<Rightarrow> string \<Rightarrow> string"
  assumes emits: "parse env ns n = Emit x \<Longrightarrow>
      ident x = GetAttributeValue n ''id'' \<and> ident x \<noteq> [] \<and> om_Name (meta x) = name_of env (ident x)
      \<and> om_Namespace (meta x) = ns \<and> om_OwnerReferences (meta x) = []"
    and dns: "list_all xccdf_char i \<Longrightarrow> list_all dns_char (name_of env i)"
begin

lemma emitted_node:
  "x \<in> set (emitted (parse env ns) nodes) \<Longrightarrow> \<exists>n \<in> set nodes. parse env ns n = Emit x"
  by (induction nodes) (auto split: parsed.splits)

lemma emitted_meta:
  assumes "x \<in> set (emitted (parse env ns) nodes)"
  shows "om_Name (meta x) = name_of env (ident x)" "om_Namespace (meta x) = ns"
    "om_OwnerReferences (meta x) = []" "ident x \<noteq> []"
    "\<exists>n \<in> set nodes. GetAttributeValue n ''id'' = ident x"
  using emitted_node [OF assms] emits by (metis (no_types, lifting))+

lemma emitted_dns:
  assumes "x \<in> set (emitted (parse env ns) nodes)"
    and "\<forall>n \<in> set nodes. list_all xccdf_char (GetAttributeValue n ''id'')"
  shows "list_all dns_char (om_Name (meta x))"
  using emitted_meta(1,5) [OF assms(1)] assms(2) dns by fastforce

end

lemma var_values_meta: "var_values_loop vals v = Inr v' \<Longrightarrow> va_Meta v' = va_Meta v \<and> va_ID v' = va_ID v"
  by (induction vals v rule: var_values_loop.induct) (auto split: option.splits if_splits)

interpretation rules: stream_object "\<lambda>env. parse_rule env yaml" ru_Meta ru_ID GetRuleNameFromID
  by unfold_locales
    (auto simp: parse_rule_def Let_def zero_meta_def rule_names.dns_name split: if_splits option.splits)

interpretation variables: stream_object parse_variable va_Meta va_ID GetVariableNameFromID
  by unfold_locales
    (auto simp: parse_variable_def parseVarValues_def Let_def zero_meta_def variable_names.dns_name
      dest!: var_values_meta split: if_splits option.splits sum.splits)

interpretation profiles: stream_object "\<lambda>env ns. parse_profile env (nsn ns nm)" pr_Meta pr_ID
    GetProfileNameFromID
  by unfold_locales
    (auto simp: parse_profile_def Let_def zero_meta_def profile_names.dns_name
      split: if_splits option.splits)

section \<open>Ownership\<close>

text \<open>The scheme of the parser knows the bundle.\<close>

definition bundle_gvk :: gvk where
  "bundle_gvk = \<lparr>gvk_GroupVersion = SchemeGroupVersion, gvk_Kind = ''ProfileBundle''\<rparr>"

lemma GVK_bundle: "GVKForObject T_ProfileBundle getK8sScheme = Inr bundle_gvk"
  by (simp add: getK8sScheme_def AddKnownTypes_def GVKForObject_def ObjectKinds_def bundle_gvk_def)

text \<open>What a parsed object must carry to belong to a bundle.\<close>

definition belongs_to :: "profile_bundle \<Rightarrow> string \<Rightarrow> object_meta \<Rightarrow> bool" where
  "belongs_to pb name m \<longleftrightarrow>
     om_Name m = om_Name (pb_Meta pb) @ ''-'' @ name
     \<and> om_Namespace m = om_Namespace (pb_Meta pb)
     \<and> om_OwnerReferences m =
         [\<lparr>or_APIVersion = ''compliance.openshift.io/v1alpha1'', or_Kind = ''ProfileBundle'',
           or_Name = om_Name (pb_Meta pb), or_UID = om_UID (pb_Meta pb),
           or_Controller = Some True, or_BlockOwnerDeletion = Some True\<rparr>]"

lemma controlled_fresh:
  assumes "pc_Scheme pcfg = getK8sScheme" and "om_Namespace m = om_Namespace (pb_Meta pb)"
    and "om_OwnerReferences m = []"
  shows "\<exists>m'. controlled pcfg pb m = Some m' \<and> belongs_to pb (om_Name m) m'"
proof -
  let ?m = "m\<lparr>om_Name := getPrefixedName (om_Name (pb_Meta pb)) (om_Name m)\<rparr>"
  have "validateOwner (pb_Meta pb) ?m = None" using assms(2) by (simp add: validateOwner_None)
  then have "SetControllerReference T_ProfileBundle (pb_Meta pb) ?m getK8sScheme = Inr (upsertOwnerRef
      \<lparr>or_APIVersion = gv_String (gvk_GroupVersion bundle_gvk), or_Kind = gvk_Kind bundle_gvk,
       or_Name = om_Name (pb_Meta pb), or_UID = om_UID (pb_Meta pb),
       or_Controller = Some True, or_BlockOwnerDeletion = Some True\<rparr> ?m)"
    using assms(3)
    by (simp add: SetControllerReference_def GVK_bundle GetControllerOf_def Let_def)
  with assms show ?thesis
    by (simp add: controlled_def belongs_to_def upsertOwnerRef_def Let_def getPrefixedName_def
        bundle_gvk_def gv_String_scheme)
qed

text \<open>The metadata of a created object.\<close>

fun meta_of :: "kobject \<Rightarrow> object_meta" where
  "meta_of (ProfileBundleObj x) = pb_Meta x"
| "meta_of (ProfileObj x) = pr_Meta x"
| "meta_of (RuleObj x) = ru_Meta x"
| "meta_of (VariableObj x) = va_Meta x"
| "meta_of (TailoredProfileObj x) = tp_Meta x"
| "meta_of (ConfigMapObj x) = cm_Meta x"
| "meta_of (PodObj x) = pod_Meta x"
| "meta_of (UnstructuredObj j) = zero_meta"

text \<open>A bundle and the configuration of the Pod that parses it.\<close>

definition parser_of :: "profile_bundle \<Rightarrow> 'w parser_config \<Rightarrow> bool" where
  "parser_of pb pcfg \<longleftrightarrow> pc_Scheme pcfg = getK8sScheme \<and> pc_ProfileBundleKey pcfg = key_of (pb_Meta pb)"

lemma profile_object_owned:
  assumes "parser_of pb pcfg" and "p \<in> set (stream_profiles pcfg root)"
  shows "\<exists>m. profile_object pcfg pb p = Some (ProfileObj (p\<lparr>pr_Meta := m\<rparr>))
    \<and> belongs_to pb (GetProfileNameFromID (pc_env pcfg) (pr_ID p)) m"
proof -
  from assms(2) have "p \<in> set (emitted (parse_profile (pc_env pcfg) (nsn (nn_Namespace
      (pc_ProfileBundleKey pcfg)) (nn_Name (pc_ProfileBundleKey pcfg)))) (Query root ''Profile''))"
    by (cases "pc_ProfileBundleKey pcfg") (simp add: stream_profiles_def)
  note meta = profiles.emitted_meta [OF this]
  have "om_Namespace (pr_Meta p) = om_Namespace (pb_Meta pb)"
    using meta(2) assms(1) by (simp add: parser_of_def)
  from controlled_fresh [OF _ this meta(3), of pcfg] assms(1) meta(1) show ?thesis
    by (auto simp: parser_of_def profile_object_def)
qed

lemma rule_object_owned:
  assumes "parser_of pb pcfg" and "r \<in> set (stream_rules pcfg root)"
  shows "\<exists>m. rule_object pcfg pb r = Some (RuleObj (r\<lparr>ru_Meta := m\<rparr>))
    \<and> belongs_to pb (GetRuleNameFromID (pc_env pcfg) (ru_ID r)) m"
proof -
  note meta = rules.emitted_meta [OF assms(2) [unfolded stream_rules_def]]
  have "om_Namespace (with_rule_id (ru_Meta r)) = om_Namespace (pb_Meta pb)"
    "om_OwnerReferences (with_rule_id (ru_Meta r)) = []"
    "om_Name (with_rule_id (ru_Meta r)) = GetRuleNameFromID (pc_env pcfg) (ru_ID r)"
    using meta assms(1) by (simp_all add: parser_of_def with_rule_id_def)
  from controlled_fresh [OF _ this(1,2), of pcfg] this(3) assms(1) show ?thesis
    by (auto simp: parser_of_def rule_object_def)
qed

lemma variable_object_owned:
  assumes "parser_of pb pcfg" and "v \<in> set (stream_variables pcfg root)"
  shows "\<exists>m. variable_object pcfg pb v = Some (VariableObj (v\<lparr>va_Meta := m\<rparr>))
    \<and> belongs_to pb (GetVariableNameFromID (pc_env pcfg) (va_ID v)) m"
proof -
  note meta = variables.emitted_meta [OF assms(2) [unfolded stream_variables_def]]
  have "om_Namespace (va_Meta v) = om_Namespace (pb_Meta pb)"
    using meta(2) assms(1) by (simp add: parser_of_def)
  from controlled_fresh [OF _ this meta(3), of pcfg] assms(1) meta(1) show ?thesis
    by (auto simp: parser_of_def variable_object_def)
qed

lemma map_filter_total:
  assumes "\<forall>x \<in> set xs. \<exists>y. f x = Some y"
  shows "length (List.map_filter f xs) = length xs"
  using assms by (induction xs) (auto simp: List.map_filter_simps)

lemma map_filter_mem: "y \<in> set (List.map_filter f xs) \<longleftrightarrow> (\<exists>x \<in> set xs. f x = Some y)"
  by (induction xs) (auto simp: List.map_filter_simps split: option.split)

text \<open>
  C10: when the parser runs for a bundle with the scheme it builds itself, no object of the
  data stream is lost on the way to its Create call, and every one of them is named after the
  bundle, lives in its namespace and has the bundle as its only owner and its controller.
\<close>

theorem stream_objects_owned:
  assumes "parser_of pb pcfg"
  shows "length (stream_objects pcfg pb root) = length (stream_profiles pcfg root)
      + length (stream_rules pcfg root) + length (stream_variables pcfg root)
    \<and> list_all (\<lambda>x. \<exists>name. belongs_to pb name (meta_of x)) (stream_objects pcfg pb root)"
proof
  show "length (stream_objects pcfg pb root) = length (stream_profiles pcfg root)
      + length (stream_rules pcfg root) + length (stream_variables pcfg root)"
    unfolding stream_objects_def
    using map_filter_total [of "stream_profiles pcfg root" "profile_object pcfg pb"]
      map_filter_total [of "stream_rules pcfg root" "rule_object pcfg pb"]
      map_filter_total [of "stream_variables pcfg root" "variable_object pcfg pb"]
      profile_object_owned [OF assms] rule_object_owned [OF assms] variable_object_owned [OF assms]
    by fastforce
  show "list_all (\<lambda>x. \<exists>name. belongs_to pb name (meta_of x)) (stream_objects pcfg pb root)"
    unfolding stream_objects_def list_all_append
    using profile_object_owned [OF assms] rule_object_owned [OF assms] variable_object_owned [OF assms]
    by (fastforce simp: list_all_iff map_filter_mem)
qed

section \<open>The sample stream\<close>

lemma ex_parser_of: "parser_of ex_bundle ex_pcfg"
  by (simp add: parser_of_def ex_pcfg_def ex_bundle_def ex_meta_def zero_meta_def key_of_def)

lemma ex_queries:
  "Query ex_root ''Profile'' = [ex_profile_node]" "Query ex_root ''Rule'' = [ex_rule_node]"
  "Query ex_root ''Value'' = [ex_value_node]"
  by (simp_all add: ex_nodes Query_def)

lemma ex_rule_parsed: "\<exists>r. stream_rules ex_pcfg ex_root = [r] \<and> ru_ID r = ex_rule_id"
  by (simp add: stream_rules_def ex_queries parse_rule_def Let_def)
    (simp add: ex_rule_node_def ex_rule_id_def GetAttributeValue_def GetAttribute_def)

lemma ex_profile_parsed:
  "\<exists>p. parse_profile (pc_env ex_pcfg) (pc_ProfileBundleKey ex_pcfg) ex_profile_node = Emit p"
  by (simp add: parse_profile_def ex_profile_node_def GetAttributeValue_def GetAttribute_def Let_def)

lemma ex_variable_parsed: "\<exists>v. stream_variables ex_pcfg ex_root = [v]"
  by (simp add: stream_variables_def ex_queries parse_variable_def ex_value_node_def GetAttributeValue_def
      GetAttribute_def Let_def parseVarValues_def)

theorem stream_objects_owned_witness:
  "length (stream_objects ex_pcfg ex_bundle ex_root) = 3
   \<and> list_all (\<lambda>x. \<exists>name. belongs_to ex_bundle name (meta_of x)) (stream_objects ex_pcfg ex_bundle ex_root)"
  using stream_objects_owned [OF ex_parser_of, of ex_root] ex_rule_parsed ex_profile_parsed
    ex_variable_parsed
  by (auto simp: stream_profiles_def ex_queries)

end
