(* ===== verification/Profile_Bundle_Correct.thy ===== *)
theory Profile_Bundle_Correct
  imports Profile_Bundle Api_Server
begin

text \<open>
  What one reconciliation of a ProfileBundle guarantees: its writes whatever the API server
  answers, and the state it reaches against a server that keeps its contract.
\<close>

section \<open>Start-up errors\<close>

definition cannot_pull :: "container_status \<Rightarrow> bool" where
  "cannot_pull st \<longleftrightarrow> cs_Waiting st \<in> {Some ''ImagePullBackOff'', Some ''ErrImagePull''}"

lemma startup_error_loop_eq:
  "startup_error_loop sts \<longleftrightarrow> list_ex cannot_pull (takeWhile (\<lambda>st. \<not> cs_Ready st) sts)"
  by (induction sts) (auto simp: cannot_pull_def split: option.splits)

text \<open>
  C35: a Pod has a start-up error exactly when, among its init containers before the first
  ready one, some waits because its image cannot be pulled.
\<close>

theorem podStartupError_eq:
  "podStartupError pod \<longleftrightarrow>
     list_ex cannot_pull (takeWhile (\<lambda>st. \<not> cs_Ready st) (pod_InitContainerStatuses pod))"
  by (simp add: podStartupError_def startup_error_loop_eq)

section \<open>The writes of a reconciliation\<close>

text \<open>The Pod a bundle gets: the template, with the bundle as its controller.\<close>

definition parser_pod :: "'w ReconcileProfileBundle \<Rightarrow> profile_bundle \<Rightarrow> pod \<Rightarrow> bool" where
  "parser_pod r pb x \<longleftrightarrow>
     (\<exists>meta. SetControllerReference T_ProfileBundle (pb_Meta pb)
          (pod_Meta (newPodForBundle (rpb_env r) pb)) (rpb_scheme r) = Inr meta
        \<and> x = (newPodForBundle (rpb_env r) pb)\<lparr>pod_Meta := meta\<rparr>)"

definition pending :: "profile_bundle \<Rightarrow> profile_bundle" where
  "pending pb = pb\<lparr>pb_Status := (pb_Status pb)\<lparr>pbst_DataStreamStatus := DataStreamPending\<rparr>\<rparr>"

definition invalid :: "profile_bundle \<Rightarrow> profile_bundle" where
  "invalid pb = pb\<lparr>pb_Status := \<lparr>pbst_DataStreamStatus = DataStreamInvalid,
     pbst_ErrorMessage = startup_message\<rparr>\<rparr>"

inductive bundle_trace ::
  "'w ReconcileProfileBundle \<Rightarrow> api_write list \<Rightarrow> go_error option \<Rightarrow> bool"
  for r :: "'w ReconcileProfileBundle" where
  quiet: "bundle_trace r [] err"
| fail: "bundle_trace r [wr StatusUpdate_verb (ProfileBundleObj (invalid pb)) e] e"
| start_failed: "bundle_trace r [wr StatusUpdate_verb (ProfileBundleObj (pending pb)) (Some e)] (Some e)"
| start: "parser_pod r pb x \<Longrightarrow>
    bundle_trace r [wr StatusUpdate_verb (ProfileBundleObj (pending pb)) None,
                    wr Create_verb (PodObj x) e] e"

lemma effects_Reconcile_bundle:
  "effects (Reconcile_bundle r req) (\<lambda>out ws. fst out = Result0 \<and> bundle_trace r ws (snd out))"
  unfolding Reconcile_bundle_def pending_def [symmetric] invalid_def [symmetric] Let_def
  by (intro effects_intro; (simp add: bundle_trace.intros; fail)?)
    (auto intro!: bundle_trace.start simp: parser_pod_def)

text \<open>
  C27: whatever the API server answers, a reconciliation of a ProfileBundle either writes
  nothing, or reports the bundle as invalid, or announces it as pending and, only when that
  succeeded, creates the parser Pod with the bundle as its controller; the error it returns
  is the error of its last write.
\<close>

theorem Reconcile_bundle_refines_trace:
  "\<exists>ws err. fst (run_state (Reconcile_bundle r req) s) = (Result0, err)
     \<and> w_writes (snd (run_state (Reconcile_bundle r req) s)) = w_writes s @ ws
     \<and> bundle_trace r ws err"
  using effectsD [OF effects_Reconcile_bundle, of r req s]
  by (metis prod.collapse)

section \<open>Against a server\<close>

definition pod_key :: "profile_bundle \<Rightarrow> nsname" where
  "pod_key pb = nsn (om_Namespace (pb_Meta pb)) (om_Name (pb_Meta pb) @ ''-pp'')"

definition set_pb :: "profile_bundle \<Rightarrow> cluster \<Rightarrow> cluster" where
  "set_pb pb c = c\<lparr>k_ProfileBundles := (k_ProfileBundles c)(key_of (pb_Meta pb) \<mapsto> pb)\<rparr>"

lemma newPod_meta:
  "key_of (pod_Meta (newPodForBundle env pb)) = pod_key pb"
  "om_Namespace (pod_Meta (newPodForBundle env pb)) = om_Namespace (pb_Meta pb)"
  "om_OwnerReferences (pod_Meta (newPodForBundle env pb)) = []"
  by (simp_all add: newPodForBundle_def zero_meta_def key_of_def pod_key_def)

text \<open>The outcome of one reconciliation as a function of the cluster.\<close>

definition bundle_outcome ::
  "go_env \<Rightarrow> gvk \<Rightarrow> profile_bundle \<Rightarrow> cluster \<Rightarrow> cluster \<Rightarrow> bool" where
  "bundle_outcome env g pb c c' \<longleftrightarrow>
     (case k_Pods c (pod_key pb) of
        None \<Rightarrow> \<exists>x. c' = (set_pb (pending pb) c)\<lparr>k_Pods := (k_Pods c)(pod_key pb \<mapsto> x)\<rparr>
                 \<and> pod_Spec x = pod_Spec (newPodForBundle env pb) \<and> pod_InitContainerStatuses x = []
                 \<and> (\<exists>ref \<in> set (om_OwnerReferences (pod_Meta x)). refers_to g (pb_Meta pb) ref)
      | Some x \<Rightarrow> c' = (if podStartupError x then set_pb (invalid pb) c else c))"

text \<open>What a reconciliation that was refused a call may have changed: the status of the bundle.\<close>

definition bundle_held_up ::
  "(go_error \<Rightarrow> bool) \<Rightarrow> scheme \<Rightarrow> profile_bundle \<Rightarrow> cluster \<Rightarrow> reconcile_return \<Rightarrow> api_write list \<Rightarrow> cluster \<Rightarrow> bool" where
  "bundle_held_up refusal sch pb c out ws c' \<longleftrightarrow> (\<exists>e. out = (Result0, Some e) \<and> refusal e)
     \<and> (c' = c \<or> k_Pods c (pod_key pb) = None \<and> c' = set_pb (pending pb) c)
     \<and> length (succeeded ws) \<le> 1 \<and> writes_for T_ProfileBundle sch (key_of (pb_Meta pb)) (succeeded ws)"

lemma bundle_held_up_reliable [simp]: "\<not> bundle_held_up (\<lambda>_. False) sch pb c out ws c'"
  by (simp add: bundle_held_up_def)

lemma bundle_outcome_fresh:
  assumes "k_Pods c (pod_key pb) = None" and "\<exists>ref \<in> set (om_OwnerReferences m). refers_to g (pb_Meta pb) ref"
  shows "bundle_outcome env g pb c ((set_pb (pending pb) c)\<lparr>k_Pods := (k_Pods c)(pod_key pb \<mapsto>
    newPodForBundle env pb\<lparr>pod_Meta := m\<lparr>om_UID := u\<rparr>\<rparr>)\<rparr>)"
proof -
  let ?x = "newPodForBundle env pb\<lparr>pod_Meta := m\<lparr>om_UID := u\<rparr>\<rparr>"
  have "pod_Spec ?x = pod_Spec (newPodForBundle env pb)" "pod_InitContainerStatuses ?x = []"
    "\<exists>ref \<in> set (om_OwnerReferences (pod_Meta ?x)). refers_to g (pb_Meta pb) ref"
    using assms(2) by (simp_all add: newPodForBundle_def)
  with assms(1) show ?thesis unfolding bundle_outcome_def by (simp only: option.case) blast
qed

lemma bundle_outcome_present:
  assumes "k_Pods c (pod_key pb) = Some x"
  shows "podStartupError x \<Longrightarrow> bundle_outcome env g pb c (set_pb (invalid pb) c)"
    and "\<not> podStartupError x \<Longrightarrow> bundle_outcome env g pb c c"
  using assms by (simp_all add: bundle_outcome_def)

locale bundle_server =
  refusing_server "rpb_client r" view admits refusal
  for r :: "'w ReconcileProfileBundle" and view :: "'w \<Rightarrow> cluster" and admits :: "kobject \<Rightarrow> bool"
    and refusal :: "go_error \<Rightarrow> bool"
begin

lemma yields_Reconcile_bundle:
  assumes "k_ProfileBundles c (key_of (pb_Meta pb)) = Some pb"
    and "GVKForObject T_ProfileBundle (rpb_scheme r) = Inr g"
    and "\<forall>x. key_of (pod_Meta x) = pod_key pb \<longrightarrow> admits (PodObj x)"
  shows "yields view (Reconcile_bundle r (key_of (pb_Meta pb))) c
    (\<lambda>out ws c'. out = (Result0, None) \<and> bundle_outcome (rpb_env r) g pb c c'
       \<and> writes_for T_ProfileBundle (rpb_scheme r) (key_of (pb_Meta pb)) ws
       \<and> length ws = (case k_Pods c (pod_key pb) of None \<Rightarrow> 2 | Some x \<Rightarrow> of_bool (podStartupError x))
     \<or> bundle_held_up refusal (rpb_scheme r) pb c out ws c')"
proof -
  let ?pod = "newPodForBundle (rpb_env r) pb"
  obtain m where m: "SetControllerReference T_ProfileBundle (pb_Meta pb) (pod_Meta ?pod)
      (rpb_scheme r) = Inr m"
    using SetControllerReference_fresh [OF _ newPod_meta(3) assms(2), of "pb_Meta pb"]
    by (auto simp: newPod_meta(2))
  have key: "key_of m = pod_key pb"
    using controller_ref.frame [OF m] newPod_meta(1) by (simp add: key_of_def)
  have owned: "\<exists>ref \<in> set (om_OwnerReferences m). refers_to g (pb_Meta pb) ref"
    by (rule controller_ref.owned [OF m assms(2)])
  have own: "controlled_for T_ProfileBundle (rpb_scheme r) (key_of (pb_Meta pb)) m"
    by (rule controlled_for_fresh [OF m newPod_meta(3)]) (simp add: newPod_meta(2))
  have status: "yields view (StatusUpdate (rpb_client r) (ProfileBundleObj (pb\<lparr>pb_Status := st\<rparr>))) c Q"
    if "\<And>ws. length ws = Suc 0 \<Longrightarrow> writes_for T_ProfileBundle (rpb_scheme r) (key_of (pb_Meta pb)) ws \<Longrightarrow>
      Q None ws (set_pb (pb\<lparr>pb_Status := st\<rparr>) c)"
      and "\<And>e ws. refusal e \<Longrightarrow> succeeded ws = [] \<Longrightarrow> Q (Some e) ws c" for st Q
    by (rule yields_try_status) (use assms(1) that in \<open>auto simp: set_pb_def\<close>)
  have create: "yields view (Create (rpb_client r) (PodObj (?pod\<lparr>pod_Meta := m\<rparr>))) c' Q"
    if "k_Pods c' (pod_key pb) = None"
      and "\<And>ws u. length ws = Suc 0 \<Longrightarrow> writes_for T_ProfileBundle (rpb_scheme r) (key_of (pb_Meta pb)) ws \<Longrightarrow>
        Q None ws (c'\<lparr>k_Pods := (k_Pods c')(pod_key pb \<mapsto> ?pod\<lparr>pod_Meta := m\<lparr>om_UID := u\<rparr>\<rparr>)\<rparr>)"
      and "\<And>e ws. refusal e \<Longrightarrow> succeeded ws = [] \<Longrightarrow> Q (Some e) ws c'"
    for c' Q
    by (rule yields_try_create) (use assms(3) key own that in auto)
  have found: "yields view (client_get (cl_Get_Pod (rpb_client r)) (pod_key pb)) c Q"
    if "\<And>x. k_Pods c (pod_key pb) = Some x \<Longrightarrow> Q (Inr x) [] c"
      and "\<And>e. k_Pods c (pod_key pb) = None \<Longrightarrow> IsNotFound e \<Longrightarrow> Q (Inl e) [] c"
      and "\<And>e. refusal e \<Longrightarrow> Q (Inl e) [] c" for Q
    by (rule yields_try [OF try_Pod]) (use that in auto)
  have this_bundle: "yields view (client_get (cl_Get_ProfileBundle (rpb_client r)) (key_of (pb_Meta pb))) c Q"
    if "Q (Inr pb) [] c" and "\<And>e. refusal e \<Longrightarrow> Q (Inl e) [] c" for Q
    by (rule yields_try [OF try_ProfileBundle]) (use that assms(1) in auto)
  have pods [simp]: "k_Pods (set_pb x c) = k_Pods c" for x by (simp add: set_pb_def)
  show ?thesis
    unfolding Reconcile_bundle_def Let_def
    by (intro yields_bind this_bundle)
      (auto simp: m key pending_def [symmetric] invalid_def [symmetric] bundle_outcome_fresh [OF _ owned]
        bundle_held_up_def succeeded_all
        intro!: yields_intro found status create intro: bundle_outcome_present dest: refusal_kind)
qed

end

text \<open>
  C11: against a server that keeps its contract one reconciliation of a ProfileBundle ends
  without an error and does what the state of its Pod asks for: without a Pod the bundle
  becomes pending and gets the parser Pod, with the bundle as owner; a Pod that cannot start
  makes the bundle invalid, with a message; any other Pod leaves the whole cluster as it is.
\<close>

theorem Reconcile_bundle_outcome:
  assumes "api_server (rpb_client r) view admits"
    and "\<forall>x. key_of (pod_Meta x) = pod_key pb \<longrightarrow> admits (PodObj x)"
    and "k_ProfileBundles (view (w_cluster s)) (key_of (pb_Meta pb)) = Some pb"
    and "GVKForObject T_ProfileBundle (rpb_scheme r) = Inr g"
  shows "fst (run_state (Reconcile_bundle r (key_of (pb_Meta pb))) s) = (Result0, None)
    \<and> bundle_outcome (rpb_env r) g pb (view (w_cluster s))
        (view (w_cluster (snd (run_state (Reconcile_bundle r (key_of (pb_Meta pb))) s))))"
proof -
  have "bundle_server r view admits (\<lambda>_. False)" using assms(1) by (simp add: bundle_server_def api_server_def)
  from yieldsD [OF bundle_server.yields_Reconcile_bundle [OF this assms(3,4,2)]]
  show ?thesis by auto
qed

text \<open>Any reconciler whose client talks to the store of \<open>Api_Server\<close>.\<close>

definition mem_bundle_reconciler :: "scheme \<Rightarrow> go_env \<Rightarrow> mem_server ReconcileProfileBundle" where
  "mem_bundle_reconciler sch env =
     \<lparr>rpb_client = mem_client, rpb_scheme = sch, rpb_env = env\<rparr>"

interpretation mem_bundle: bundle_server "mem_bundle_reconciler sch env" ms_cluster "\<lambda>_. True" "\<lambda>_. False"
  for sch env
  using mem.api_server_axioms by (simp add: bundle_server_def mem_bundle_reconciler_def api_server_def)

definition ex_bundle_reconciler :: "mem_server ReconcileProfileBundle" where
  "ex_bundle_reconciler =
     mem_bundle_reconciler (AddKnownTypes [] SchemeGroupVersion [T_ProfileBundle]) ex_env"

definition ex_bundle_world :: "mem_server world" where
  "ex_bundle_world = \<lparr>w_cluster = \<lparr>ms_cluster =
     \<lparr>k_ProfileBundles = [nsn ''ns'' ''rhcos'' \<mapsto> ex_bundle],
      k_Profiles = Map.empty, k_Rules = Map.empty, k_Variables = Map.empty,
      k_TailoredProfiles = Map.empty, k_ConfigMaps = Map.empty, k_Pods = Map.empty,
      k_Policies = Map.empty\<rparr>, ms_next = 0\<rparr>, w_writes = []\<rparr>"

theorem Reconcile_bundle_outcome_witness:
  "\<exists>x pb. k_Pods (ms_cluster (w_cluster (snd (run_state
        (Reconcile_bundle ex_bundle_reconciler (key_of (pb_Meta ex_bundle))) ex_bundle_world))))
        (pod_key ex_bundle) = Some x
     \<and> k_ProfileBundles (ms_cluster (w_cluster (snd (run_state
        (Reconcile_bundle ex_bundle_reconciler (key_of (pb_Meta ex_bundle))) ex_bundle_world))))
        (key_of (pb_Meta ex_bundle)) = Some pb
     \<and> pbst_DataStreamStatus (pb_Status pb) = ''PENDING''"
proof -
  let ?c = "ms_cluster (w_cluster ex_bundle_world)"
  have "\<exists>g. GVKForObject T_ProfileBundle (rpb_scheme ex_bundle_reconciler) = Inr g"
    by (simp add: ex_bundle_reconciler_def mem_bundle_reconciler_def AddKnownTypes_def GVKForObject_def ObjectKinds_def)
  then obtain g where g: "GVKForObject T_ProfileBundle (rpb_scheme ex_bundle_reconciler) = Inr g" ..
  have cl: "rpb_client ex_bundle_reconciler = mem_client" by (simp add: ex_bundle_reconciler_def mem_bundle_reconciler_def)
  have pb: "k_ProfileBundles ?c (key_of (pb_Meta ex_bundle)) = Some ex_bundle"
    by (simp add: ex_bundle_world_def ex_bundle_def ex_meta_def zero_meta_def key_of_def)
  have "k_Pods ?c (pod_key ex_bundle) = None" by (simp add: ex_bundle_world_def)
  with Reconcile_bundle_outcome [of ex_bundle_reconciler ms_cluster "\<lambda>_. True"
      ex_bundle ex_bundle_world g] mem.api_server_axioms cl pb g
  show ?thesis
    by (auto simp: bundle_outcome_def set_pb_def pending_def DataStreamPending_def)
qed

end
