(* ===== verification/Parser_Cluster.thy ===== *)
theory Parser_Cluster
  imports Parser_Objects Profile_Bundle_Correct
begin

text \<open>
  A run of the parser against a server that keeps its contract: which objects the cluster holds
  afterwards, what the bundle says, and that running it again changes nothing.
\<close>

section \<open>Filling a cluster\<close>

text \<open>
  Creating objects one after the other, where an object whose key is taken is left out. The
  server chooses the UIDs.
\<close>

inductive populated :: "cluster \<Rightarrow> kobject list \<Rightarrow> cluster \<Rightarrow> bool" where
  none: "populated c [] c"
| taken: "exists_object c x \<Longrightarrow> populated c xs c' \<Longrightarrow> populated c (x # xs) c'"
| added: "\<not> exists_object c x \<Longrightarrow> populated (store_object u x c) xs c' \<Longrightarrow> populated c (x # xs) c'"

inductive_simps populated_Nil [simp]: "populated c [] c'"
inductive_simps populated_Cons: "populated c (x # xs) c'"

lemma populated_append: "populated c (xs @ ys) c'' \<longleftrightarrow> (\<exists>c'. populated c xs c' \<and> populated c' ys c'')"
  by (induction xs arbitrary: c) (auto simp: populated_Cons)

lemma populated_first: "populated c [x] d \<Longrightarrow> populated d xs c' \<Longrightarrow> populated c (x # xs) c'"
  by (auto simp: populated_Cons)

lemma exists_after_store: "exists_object c y \<or> y = x \<Longrightarrow> exists_object (store_object u x c) y"
  by (cases x; cases y) auto

lemma populated_keeps: "populated c xs c' \<Longrightarrow> exists_object c y \<Longrightarrow> exists_object c' y"
  by (induction rule: populated.induct) (auto simp: exists_after_store)

lemma populated_exists: "populated c xs c' \<Longrightarrow> x \<in> set xs \<Longrightarrow> exists_object c' x"
  by (induction rule: populated.induct) (auto intro: populated_keeps simp: exists_after_store)

text \<open>Nothing is created twice.\<close>

lemma populated_again: "populated c xs c' \<Longrightarrow> \<forall>x \<in> set xs. exists_object c x \<Longrightarrow> c' = c"
  by (induction rule: populated.induct) auto

text \<open>Parsed objects end up in the tables of their kind and touch no other.\<close>

fun is_parsed :: "kobject \<Rightarrow> bool" where
  "is_parsed (ProfileObj x) = True"
| "is_parsed (RuleObj x) = True"
| "is_parsed (VariableObj x) = True"
| "is_parsed x = False"

lemma populated_frame:
  assumes "populated c xs c'" and "list_all is_parsed xs"
  shows "k_ProfileBundles c' = k_ProfileBundles c" "k_TailoredProfiles c' = k_TailoredProfiles c"
    "k_ConfigMaps c' = k_ConfigMaps c" "k_Pods c' = k_Pods c" "k_Policies c' = k_Policies c"
proof -
  have store: "is_parsed x \<Longrightarrow> k_ProfileBundles (store_object u x d) = k_ProfileBundles d
      \<and> k_TailoredProfiles (store_object u x d) = k_TailoredProfiles d
      \<and> k_ConfigMaps (store_object u x d) = k_ConfigMaps d \<and> k_Pods (store_object u x d) = k_Pods d
      \<and> k_Policies (store_object u x d) = k_Policies d" for u x d
    by (cases x) auto
  from assms have "k_ProfileBundles c' = k_ProfileBundles c \<and> k_TailoredProfiles c' = k_TailoredProfiles c
      \<and> k_ConfigMaps c' = k_ConfigMaps c \<and> k_Pods c' = k_Pods c \<and> k_Policies c' = k_Policies c"
    by (induction rule: populated.induct) (auto simp: store)
  then show "k_ProfileBundles c' = k_ProfileBundles c" "k_TailoredProfiles c' = k_TailoredProfiles c"
    "k_ConfigMaps c' = k_ConfigMaps c" "k_Pods c' = k_Pods c" "k_Policies c' = k_Policies c" by auto
qed

text \<open>What is found afterwards was there before, or is one of the objects with a UID.\<close>

definition with_uid :: "string \<Rightarrow> object_meta \<Rightarrow> object_meta" where
  "with_uid u m = m\<lparr>om_UID := u\<rparr>"

text \<open>One table of a cluster: the objects of one kind, which are stored there and nowhere else.\<close>

locale object_table =
  fixes table :: "cluster \<Rightarrow> nsname \<Rightarrow> 'a option"
    and obj :: "'a \<Rightarrow> kobject"
    and meta :: "'a \<Rightarrow> object_meta"
    and put :: "object_meta \<Rightarrow> 'a \<Rightarrow> 'a"
  assumes stores: "table (store_object u (obj a) c) = (table c)(key_of (meta a) \<mapsto> put (with_uid u (meta a)) a)"
    and elsewhere: "x \<notin> range obj \<Longrightarrow> table (store_object u x c) = table c"
    and looks: "exists_object c (obj a) \<longleftrightarrow> table c (key_of (meta a)) \<noteq> None"
    and obj_inj: "obj a = obj b \<longleftrightarrow> a = b"
begin

definition at :: "nsname \<Rightarrow> kobject \<Rightarrow> bool" where
  "at k x \<longleftrightarrow> (\<exists>a. x = obj a \<and> key_of (meta a) = k)"

lemma store_at:
  "table (store_object u x c) k = (if at k x then Some (put (with_uid u (meta (inv obj x))) (inv obj x)) else table c k)"
proof (cases "x \<in> range obj")
  case True
  then obtain a where "x = obj a" by blast
  moreover have "inv obj (obj a) = a" by (rule inv_f_f) (simp add: inj_def obj_inj)
  ultimately show ?thesis by (auto simp: stores at_def obj_inj)
qed (auto simp: elsewhere at_def)

lemma keeps: "populated c xs c' \<Longrightarrow> table c k = Some q \<Longrightarrow> table c' k = Some q"
proof (induction rule: populated.induct)
  case (added c x u xs c')
  then have "\<not> at k x" by (auto simp: at_def looks)
  with added show ?case by (simp add: store_at)
qed auto

text \<open>What is found under a free key is the first of the objects with that key, with a UID.\<close>

lemma first:
  "populated c xs c' \<Longrightarrow> table c k = None
    \<Longrightarrow> rel_option (\<lambda>q x. \<exists>a u. x = obj a \<and> q = put (with_uid u (meta a)) a) (table c' k) (find (at k) xs)"
proof (induction rule: populated.induct)
  case (taken c x xs c')
  then have "\<not> at k x" by (auto simp: at_def looks)
  with taken show ?case by simp
next
  case (added c x u xs c')
  show ?case
  proof (cases "at k x")
    case True
    then obtain a where a: "x = obj a" "key_of (meta a) = k" by (auto simp: at_def)
    then have "table (store_object u x c) k = Some (put (with_uid u (meta a)) a)" by (simp add: stores)
    from keeps [OF added.hyps(2) this] True a(1) show ?thesis by auto
  qed (use added in \<open>simp add: store_at\<close>)
qed simp

lemma found:
  assumes "populated c xs c'" and "table c k = None" and "table c' k = Some q"
  shows "\<exists>a u. obj a \<in> set xs \<and> key_of (meta a) = k \<and> q = put (with_uid u (meta a)) a"
  using first [OF assms(1,2)] assms(3)
  by (auto simp: option_rel_Some1 find_Some_iff at_def obj_inj) (metis at_def nth_mem obj_inj)

end

interpretation profile_table: object_table k_Profiles ProfileObj pr_Meta "\<lambda>m x. x\<lparr>pr_Meta := m\<rparr>"
proof
  show "x \<notin> range ProfileObj \<Longrightarrow> k_Profiles (store_object u x c) = k_Profiles c" for u x c by (cases x) auto
qed (auto simp: with_uid_def)

interpretation rule_table: object_table k_Rules RuleObj ru_Meta "\<lambda>m x. x\<lparr>ru_Meta := m\<rparr>"
proof
  show "x \<notin> range RuleObj \<Longrightarrow> k_Rules (store_object u x c) = k_Rules c" for u x c by (cases x) auto
qed (auto simp: with_uid_def)

interpretation variable_table: object_table k_Variables VariableObj va_Meta "\<lambda>m x. x\<lparr>va_Meta := m\<rparr>"
proof
  show "x \<notin> range VariableObj \<Longrightarrow> k_Variables (store_object u x c) = k_Variables c" for u x c by (cases x) auto
qed (auto simp: with_uid_def)

section \<open>The loops over the nodes\<close>

text \<open>All three loops go on after an action that succeeds.\<close>

locale stream_loop =
  fixes parse :: "node \<Rightarrow> 'a parsed"
    and loop :: "('a \<Rightarrow> ('w world, go_error option) state) \<Rightarrow> node list \<Rightarrow> ('w world, go_error option) state"
  assumes ends: "loop action [] = ret None"
    and aborts: "parse n = Abort err \<Longrightarrow> loop action (n # ns) = ret (Some err)"
    and skips: "parse n = Skip \<Longrightarrow> loop action (n # ns) = loop action ns"
    and goes_on: "parse n = Emit x \<Longrightarrow>
      \<exists>f. loop action (n # ns) = State_Monad.bind (action x) f \<and> f None = loop action ns"
begin

lemma yields_loop:
  assumes "\<And>x d. x \<in> set (emitted parse nodes) \<Longrightarrow>
      yields view (action x) d (\<lambda>out ws d'. out = None \<and> populated d [obj x] d')"
  shows "yields view (loop action nodes) c
    (\<lambda>out ws c'. out = first_abort parse nodes \<and> populated c (map obj (emitted parse nodes)) c')"
  using assms
proof (induction nodes arbitrary: c)
  case Nil
  then show ?case by (simp add: ends yields_ret)
next
  case (Cons n nodes)
  show ?case
  proof (cases "parse n")
    case (Emit x)
    from goes_on [OF Emit] obtain f where f: "loop action (n # nodes) = State_Monad.bind (action x) f"
      "f None = loop action nodes" by blast
    have "yields view (f out) d (\<lambda>out' ws d'. out' = first_abort parse (n # nodes)
        \<and> populated c (map obj (emitted parse (n # nodes))) d')"
      if "out = None" "populated c [obj x] d" for out d
      unfolding that(1) f(2) using Emit populated_first [OF that(2)]
      by (intro yields_mono [OF Cons.IH [OF Cons.prems]]) auto
    with Emit show ?thesis
      unfolding f(1) by (intro yields_bind yields_mono [OF Cons.prems]) auto
  qed (use Cons in \<open>simp_all add: aborts skips yields_ret\<close>)
qed

end

sublocale logging_loop \<subseteq> stream_loop
  using loop_Nil loop_Abort loop_Skip loop_Emit by unfold_locales blast+

interpretation profile_loop: stream_loop "parse_profile env key" "profiles_do env key"
  by unfold_locales auto

section \<open>A run against a server\<close>

text \<open>
  The objects of a run, in order: those of the loops up to the first node that cannot be read.
\<close>

abbreviation profiles_abort :: "'w parser_config \<Rightarrow> node \<Rightarrow> go_error option" where
  "profiles_abort pcfg root \<equiv>
     first_abort (parse_profile (pc_env pcfg) (pc_ProfileBundleKey pcfg)) (Query root ''Profile'')"

definition run_objects :: "'w parser_config \<Rightarrow> profile_bundle \<Rightarrow> node \<Rightarrow> kobject list" where
  "run_objects pcfg pb root =
     map (the \<circ> profile_object pcfg pb) (stream_profiles pcfg root)
     @ (if profiles_abort pcfg root \<noteq> None then []
        else map (the \<circ> rule_object pcfg pb) (stream_rules pcfg root)
          @ (if rules_abort pcfg root \<noteq> None then []
             else map (the \<circ> variable_object pcfg pb) (stream_variables pcfg root)))"

definition reported :: "go_env \<Rightarrow> profile_bundle \<Rightarrow> go_error option \<Rightarrow> profile_bundle" where
  "reported env pb err = (case err of None \<Rightarrow> valid_bundle pb | Some e \<Rightarrow> invalid_bundle env pb e)"

lemma reported_fields [simp]:
  "pb_Meta (reported env pb err) = pb_Meta pb" "pb_Spec (reported env pb err) = pb_Spec pb"
  "reported env (reported env pb err) err = reported env pb err"
  by (auto simp: reported_def valid_bundle_def invalid_bundle_def split: option.split)

lemma run_objects_parsed:
  assumes "parser_of pb pcfg"
  shows "list_all is_parsed (run_objects pcfg pb root)"
  using profile_object_owned [OF assms, of _ root] rule_object_owned [OF assms, of _ root]
    variable_object_owned [OF assms, of _ root]
  by (fastforce simp: run_objects_def list_all_iff)

text \<open>The status of the bundle plays no part in the objects.\<close>

lemma objects_meta_only:
  assumes "pb_Meta pb' = pb_Meta pb"
  shows "run_objects pcfg pb' root = run_objects pcfg pb root"
  using assms
  by (simp add: run_objects_def profile_object_def rule_object_def variable_object_def controlled_def comp_def)

text \<open>The root of the data stream that a process reads, or the error it reports; no root where the
  process panics.\<close>

definition stream_root :: "'w parser_config \<Rightarrow> go_error + node option" where
  "stream_root pcfg =
     (case pc_Open pcfg (Clean (pc_DataStreamPath pcfg)) of
        Inl err \<Rightarrow> Inl (content_error (pc_env pcfg) ''file'' err)
      | Inr content \<Rightarrow>
          (case Parse (pc_env pcfg) content of
             Inl panic \<Rightarrow> Inr None
           | Inr (Inl err) \<Rightarrow> Inl (content_error (pc_env pcfg) ''XML'' err)
           | Inr (Inr doc) \<Rightarrow> Inr (doc_Root doc)))"

definition parser_result ::
  "'w parser_config \<Rightarrow> profile_bundle \<Rightarrow> cluster \<Rightarrow> process_end \<Rightarrow> cluster \<Rightarrow> bool" where
  "parser_result pcfg pb c out c' \<longleftrightarrow>
     (case stream_root pcfg of
        Inl err \<Rightarrow> out = Exit 1 \<and> c' = set_pb (reported (pc_env pcfg) pb (Some err)) c
      | Inr None \<Rightarrow> out = Panic NilDereference \<and> c' = c
      | Inr (Some root) \<Rightarrow> out = Exit 0 \<and> (\<exists>d. populated c (run_objects pcfg pb root) d
          \<and> c' = set_pb (reported (pc_env pcfg) pb (stream_error pcfg root)) d))"

text \<open>The server admits the objects that the run creates; it may refuse any others.\<close>

definition run_admitted :: "'w parser_config \<Rightarrow> profile_bundle \<Rightarrow> (kobject \<Rightarrow> bool) \<Rightarrow> bool" where
  "run_admitted pcfg pb admits \<longleftrightarrow>
     (case stream_root pcfg of Inr (Some root) \<Rightarrow> list_all admits (run_objects pcfg pb root) | _ \<Rightarrow> True)"

lemma run_admitted_True [simp]: "run_admitted pcfg pb (\<lambda>_. True)"
  by (simp add: run_admitted_def list_all_iff split: sum.split option.split)

lemma run_admitted_again:
  assumes "pb_Meta pb' = pb_Meta pb" and "run_admitted pcfg pb admits"
  shows "run_admitted pcfg pb' admits"
  using assms(2) by (simp add: run_admitted_def objects_meta_only [OF assms(1)] cong: sum.case_cong option.case_cong)

locale parser_server =
  api_server "pc_Client pcfg" view admits
  for pcfg :: "'w parser_config" and view :: "'w \<Rightarrow> cluster" and admits :: "kobject \<Rightarrow> bool" +
  fixes pb :: profile_bundle
  assumes configured: "parser_of pb pcfg"
    and admits_run: "run_admitted pcfg pb admits"
begin

lemma yields_create_or_exists:
  assumes "admits x"
  shows "yields view (create_or_exists (pc_Client pcfg) x) c (\<lambda>out ws c'. out = None \<and> populated c [x] c')"
proof (cases "exists_object c x")
  case True
  then show ?thesis
    unfolding create_or_exists_def
    by (intro yields_bind yields_create_existing) (simp_all add: populated_Cons yields_ret)
next
  case False
  then show ?thesis
    unfolding create_or_exists_def
    by (intro yields_bind yields_create_new assms) (auto simp: populated_Cons intro!: yields_ret)
qed

lemma yields_profile_action:
  assumes "\<exists>x. profile_object pcfg pb p = Some x" and "admits (the (profile_object pcfg pb p))"
  shows "yields view (profile_action pcfg pb p) c
    (\<lambda>out ws c'. out = None \<and> populated c [the (profile_object pcfg pb p)] c')"
  using assms unfolding profile_action_def profile_object_def controlled_def
  by (auto simp: Let_def intro!: yields_create_or_exists split: sum.splits)

lemma yields_rule_action:
  assumes "\<exists>x. rule_object pcfg pb p = Some x" and "admits (the (rule_object pcfg pb p))"
  shows "yields view (rule_action pcfg pb p) c
    (\<lambda>out ws c'. out = None \<and> populated c [the (rule_object pcfg pb p)] c')"
proof -
  have "(with_rule_id m)\<lparr>om_Name := n\<rparr> = m\<lparr>om_Name := n, om_Annotations := Some ((case om_Annotations m of
      None \<Rightarrow> Map.empty | Some a \<Rightarrow> a)(RuleIDAnnotationKey \<mapsto> om_Name m))\<rparr>" for m n
    by (simp add: with_rule_id_def)
  moreover have "om_Name (with_rule_id m) = om_Name m" for m by (simp add: with_rule_id_def)
  ultimately show ?thesis
    using assms unfolding rule_action_def rule_object_def controlled_def
    by (auto simp: Let_def intro!: yields_create_or_exists split: sum.splits)
qed

lemma yields_variable_action:
  assumes "\<exists>x. variable_object pcfg pb p = Some x" and "admits (the (variable_object pcfg pb p))"
  shows "yields view (variable_action pcfg pb p) c
    (\<lambda>out ws c'. out = None \<and> populated c [the (variable_object pcfg pb p)] c')"
  using assms unfolding variable_action_def variable_object_def controlled_def
  by (auto simp: Let_def intro!: yields_create_or_exists split: sum.splits)

lemma yields_report:
  assumes "k_ProfileBundles c (key_of (pb_Meta pb)) = Some pb"
  shows "yields view (report_and_exit pcfg pb err code) c
    (\<lambda>out ws c'. out = Exit code \<and> c' = set_pb (reported (pc_env pcfg) pb err) c)"
proof -
  have upd: "updateProfileBundleStatus pcfg pb err
      = status_update_or_exit pcfg (pb\<lparr>pb_Status := pb_Status (reported (pc_env pcfg) pb err)\<rparr>)"
    by (cases err) (simp_all add: updateProfileBundleStatus_def reported_def valid_bundle_def invalid_bundle_def)
  have "pb\<lparr>pb_Status := pb_Status (reported (pc_env pcfg) pb err)\<rparr> = reported (pc_env pcfg) pb err"
    by (cases err) (simp_all add: reported_def valid_bundle_def invalid_bundle_def)
  then show ?thesis
    unfolding report_and_exit_def upd status_update_or_exit_def
    using assms by (intro yields_bind yields_status) (simp_all add: set_pb_def yields_bind yields_ret)
qed

lemma yields_parse_profiles:
  assumes "doc_Root doc = Some root" and "\<forall>p \<in> set (stream_profiles pcfg root). admits (the (profile_object pcfg pb p))"
  shows "yields view (parseProfilesAndDo doc pcfg (profile_action pcfg pb)) d
    (\<lambda>out ws d'. out = Inr (profiles_abort pcfg root)
      \<and> populated d (map (the \<circ> profile_object pcfg pb) (stream_profiles pcfg root)) d')"
  unfolding parseProfilesAndDo_def assms(1) option.case stream_profiles_def
  by (intro yields_bind yields_mono [OF profile_loop.yields_loop
      [where obj = "the \<circ> profile_object pcfg pb"]] yields_ret)
    (use profile_object_owned [OF configured, of _ root] assms(2)
      in \<open>auto simp: stream_profiles_def intro!: yields_profile_action\<close>)

lemma yields_parse_rules:
  assumes "doc_Root doc = Some root" and "\<forall>p \<in> set (stream_rules pcfg root). admits (the (rule_object pcfg pb p))"
  shows "yields view (ParseRulesAndDo doc pcfg (rule_action pcfg pb)) d
    (\<lambda>out ws d'. out = Inr (rules_abort pcfg root)
      \<and> populated d (map (the \<circ> rule_object pcfg pb) (stream_rules pcfg root)) d')"
  unfolding ParseRulesAndDo_def assms(1) option.case stream_rules_def
  by (intro yields_bind yields_mono [OF rule_loop.yields_loop
      [where obj = "the \<circ> rule_object pcfg pb"]] yields_ret)
    (use rule_object_owned [OF configured, of _ root] assms(2)
      in \<open>auto simp: stream_rules_def intro!: yields_rule_action\<close>)

lemma yields_parse_variables:
  assumes "doc_Root doc = Some root" and "\<forall>p \<in> set (stream_variables pcfg root). admits (the (variable_object pcfg pb p))"
  shows "yields view (ParseVariablesAndDo doc pcfg (variable_action pcfg pb)) d
    (\<lambda>out ws d'. out = Inr (variables_abort pcfg root)
      \<and> populated d (map (the \<circ> variable_object pcfg pb) (stream_variables pcfg root)) d')"
  unfolding ParseVariablesAndDo_def assms(1) option.case stream_variables_def
  by (intro yields_bind yields_mono [OF variable_loop.yields_loop
      [where obj = "the \<circ> variable_object pcfg pb"]] yields_ret)
    (use variable_object_owned [OF configured, of _ root] assms(2)
      in \<open>auto simp: stream_variables_def intro!: yields_variable_action\<close>)

lemma yields_report_parsed:
  assumes "k_ProfileBundles c (key_of (pb_Meta pb)) = Some pb" and "populated c xs d" and "list_all is_parsed xs"
  shows "yields view (report_and_exit pcfg pb err 0) d (\<lambda>out ws d'. out = Exit 0
    \<and> (\<exists>d. populated c xs d \<and> d' = set_pb (reported (pc_env pcfg) pb err) d))"
  using assms populated_frame(1) [OF assms(2,3)] by (intro yields_mono [OF yields_report]) auto

lemma yields_parse_content:
  assumes "stream_root pcfg = Inr (Some root)" and "doc_Root doc = Some root"
    and "k_ProfileBundles c (key_of (pb_Meta pb)) = Some pb"
  shows "yields view (parse_content pcfg pb doc) c (\<lambda>out ws c'. out = Exit 0
    \<and> (\<exists>d. populated c (run_objects pcfg pb root) d
         \<and> c' = set_pb (reported (pc_env pcfg) pb (stream_error pcfg root)) d))"
proof -
  let ?P = "map (the \<circ> profile_object pcfg pb) (stream_profiles pcfg root)"
    and ?R = "map (the \<circ> rule_object pcfg pb) (stream_rules pcfg root)"
    and ?V = "map (the \<circ> variable_object pcfg pb) (stream_variables pcfg root)"
  note loops = yields_parse_profiles [OF assms(2)] yields_parse_rules [OF assms(2)]
    yields_parse_variables [OF assms(2)]
  have admitted: "list_all admits (run_objects pcfg pb root)"
    using admits_run by (simp add: run_admitted_def assms(1))
  have parsed: "list_all is_parsed (?P @ ?R @ ?V)"
    using profile_object_owned [OF configured, of _ root] rule_object_owned [OF configured, of _ root]
      variable_object_owned [OF configured, of _ root] by (fastforce simp: list_all_iff)
  note report = yields_report_parsed [OF assms(3)]
  have after_profiles: "yields view (report_and_exit pcfg pb err 0) d (\<lambda>out ws d'. out = Exit 0
      \<and> (\<exists>d. populated c ?P d \<and> d' = set_pb (reported (pc_env pcfg) pb err) d))"
    if "populated c ?P d" for d err
    using report [OF that] parsed by simp
  have after_rules: "yields view (report_and_exit pcfg pb err 0) d2 (\<lambda>out ws d'. out = Exit 0
      \<and> (\<exists>d. populated c (?P @ ?R) d \<and> d' = set_pb (reported (pc_env pcfg) pb err) d))"
    if "populated c ?P d1" "populated d1 ?R d2" for d1 d2 err
    using report [of "?P @ ?R" d2] parsed that by (auto simp: populated_append)
  have after_variables: "yields view (report_and_exit pcfg pb err 0) d3 (\<lambda>out ws d'. out = Exit 0
      \<and> (\<exists>d. populated c (?P @ ?R @ ?V) d \<and> d' = set_pb (reported (pc_env pcfg) pb err) d))"
    if "populated c ?P d1" "populated d1 ?R d2" "populated d2 ?V d3" for d1 d2 d3 err
    using report [of "?P @ ?R @ ?V" d3] parsed that by (auto simp: populated_append simp del: list_all_append)
  show ?thesis
    unfolding parse_content_def
    by (intro yields_bind yields_mono [OF loops(1)])
      (use admitted in \<open>auto simp: run_objects_def stream_error_def list_all_iff after_profiles after_rules
          after_variables split: option.split
        intro!: yields_bind yields_mono [OF loops(2)] yields_mono [OF loops(3)]\<close>)
qed

lemma yields_run_parser:
  assumes "k_ProfileBundles c (key_of (pb_Meta pb)) = Some pb"
  shows "yields view (run_parser pcfg) c (\<lambda>out ws c'. parser_result pcfg pb c out c')"
proof -
  have key: "pc_ProfileBundleKey pcfg = key_of (pb_Meta pb)" using configured by (simp add: parser_of_def)
  have doc: "yields view (parse_content pcfg pb doc) c (\<lambda>out ws c'. case doc_Root doc of
       None \<Rightarrow> out = Panic NilDereference \<and> c' = c
     | Some root \<Rightarrow> out = Exit 0 \<and> (\<exists>d. populated c (run_objects pcfg pb root) d
          \<and> c' = set_pb (reported (pc_env pcfg) pb (stream_error pcfg root)) d))"
    if "stream_root pcfg = Inr (doc_Root doc)" for doc
  proof (cases "doc_Root doc")
    case None
    then show ?thesis by (simp add: parse_content_def parseProfilesAndDo_def yields_bind yields_ret)
  next
    case (Some root)
    with that yields_parse_content [OF _ Some assms] show ?thesis by simp
  qed
  have content: "yields view (case readContent pcfg (pc_DataStreamPath pcfg) of
       Inl err \<Rightarrow> report_and_exit pcfg pb (Some (content_error (pc_env pcfg) ''file'' err)) 1
     | Inr contentFile \<Rightarrow>
         (case Parse (pc_env pcfg) contentFile of
            Inl panic \<Rightarrow> ret (Panic panic)
          | Inr (Inl err) \<Rightarrow> report_and_exit pcfg pb (Some (content_error (pc_env pcfg) ''XML'' err)) 1
          | Inr (Inr contentDom) \<Rightarrow> parse_content pcfg pb contentDom)) c (\<lambda>out ws c'. parser_result pcfg pb c out c')"
    unfolding readContent_def
    by (intro yields_case_sum) (use assms in \<open>auto simp: parser_result_def stream_root_def
      intro!: yields_mono [OF yields_report] yields_mono [OF doc] yields_ret split: sum.split\<close>)
  show ?thesis
    unfolding run_parser_def getProfileBundle_def
    by (intro yields_bind yields_get [OF get_ProfileBundle])
      (use assms content in \<open>auto simp: key intro!: yields_ret\<close>)
qed

end

lemma run_parser_result:
  assumes "api_server (pc_Client pcfg) view admits" and "run_admitted pcfg pb admits"
    and "parser_of pb pcfg" and "k_ProfileBundles (view (w_cluster s)) (key_of (pb_Meta pb)) = Some pb"
    and "run_state (run_parser pcfg) s = (out, s')"
  shows "parser_result pcfg pb (view (w_cluster s)) out (view (w_cluster s'))"
proof -
  have "parser_server pcfg view admits pb"
    using assms(1-3) by (simp add: parser_server_def parser_server_axioms_def)
  from yieldsD [OF parser_server.yields_run_parser [OF this assms(4)]] assms(5) show ?thesis by auto
qed

text \<open>
  C5: what one run of the parser leaves behind, on every path: with unreadable content the
  bundle is INVALID with the reason, and the process fails; a document without a root panics;
  otherwise the cluster has gained the objects of the stream up to the first unreadable node,
  each under its key unless that was taken, and the bundle is VALID, or INVALID with the error.
  The server keeps its contract and admits the objects of the run; others it may refuse.
\<close>

theorem parser_outcome:
  assumes "api_server (pc_Client pcfg) view admits" and "run_admitted pcfg pb admits"
    and "parser_of pb pcfg" and "k_ProfileBundles (view (w_cluster s)) (key_of (pb_Meta pb)) = Some pb"
  shows "parser_result pcfg pb (view (w_cluster s)) (fst (run_state (run_parser pcfg) s))
    (view (w_cluster (snd (run_state (run_parser pcfg) s))))"
  by (rule run_parser_result [OF assms]) simp

text \<open>
  C18: running the parser again, as the restart policy of its Pod does after a failure, changes
  nothing: every object is there already, the bundle gets the same status, and the process ends
  in the same way. The server keeps its contract and admits the objects of the run.
\<close>

theorem parser_run_idempotent:
  assumes "api_server (pc_Client pcfg) view admits" and "run_admitted pcfg pb admits"
    and "parser_of pb pcfg" and "k_ProfileBundles (view (w_cluster s)) (key_of (pb_Meta pb)) = Some pb"
    and "run_state (run_parser pcfg) s = (out, s1)" and "run_state (run_parser pcfg) s1 = (out', s2)"
  shows "out' = out \<and> view (w_cluster s2) = view (w_cluster s1)"
proof -
  let ?c = "view (w_cluster s)" and ?c1 = "view (w_cluster s1)" and ?c2 = "view (w_cluster s2)"
  let ?k = "key_of (pb_Meta pb)"
  have first: "parser_result pcfg pb ?c out ?c1" using run_parser_result [OF assms(1-5)] .
  have again: "parser_result pcfg b ?c1 out' ?c2"
    if "k_ProfileBundles ?c1 ?k = Some b" "pb_Meta b = pb_Meta pb" for b
    using run_parser_result [OF assms(1) run_admitted_again [OF that(2) assms(2)] _ that(1) [folded that(2)] assms(6)]
      assms(3) that by (simp add: parser_of_def)
  have same: "out' = out \<and> ?c2 = ?c1" if "?c1 = set_pb (reported (pc_env pcfg) pb err) d"
    "parser_result pcfg (reported (pc_env pcfg) pb err) ?c1 out' ?c2 \<Longrightarrow> out' = out
      \<and> ?c2 = set_pb (reported (pc_env pcfg) pb err) ?c1" for err d
    using that again [of "reported (pc_env pcfg) pb err"] by (simp add: set_pb_def)
  show ?thesis
  proof (cases "\<exists>root. stream_root pcfg = Inr (Some root)")
    case False
    then consider (unread) err where "stream_root pcfg = Inl err" | (empty) "stream_root pcfg = Inr None"
      by (metis not_None_eq obj_sumE)
    then show ?thesis
    proof cases
      case unread
      with first show ?thesis by (intro same) (auto simp: parser_result_def)
    next
      case empty
      with first again [of pb] assms(4) show ?thesis by (auto simp: parser_result_def)
    qed
  next
    case True
    then obtain root where root: "stream_root pcfg = Inr (Some root)" ..
    let ?b = "reported (pc_env pcfg) pb (stream_error pcfg root)"
    from first root obtain d where d: "populated ?c (run_objects pcfg pb root) d"
      "?c1 = set_pb ?b d" "out = Exit 0" by (auto simp: parser_result_def)
    have parsed: "exists_object ?c1 x" if "x \<in> set (run_objects pcfg pb root)" for x
    proof -
      have "is_parsed x" using run_objects_parsed [OF assms(3)] that by (auto simp: list_all_iff)
      with populated_exists [OF d(1) that] show ?thesis unfolding d(2) by (cases x) (auto simp: set_pb_def)
    qed
    show ?thesis
    proof (rule same [OF d(2)])
      assume "parser_result pcfg ?b ?c1 out' ?c2"
      with root obtain e where "populated ?c1 (run_objects pcfg pb root) e" "out' = Exit 0" "?c2 = set_pb ?b e"
        by (auto simp: parser_result_def objects_meta_only [where pb' = ?b and pb = pb])
      with populated_again [OF this(1)] parsed d(3) show "out' = out \<and> ?c2 = set_pb ?b ?c1" by blast
    qed
  qed
qed


interpretation mem_parser: parser_server
  "pcfg\<lparr>pc_ProfileBundleKey := key_of (pb_Meta pb), pc_Scheme := getK8sScheme, pc_Client := mem_client\<rparr>"
  ms_cluster "\<lambda>_. True" pb for pcfg pb
  by (simp add: parser_server_def parser_server_axioms_def mem.api_server_axioms parser_of_def)

section \<open>The sample stream\<close>

definition ex_stream_world :: "mem_server world" where
  "ex_stream_world = \<lparr>w_cluster = \<lparr>ms_cluster =
     \<lparr>k_ProfileBundles = [nsn ''ns'' ''rhcos'' \<mapsto> ex_bundle],
      k_Profiles = Map.empty, k_Rules = Map.empty, k_Variables = Map.empty,
      k_TailoredProfiles = [nsn ''ns'' ''mine'' \<mapsto> ex_request], k_ConfigMaps = Map.empty,
      k_Pods = Map.empty, k_Policies = Map.empty\<rparr>, ms_next = 0\<rparr>, w_writes = []\<rparr>"

lemma ex_stream_root: "stream_root ex_pcfg = Inr (Some ex_root)"
  by (simp add: stream_root_def ex_pcfg_def ex_document)

lemma ex_client: "pc_Client ex_pcfg = mem_client"
  by (simp add: ex_pcfg_def)

lemma emitted_one: "emitted parse [n] = [x] \<longleftrightarrow> parse n = Emit x"
  by (cases "parse n") auto

lemma ex_variable_read:
  "\<exists>v. parse_variable ex_env ns ex_value_node = Emit v
     \<and> va_ID v = ''xccdf_org.ssgproject.content_value_banner'' \<and> va_Type v = ''string''
     \<and> vs_Value ` set (va_Selections v) = {''b''}"
proof -
  have "FindByName ex_value_node ''value'' = [Node ''value'' [] [] ''a'', Node ''value'' [(''selector'', ''other'')] [] ''b'']"
    by (simp add: ex_value_node_def)
  moreover have "FindOneByName ex_value_node ''title'' = Some (Node ''title'' [] [] ''Banner'')"
    "FindOneByName ex_value_node ''description'' = None"
    by (simp_all add: ex_value_node_def)
  moreover have "GetAttributeValue ex_value_node ''id'' = ''xccdf_org.ssgproject.content_value_banner''"
    "getVariableType ex_value_node = ''string''"
    "GetAttributeValue ex_value_node ''hidden'' = []"
    by (simp_all add: ex_value_node_def GetAttributeValue_def GetAttribute_def getVariableType_def VarTypeString_def)
  ultimately show ?thesis
    by (simp add: parse_variable_def parseVarValues_def Let_def GetAttribute_def)
qed

lemma ex_streams:
  "\<exists>p. stream_profiles ex_pcfg ex_root = [p] \<and> pr_ID p = ''xccdf_org.ssgproject.content_profile_moderate''"
  "\<exists>v. stream_variables ex_pcfg ex_root = [v] \<and> va_ID v = ''xccdf_org.ssgproject.content_value_banner''
     \<and> va_Type v = ''string'' \<and> vs_Value ` set (va_Selections v) = {''b''}"
proof -
  from ex_profile_parsed obtain p where
    p: "parse_profile (pc_env ex_pcfg) (pc_ProfileBundleKey ex_pcfg) ex_profile_node = Emit p" ..
  then have "pr_ID p = GetAttributeValue ex_profile_node ''id''"
    using profiles.emits [of "pc_env ex_pcfg" "nn_Namespace (pc_ProfileBundleKey ex_pcfg)"
        "nn_Name (pc_ProfileBundleKey ex_pcfg)"] by (cases "pc_ProfileBundleKey ex_pcfg") auto
  with p show "\<exists>p. stream_profiles ex_pcfg ex_root = [p]
      \<and> pr_ID p = ''xccdf_org.ssgproject.content_profile_moderate''"
    by (simp add: stream_profiles_def ex_queries ex_profile_node_def GetAttributeValue_def GetAttribute_def)
  have "pc_env ex_pcfg = ex_env" by (simp add: ex_pcfg_def)
  moreover obtain v where v: "parse_variable ex_env (nn_Namespace (pc_ProfileBundleKey ex_pcfg)) ex_value_node = Emit v"
    "va_ID v = ''xccdf_org.ssgproject.content_value_banner''" "va_Type v = ''string''"
    "vs_Value ` set (va_Selections v) = {''b''}"
    using ex_variable_read [of "nn_Namespace (pc_ProfileBundleKey ex_pcfg)"] by (elim exE conjE)
  ultimately have "stream_variables ex_pcfg ex_root = [v]" by (simp add: stream_variables_def ex_queries)
  with v(2-4) show "\<exists>v. stream_variables ex_pcfg ex_root = [v]
      \<and> va_ID v = ''xccdf_org.ssgproject.content_value_banner''
      \<and> va_Type v = ''string'' \<and> vs_Value ` set (va_Selections v) = {''b''}" by (intro exI conjI)
qed

lemma ex_stream_complete: "stream_error ex_pcfg ex_root = None"
proof -
  have complete: "first_abort parse [n] = None" if "emitted parse [n] = [x]" for parse :: "node \<Rightarrow> 'b parsed" and n x
    using that by (simp add: emitted_one del: emitted.simps)
  obtain p where "stream_profiles ex_pcfg ex_root = [p]" using ex_streams(1) by (elim exE conjE)
  moreover obtain q where "stream_rules ex_pcfg ex_root = [q]" using ex_rule_parsed by (elim exE conjE)
  moreover obtain v where "stream_variables ex_pcfg ex_root = [v]" using ex_streams(2) by (elim exE conjE)
  ultimately show ?thesis
    unfolding stream_error_def stream_profiles_def stream_rules_def stream_variables_def ex_queries
    by (simp only: complete option.case)
qed

lemma ex_stream_bundle:
  "k_ProfileBundles (ms_cluster (w_cluster ex_stream_world)) (key_of (pb_Meta ex_bundle)) = Some ex_bundle"
  by (simp add: ex_stream_world_def ex_bundle_def ex_meta_def zero_meta_def key_of_def)

lemma ex_server: "api_server (pc_Client ex_pcfg) ms_cluster (\<lambda>_. True)"
  using mem.api_server_axioms by (simp add: ex_client)

theorem parser_outcome_witness:
  "fst (run_state (run_parser ex_pcfg) ex_stream_world) = Exit 0
   \<and> (\<exists>pb. k_ProfileBundles (ms_cluster (w_cluster (snd (run_state (run_parser ex_pcfg) ex_stream_world))))
          (key_of (pb_Meta ex_bundle)) = Some pb
        \<and> pbst_DataStreamStatus (pb_Status pb) = ''VALID'')"
  using parser_outcome [OF ex_server run_admitted_True ex_parser_of ex_stream_bundle]
  by (auto simp: parser_result_def ex_stream_root ex_stream_complete set_pb_def reported_def valid_bundle_def
      DataStreamValid_def)

theorem parser_run_idempotent_witness:
  "\<exists>out s1 s2. run_state (run_parser ex_pcfg) ex_stream_world = (out, s1)
     \<and> run_state (run_parser ex_pcfg) s1 = (out, s2)
     \<and> ms_cluster (w_cluster s2) = ms_cluster (w_cluster s1)"
proof -
  obtain out s1 where first: "run_state (run_parser ex_pcfg) ex_stream_world = (out, s1)" by fastforce
  obtain out' s2 where second: "run_state (run_parser ex_pcfg) s1 = (out', s2)" by fastforce
  from parser_run_idempotent [OF ex_server run_admitted_True ex_parser_of ex_stream_bundle first second] first second
  show ?thesis by simp
qed

end
