(* ===== verification/Parser_Tables.thy ===== *)
theory Parser_Tables
  imports Parser_Cluster
begin

text \<open>
  The tables of profiles, rules and variables after a complete run of the parser, element by
  element of the data stream, also where several elements share a name.
\<close>

section \<open>Names\<close>

text \<open>The names of the objects that a rule, a profile or a variable of the data stream becomes.\<close>

definition rule_object_name :: "'w parser_config \<Rightarrow> profile_bundle \<Rightarrow> string \<Rightarrow> string" where
  "rule_object_name pcfg pb ident = om_Name (pb_Meta pb) @ ''-'' @ GetRuleNameFromID (pc_env pcfg) ident"

definition profile_object_name :: "'w parser_config \<Rightarrow> profile_bundle \<Rightarrow> string \<Rightarrow> string" where
  "profile_object_name pcfg pb ident = om_Name (pb_Meta pb) @ ''-'' @ GetProfileNameFromID (pc_env pcfg) ident"

definition variable_object_name :: "'w parser_config \<Rightarrow> profile_bundle \<Rightarrow> string \<Rightarrow> string" where
  "variable_object_name pcfg pb ident = om_Name (pb_Meta pb) @ ''-'' @ GetVariableNameFromID (pc_env pcfg) ident"

section \<open>A complete run\<close>

lemma complete_run:
  assumes "stream_error pcfg root = None"
  shows "run_objects pcfg pb root = map (the \<circ> profile_object pcfg pb) (stream_profiles pcfg root)
    @ map (the \<circ> rule_object pcfg pb) (stream_rules pcfg root)
    @ map (the \<circ> variable_object pcfg pb) (stream_variables pcfg root)"
  using assms by (auto simp: run_objects_def stream_error_def split: option.splits)

lemma find_over_append: "find f (xs @ ys) = (case find f xs of None \<Rightarrow> find f ys | Some x \<Rightarrow> Some x)"
  by (induction xs) auto

lemma find_over_map: "find f (map g xs) = map_option g (find (f \<circ> g) xs)"
  by (induction xs) auto

text \<open>
  The objects of one kind among those of a run: each is its element with the metadata that the
  action gives it, under the name of the element.
\<close>

definition made_from ::
  "profile_bundle \<Rightarrow> ('a \<Rightarrow> kobject) \<Rightarrow> (object_meta \<Rightarrow> 'a \<Rightarrow> 'a) \<Rightarrow> ('a \<Rightarrow> string) \<Rightarrow> ('a \<Rightarrow> kobject) \<Rightarrow> 'a \<Rightarrow> bool" where
  "made_from pb obj put name mk a \<longleftrightarrow>
     (\<exists>m. mk a = obj (put m a) \<and> key_of m = nsn (om_Namespace (pb_Meta pb)) (name a))"

text \<open>
  One key of a table before and after a run: an object that was there stays as it was, and a free
  key gets an object made of the first element with the name, or nothing if there is none.
\<close>

definition first_named :: "profile_bundle \<Rightarrow> ('a \<Rightarrow> string) \<Rightarrow> 'a list \<Rightarrow> nsname \<Rightarrow> 'a option" where
  "first_named pb name as k = find (\<lambda>a. nsn (om_Namespace (pb_Meta pb)) (name a) = k) as"

definition entry_after :: "(object_meta \<Rightarrow> 'a \<Rightarrow> 'a) \<Rightarrow> 'a option \<Rightarrow> 'a option \<Rightarrow> 'a option \<Rightarrow> bool" where
  "entry_after put before first after \<longleftrightarrow>
     (case before of Some q \<Rightarrow> after = Some q | None \<Rightarrow> rel_option (\<lambda>q a. \<exists>m. q = put m a) after first)"

context object_table
begin

lemma first_made:
  assumes "populated c (xs @ map mk as @ ys) c'" and "table c k = None"
    and "\<forall>x \<in> set xs \<union> set ys. x \<notin> range obj"
    and "\<forall>a \<in> set as. made_from pb obj put name mk a"
    and "\<And>m a. meta (put m a) = m" and "\<And>m m' a. put m' (put m a) = put m' a"
  shows "rel_option (\<lambda>q a. \<exists>m. q = put m a) (table c' k)
    (find (\<lambda>a. nsn (om_Namespace (pb_Meta pb)) (name a) = k) as)"
proof -
  have none: "find (at k) zs = None" if "\<forall>x \<in> set zs. x \<notin> range obj" for zs
    using that by (auto simp: find_None_iff at_def)
  have here: "at k (mk a) \<longleftrightarrow> nsn (om_Namespace (pb_Meta pb)) (name a) = k" if "a \<in> set as" for a
  proof -
    from assms(4) that obtain m where "mk a = obj (put m a)" "key_of m = nsn (om_Namespace (pb_Meta pb)) (name a)"
      by (auto simp: made_from_def)
    then show ?thesis by (auto simp: at_def obj_inj assms(5) dest: sym)
  qed
  have "find (at k \<circ> mk) as = find (\<lambda>a. nsn (om_Namespace (pb_Meta pb)) (name a) = k) as"
    using here by (intro find_cong) simp_all
  then have found: "find (at k) (xs @ map mk as @ ys)
      = map_option mk (find (\<lambda>a. nsn (om_Namespace (pb_Meta pb)) (name a) = k) as)"
    using none [of xs] none [of ys] assms(3) by (simp add: find_over_append find_over_map split: option.split)
  show ?thesis
  proof (cases "find (\<lambda>a. nsn (om_Namespace (pb_Meta pb)) (name a) = k) as")
    case None
    with first [OF assms(1,2)] show ?thesis by (simp add: found)
  next
    case (Some a)
    then have "a \<in> set as" by (auto simp: find_Some_iff)
    with assms(4) obtain m where "mk a = obj (put m a)" by (auto simp: made_from_def)
    with first [OF assms(1,2)] Some show ?thesis
      by (auto simp: found obj_inj assms(5,6) option_rel_Some2)
  qed
qed

lemma made_after:
  assumes "populated c (xs @ map mk as @ ys) c'"
    and "\<forall>x \<in> set xs \<union> set ys. x \<notin> range obj"
    and "\<forall>a \<in> set as. made_from pb obj put name mk a"
    and "\<And>m a. meta (put m a) = m" and "\<And>m m' a. put m' (put m a) = put m' a"
  shows "entry_after put (table c k) (first_named pb name as k) (table c' k)"
  using keeps [OF assms(1)] first_made [OF assms(1) _ assms(2-5)]
  by (simp add: entry_after_def first_named_def split: option.split)

end

lemma run_makes:
  assumes "parser_of pb pcfg"
  shows "p \<in> set (stream_profiles pcfg root) \<Longrightarrow> made_from pb ProfileObj (\<lambda>m x. x\<lparr>pr_Meta := m\<rparr>)
      (profile_object_name pcfg pb \<circ> pr_ID) (the \<circ> profile_object pcfg pb) p"
    and "r \<in> set (stream_rules pcfg root) \<Longrightarrow> made_from pb RuleObj (\<lambda>m x. x\<lparr>ru_Meta := m\<rparr>)
      (rule_object_name pcfg pb \<circ> ru_ID) (the \<circ> rule_object pcfg pb) r"
    and "v \<in> set (stream_variables pcfg root) \<Longrightarrow> made_from pb VariableObj (\<lambda>m x. x\<lparr>va_Meta := m\<rparr>)
      (variable_object_name pcfg pb \<circ> va_ID) (the \<circ> variable_object pcfg pb) v"
  using profile_object_owned [OF assms] rule_object_owned [OF assms] variable_object_owned [OF assms]
  by (fastforce simp: made_from_def belongs_to_def key_of_def profile_object_name_def rule_object_name_def
      variable_object_name_def)+

text \<open>
  C16: what a complete run of the parser leaves in the tables, key by key, whatever they held
  before: an object that was there stays as it was; under a free key stands the first element of
  the stream with that name, and nothing if no element has it. Elements whose identifiers give
  the same name as an earlier one (identifiers that differ in case, or in an underscore and a
  hyphen), or a name that was taken, are dropped without an error, and the bundle is reported
  VALID all the same. The server keeps its contract and admits the objects of the run.
\<close>

theorem first_of_a_name_is_kept:
  assumes "api_server (pc_Client pcfg) view admits" and "run_admitted pcfg pb admits"
    and "parser_of pb pcfg" and "k_ProfileBundles (view (w_cluster s)) (key_of (pb_Meta pb)) = Some pb"
    and "stream_root pcfg = Inr (Some root)" and "stream_error pcfg root = None"
    and "run_state (run_parser pcfg) s = (out, s')"
    and "c = view (w_cluster s)" and "c' = view (w_cluster s')"
  shows "out = Exit 0
    \<and> (\<exists>b. k_ProfileBundles c' (key_of (pb_Meta pb)) = Some b \<and> pbst_DataStreamStatus (pb_Status b) = DataStreamValid)
    \<and> (\<forall>k. entry_after (\<lambda>m p. p\<lparr>pr_Meta := m\<rparr>) (k_Profiles c k)
         (first_named pb (profile_object_name pcfg pb \<circ> pr_ID) (stream_profiles pcfg root) k) (k_Profiles c' k))
    \<and> (\<forall>k. entry_after (\<lambda>m r. r\<lparr>ru_Meta := m\<rparr>) (k_Rules c k)
         (first_named pb (rule_object_name pcfg pb \<circ> ru_ID) (stream_rules pcfg root) k) (k_Rules c' k))
    \<and> (\<forall>k. entry_after (\<lambda>m v. v\<lparr>va_Meta := m\<rparr>) (k_Variables c k)
         (first_named pb (variable_object_name pcfg pb \<circ> va_ID) (stream_variables pcfg root) k) (k_Variables c' k))"
proof -
  let ?P = "map (the \<circ> profile_object pcfg pb) (stream_profiles pcfg root)"
  let ?R = "map (the \<circ> rule_object pcfg pb) (stream_rules pcfg root)"
  let ?V = "map (the \<circ> variable_object pcfg pb) (stream_variables pcfg root)"
  from run_parser_result [OF assms(1-4,7)] assms(5,6) obtain d where out: "out = Exit 0"
    and d: "populated c (run_objects pcfg pb root) d" "c' = set_pb (reported (pc_env pcfg) pb None) d"
    by (auto simp: parser_result_def assms(8,9))
  note run = d(1) [unfolded complete_run [OF assms(6)]]
  note makes = run_makes [OF assms(3), where root = root]
  have kinds: "x \<in> range ProfileObj" if "x \<in> set ?P" for x using that makes(1) by (auto simp: made_from_def)
  have kinds': "x \<in> range RuleObj" if "x \<in> set ?R" for x using that makes(2) by (auto simp: made_from_def)
  have kinds'': "x \<in> range VariableObj" if "x \<in> set ?V" for x using that makes(3) by (auto simp: made_from_def)
  have "entry_after (\<lambda>m p. p\<lparr>pr_Meta := m\<rparr>) (k_Profiles c k)
      (first_named pb (profile_object_name pcfg pb \<circ> pr_ID) (stream_profiles pcfg root) k) (k_Profiles d k)" for k
    by (rule profile_table.made_after [where xs = "[]" and ys = "?R @ ?V"])
      (use run makes(1) kinds' kinds'' in fastforce)+
  moreover have "entry_after (\<lambda>m r. r\<lparr>ru_Meta := m\<rparr>) (k_Rules c k)
      (first_named pb (rule_object_name pcfg pb \<circ> ru_ID) (stream_rules pcfg root) k) (k_Rules d k)" for k
    by (rule rule_table.made_after [where xs = ?P and ys = ?V])
      (use run makes(2) kinds kinds'' in fastforce)+
  moreover have "entry_after (\<lambda>m v. v\<lparr>va_Meta := m\<rparr>) (k_Variables c k)
      (first_named pb (variable_object_name pcfg pb \<circ> va_ID) (stream_variables pcfg root) k) (k_Variables d k)" for k
    by (rule variable_table.made_after [where xs = "?P @ ?R" and ys = "[]"])
      (use run makes(3) kinds kinds' in fastforce)+
  ultimately show ?thesis
    using out by (simp add: d(2) set_pb_def reported_def valid_bundle_def)
qed

text \<open>A stream with two rules whose identifiers differ in an underscore and a hyphen.\<close>

definition ex_clashing_rule :: "string \<Rightarrow> string \<Rightarrow> node" where
  "ex_clashing_rule ident title = Node ''Rule'' [(''id'', ident)] [Node ''title'' [] [] title] []"

definition ex_clash_root :: node where
  "ex_clash_root = Node ''Benchmark'' []
     [ex_clashing_rule ''xccdf_org.ssgproject.content_rule_no_root'' ''First'',
      ex_clashing_rule ''xccdf_org.ssgproject.content_rule_no-root'' ''Second''] []"

definition ex_clash_pcfg :: "mem_server parser_config" where
  "ex_clash_pcfg = ex_pcfg\<lparr>pc_Open := \<lambda>_. Inr (XML_text ex_clash_root, io_EOF)\<rparr>"

lemma ex_clash_stream: "stream_root ex_clash_pcfg = Inr (Some ex_clash_root)"
proof -
  have "plain_node ex_clash_root" by code_simp
  moreover have "legal_node ex_clash_root"
    by (simp add: ex_clash_root_def ex_clashing_rule_def TrimSpace_def IsSpace_def is_in_character_range_def
        rune_error_def)
  ultimately show ?thesis by (simp add: stream_root_def ex_clash_pcfg_def ex_pcfg_def Parse_printed)
qed

lemma ex_clash_queries:
  "Query ex_clash_root ''Profile'' = []" "Query ex_clash_root ''Value'' = []"
  "Query ex_clash_root ''Rule'' = [ex_clashing_rule ''xccdf_org.ssgproject.content_rule_no_root'' ''First'',
     ex_clashing_rule ''xccdf_org.ssgproject.content_rule_no-root'' ''Second'']"
  by (simp_all add: ex_clash_root_def ex_clashing_rule_def Query_def)

lemma ex_clash_parsed:
  "\<exists>r. parse_rule env yaml ns (ex_clashing_rule (CHR ''x'' # i) title) = Emit r \<and> ru_ID r = CHR ''x'' # i \<and> ru_Title r = title"
  by (simp add: parse_rule_def Let_def ex_clashing_rule_def GetAttributeValue_def GetAttribute_def)

lemma ex_clash_rules:
  "stream_error ex_clash_pcfg ex_clash_root = None
   \<and> stream_profiles ex_clash_pcfg ex_clash_root = [] \<and> stream_variables ex_clash_pcfg ex_clash_root = []
   \<and> (\<exists>r1 r2. stream_rules ex_clash_pcfg ex_clash_root = [r1, r2]
       \<and> ru_ID r1 = ''xccdf_org.ssgproject.content_rule_no_root'' \<and> ru_Title r1 = ''First''
       \<and> ru_ID r2 = ''xccdf_org.ssgproject.content_rule_no-root'' \<and> ru_Title r2 = ''Second'')"
proof -
  let ?parse = "parse_rule (pc_env ex_clash_pcfg) (readObjFromYAML (pc_DecodeYAML ex_clash_pcfg)) (nn_Namespace (pc_ProfileBundleKey ex_clash_pcfg))"
  obtain r1 where "?parse (ex_clashing_rule ''xccdf_org.ssgproject.content_rule_no_root'' ''First'') = Emit r1"
    "ru_ID r1 = ''xccdf_org.ssgproject.content_rule_no_root''" "ru_Title r1 = ''First''"
    using ex_clash_parsed by blast
  moreover obtain r2 where "?parse (ex_clashing_rule ''xccdf_org.ssgproject.content_rule_no-root'' ''Second'') = Emit r2"
    "ru_ID r2 = ''xccdf_org.ssgproject.content_rule_no-root''" "ru_Title r2 = ''Second''"
    using ex_clash_parsed by blast
  ultimately show ?thesis
    by (simp add: stream_error_def stream_profiles_def stream_rules_def stream_variables_def ex_clash_queries)
qed

lemma ex_clash_names:
  "GetRuleNameFromID ex_env ''xccdf_org.ssgproject.content_rule_no_root'' = ''no-root''"
  "GetRuleNameFromID ex_env ''xccdf_org.ssgproject.content_rule_no-root'' = ''no-root''"
  by code_simp+

theorem first_of_a_name_is_kept_witness:
  "\<exists>s q. run_state (run_parser ex_clash_pcfg) ex_stream_world = (Exit 0, s)
     \<and> length (stream_rules ex_clash_pcfg ex_clash_root) = 2
     \<and> k_Rules (ms_cluster (w_cluster s)) (nsn ''ns'' ''rhcos-no-root'') = Some q \<and> ru_Title q = ''First''
     \<and> (\<forall>k. k \<noteq> nsn ''ns'' ''rhcos-no-root'' \<longrightarrow> k_Rules (ms_cluster (w_cluster s)) k = None)"
proof -
  obtain out s where run: "run_state (run_parser ex_clash_pcfg) ex_stream_world = (out, s)" by fastforce
  have "pc_Client ex_clash_pcfg = mem_client" by (simp add: ex_clash_pcfg_def ex_client)
  then have server: "api_server (pc_Client ex_clash_pcfg) ms_cluster (\<lambda>_. True)" using mem.api_server_axioms by simp
  have of: "parser_of ex_bundle ex_clash_pcfg" using ex_parser_of by (simp add: parser_of_def ex_clash_pcfg_def)
  have empty: "k_Rules (ms_cluster (w_cluster ex_stream_world)) = Map.empty"
    by (simp add: ex_stream_world_def)
  from ex_clash_rules obtain r1 r2 where rules: "stream_error ex_clash_pcfg ex_clash_root = None"
    "stream_rules ex_clash_pcfg ex_clash_root = [r1, r2]" "ru_ID r1 = ''xccdf_org.ssgproject.content_rule_no_root''"
    "ru_Title r1 = ''First''" "ru_ID r2 = ''xccdf_org.ssgproject.content_rule_no-root''" by blast
  have "rule_object_name ex_clash_pcfg ex_bundle (ru_ID x) = ''rhcos-no-root''" if "x \<in> {r1, r2}" for x
    using that rules ex_clash_names
    by (auto simp: rule_object_name_def ex_clash_pcfg_def ex_pcfg_def ex_bundle_def ex_meta_def zero_meta_def)
  moreover have "om_Namespace (pb_Meta ex_bundle) = ''ns''" by (simp add: ex_bundle_def ex_meta_def zero_meta_def)
  ultimately have first: "first_named ex_bundle (rule_object_name ex_clash_pcfg ex_bundle \<circ> ru_ID) [r1, r2] k
      = (if k = nsn ''ns'' ''rhcos-no-root'' then Some r1 else None)" for k
    by (simp add: first_named_def)
  from first_of_a_name_is_kept [OF server run_admitted_True of ex_stream_bundle ex_clash_stream rules(1) run refl refl]
  have out: "out = Exit 0" and all: "rel_option (\<lambda>q r. \<exists>m. q = r\<lparr>ru_Meta := m\<rparr>) (k_Rules (ms_cluster (w_cluster s)) k)
      (if k = nsn ''ns'' ''rhcos-no-root'' then Some r1 else None)" for k
    by (simp_all add: rules(2) first empty entry_after_def)
  from all [of "nsn ''ns'' ''rhcos-no-root''"] obtain q where
    "k_Rules (ms_cluster (w_cluster s)) (nsn ''ns'' ''rhcos-no-root'') = Some q" "ru_Title q = ''First''"
    using rules(4) by (auto simp: option_rel_Some2)
  moreover have "k_Rules (ms_cluster (w_cluster s)) k = None" if "k \<noteq> nsn ''ns'' ''rhcos-no-root''" for k
    using all [of k] that by simp
  ultimately show ?thesis using run out rules(2) by auto
qed

end
