(* ===== verification/Controller_Loop.thy ===== *)
theory Controller_Loop
  imports Operator Tailored_Profile_Converges Profile_Bundle_Correct
begin

text \<open>
  The loop around the reconcilers of a process: watch events become requests, requests wait in the
  work queue of their controller (\<open>client-go\<close>), a single worker of each controller
  (\<open>controller-runtime\<close>) reconciles one at a time, and what it writes leads to further events for
  every controller. A contract says when such loops come to rest, in every order of their steps.
\<close>

section \<open>The work queue\<close>

text \<open>
  \<open>workqueue.Type\<close>: the items to be processed in order, all items that need processing, and
  those being processed. An item in process that is added again waits until it is done.
\<close>

record work_queue =
  wq_queue :: "nsname list"
  wq_dirty :: "nsname set"
  wq_processing :: "nsname set"

definition queue_Add :: "nsname \<Rightarrow> work_queue \<Rightarrow> work_queue" where
  "queue_Add item q =
     (if item \<in> wq_dirty q then q
      else let q = q\<lparr>wq_dirty := insert item (wq_dirty q)\<rparr> in
           if item \<in> wq_processing q then q
           else q\<lparr>wq_queue := wq_queue q @ [item]\<rparr>)"

definition queue_Get :: "work_queue \<Rightarrow> (nsname \<times> work_queue) option" where
  "queue_Get q =
     (case wq_queue q of
        [] \<Rightarrow> None
      | item # rest \<Rightarrow>
          Some (item, q\<lparr>wq_queue := rest, wq_processing := insert item (wq_processing q),
                        wq_dirty := wq_dirty q - {item}\<rparr>))"

definition queue_Done :: "nsname \<Rightarrow> work_queue \<Rightarrow> work_queue" where
  "queue_Done item q =
     (let q = q\<lparr>wq_processing := wq_processing q - {item}\<rparr> in
      if item \<in> wq_dirty q then q\<lparr>wq_queue := wq_queue q @ [item]\<rparr> else q)"

definition empty_queue :: work_queue where
  "empty_queue = \<lparr>wq_queue = [], wq_dirty = {}, wq_processing = {}\<rparr>"

text \<open>Every item that needs processing is queued once, except while it is being processed.\<close>

definition queue_ok :: "work_queue \<Rightarrow> bool" where
  "queue_ok q \<longleftrightarrow> distinct (wq_queue q) \<and> set (wq_queue q) = wq_dirty q - wq_processing q"

lemma queue_ok_Add: "queue_ok q \<Longrightarrow> queue_ok (queue_Add item q)"
  by (auto simp: queue_ok_def queue_Add_def Let_def)

lemma queue_ok_Adds: "queue_ok q \<Longrightarrow> queue_ok (fold queue_Add items q)"
  by (induction items arbitrary: q) (simp_all add: queue_ok_Add)

lemma queue_ok_Get:
  "queue_ok q \<Longrightarrow> queue_Get q = Some (item, q') \<Longrightarrow> queue_ok q' \<and> item \<notin> wq_processing q"
  by (auto simp: queue_ok_def queue_Get_def split: list.splits)

lemma queue_ok_Done: "queue_ok q \<Longrightarrow> item \<in> wq_processing q \<Longrightarrow> queue_ok (queue_Done item q)"
  by (auto simp: queue_ok_def queue_Done_def Let_def)

lemma queue_Add_sets [simp]:
  "wq_dirty (queue_Add item q) = insert item (wq_dirty q)"
  "wq_processing (queue_Add item q) = wq_processing q"
  by (auto simp: queue_Add_def Let_def)

lemma queue_Adds_sets [simp]:
  "wq_dirty (fold queue_Add items q) = set items \<union> wq_dirty q"
  "wq_processing (fold queue_Add items q) = wq_processing q"
  by (induction items arbitrary: q) simp_all

lemma queue_Done_sets [simp]:
  "wq_dirty (queue_Done item q) = wq_dirty q"
  "wq_processing (queue_Done item q) = wq_processing q - {item}"
  by (auto simp: queue_Done_def Let_def)

lemma queue_Get_Some:
  "queue_Get q = Some (item, q') \<longleftrightarrow> (\<exists>rest. wq_queue q = item # rest
     \<and> q' = q\<lparr>wq_queue := rest, wq_processing := insert item (wq_processing q),
               wq_dirty := wq_dirty q - {item}\<rparr>)"
  by (auto simp: queue_Get_def split: list.split)

section \<open>Watches\<close>

fun watched_object :: "watched_kind \<Rightarrow> kobject \<Rightarrow> object_meta option" where
  "watched_object W_ProfileBundle (ProfileBundleObj x) = Some (pb_Meta x)"
| "watched_object W_Pod (PodObj x) = Some (pod_Meta x)"
| "watched_object W_TailoredProfile (TailoredProfileObj x) = Some (tp_Meta x)"
| "watched_object W_ConfigMap (ConfigMapObj x) = Some (cm_Meta x)"
| "watched_object _ _ = None"

text \<open>
  The request of an event, for each of the two handlers. An update brings the old and the new
  object; in this program both lead to the same request.
\<close>

fun handler_requests ::
  "(string \<Rightarrow> string \<Rightarrow> go_error + bool) \<Rightarrow> scheme \<Rightarrow> event_handler \<Rightarrow> object_meta \<Rightarrow> nsname list" where
  "handler_requests mapper sch EnqueueRequestForObject m = [key_of m]"
| "handler_requests mapper sch (EnqueueRequestForOwner isController t) m =
     (case GVKForObject t sch of
        Inl err \<Rightarrow> []
      | Inr k \<Rightarrow> getOwnerReconcileRequest mapper k isController m)"

definition requests_of ::
  "(string \<Rightarrow> string \<Rightarrow> go_error + bool) \<Rightarrow> scheme \<Rightarrow> (watched_kind \<times> event_handler) list
   \<Rightarrow> kobject \<Rightarrow> nsname list" where
  "requests_of mapper sch watches x = concat (map (\<lambda>(kind, handler).
     case watched_object kind x of None \<Rightarrow> [] | Some m \<Rightarrow> handler_requests mapper sch handler m) watches)"

definition tailored_watches :: "(watched_kind \<times> event_handler) list" where
  "tailored_watches = [(W_TailoredProfile, EnqueueRequestForObject),
     (W_ConfigMap, EnqueueRequestForOwner True T_TailoredProfile)]"

definition bundle_watches :: "(watched_kind \<times> event_handler) list" where
  "bundle_watches = [(W_ProfileBundle, EnqueueRequestForObject),
     (W_Pod, EnqueueRequestForOwner True T_ProfileBundle)]"

text \<open>These are the watches that the \<open>add\<close> functions set up.\<close>

fun watch_all ::
  "('m, 'w) manager \<Rightarrow> string \<Rightarrow> (watched_kind \<times> event_handler) list \<Rightarrow> 'm \<Rightarrow> go_error option \<times> 'm" where
  "watch_all mgr name [] m = (None, m)"
| "watch_all mgr name ((kind, handler) # ws) m =
     (case m_Watch mgr name kind handler m of
        (Some err, m') \<Rightarrow> (Some err, m')
      | (None, m') \<Rightarrow> watch_all mgr name ws m')"

lemma add_watches:
  "tailoredprofile_add mgr r m = (case m_New mgr ''tailoredprofile-controller'' (R_TailoredProfile r) m of
     (Some err, m) \<Rightarrow> (Some err, m)
   | (None, m) \<Rightarrow> watch_all mgr ''tailoredprofile-controller'' tailored_watches m)"
  "profilebundle_add mgr r' m = (case m_New mgr ''profilebundle-controller'' (R_ProfileBundle r') m of
     (Some err, m) \<Rightarrow> (Some err, m)
   | (None, m) \<Rightarrow> watch_all mgr ''profilebundle-controller'' bundle_watches m)"
  by (simp_all add: tailoredprofile_add_def profilebundle_add_def tailored_watches_def bundle_watches_def
      split: prod.split option.split)

section \<open>The loop\<close>

text \<open>A worker is idle, or has reconciled a request and not yet dealt with the result.\<close>

datatype worker = Idle | Reconciled nsname "go_panic + reconcile_return"

text \<open>
  For every controller, besides its queue: requests that are added after a delay, and events not
  delivered yet. The controllers share the world.
\<close>

record ('i, 'w) controller_loops =
  lo_queue :: "'i \<Rightarrow> work_queue"
  lo_waiting :: "'i \<Rightarrow> nsname list"
  lo_events :: "'i \<Rightarrow> kobject list"
  lo_worker :: "'i \<Rightarrow> worker"
  lo_world :: "'w world"

text \<open>\<open>reconcileHandler\<close>: which requests come back after a delay.\<close>

definition reconcileHandler :: "nsname \<Rightarrow> reconcile_return \<Rightarrow> nsname list \<Rightarrow> nsname list" where
  "reconcileHandler req answer waiting =
     (case answer of (result, err) \<Rightarrow>
        if err \<noteq> None then waiting @ [req]
        else if RequeueAfter result > 0 then waiting @ [req]
        else if Requeue result then waiting @ [req]
        else waiting)"

text \<open>The objects whose watchers hear of a list of writes, and those a controller asks about.\<close>

definition announced :: "api_write list \<Rightarrow> kobject list" where
  "announced ws = map wr_Object (succeeded ws)"

definition heard :: "(kobject \<Rightarrow> nsname list) \<Rightarrow> kobject list \<Rightarrow> kobject list" where
  "heard requests xs = filter (\<lambda>x. requests x \<noteq> []) xs"

text \<open>
  One step of one controller: an event is delivered, in any order; a delay ends; the idle worker
  takes the next request and reconciles, in an environment of its own; the worker deals with the
  result. A panic ends the process, so no step of that controller follows it. The label says what
  happened.
\<close>

datatype 'i loop_label =
    Delivered 'i kobject
  | Readded 'i nsname
  | Worked 'i nsname "go_panic + reconcile_return"
  | Finished 'i nsname reconcile_return

inductive loop_step ::
  "('i \<Rightarrow> kobject \<Rightarrow> nsname list)
   \<Rightarrow> ('i \<Rightarrow> 'e \<Rightarrow> nsname \<Rightarrow> ('w world, go_panic + reconcile_return) state)
   \<Rightarrow> ('i, 'w) controller_loops \<Rightarrow> 'i loop_label \<Rightarrow> ('i, 'w) controller_loops \<Rightarrow> bool"
  for requests reconcile where
  deliver: "lo_events s i = es @ x # es' \<Longrightarrow> loop_step requests reconcile s (Delivered i x)
     (s\<lparr>lo_events := (lo_events s)(i := es @ es'),
        lo_queue := (lo_queue s)(i := fold queue_Add (requests i x) (lo_queue s i))\<rparr>)"
| delayed: "lo_waiting s i = ks @ k # ks' \<Longrightarrow> loop_step requests reconcile s (Readded i k)
     (s\<lparr>lo_waiting := (lo_waiting s)(i := ks @ ks'),
        lo_queue := (lo_queue s)(i := queue_Add k (lo_queue s i))\<rparr>)"
| work: "lo_worker s i = Idle \<Longrightarrow> queue_Get (lo_queue s i) = Some (k, q)
     \<Longrightarrow> run_state (reconcile i env k) (lo_world s) = (out, w)
     \<Longrightarrow> xs = announced (drop (length (w_writes (lo_world s))) (w_writes w))
     \<Longrightarrow> loop_step requests reconcile s (Worked i k out)
     (s\<lparr>lo_queue := (lo_queue s)(i := q), lo_worker := (lo_worker s)(i := Reconciled k out),
        lo_world := w, lo_events := (\<lambda>j. lo_events s j @ heard (requests j) xs)\<rparr>)"
| finish: "lo_worker s i = Reconciled k (Inr answer) \<Longrightarrow>
     loop_step requests reconcile s (Finished i k answer)
     (s\<lparr>lo_worker := (lo_worker s)(i := Idle),
        lo_waiting := (lo_waiting s)(i := reconcileHandler k answer (lo_waiting s i)),
        lo_queue := (lo_queue s)(i := queue_Done k (lo_queue s i))\<rparr>)"

inductive_cases loop_stepE [consumes 1, case_names deliver delayed work finish]:
  "loop_step requests reconcile s l s'"

text \<open>A run, with the labels of its steps in order.\<close>

inductive loop_run ::
  "('i \<Rightarrow> kobject \<Rightarrow> nsname list)
   \<Rightarrow> ('i \<Rightarrow> 'e \<Rightarrow> nsname \<Rightarrow> ('w world, go_panic + reconcile_return) state)
   \<Rightarrow> ('i, 'w) controller_loops \<Rightarrow> 'i loop_label list \<Rightarrow> ('i, 'w) controller_loops \<Rightarrow> bool"
  for requests reconcile s where
  no_step: "loop_run requests reconcile s [] s"
| one_more: "loop_run requests reconcile s ls s' \<Longrightarrow> loop_step requests reconcile s' l s''
     \<Longrightarrow> loop_run requests reconcile s (ls @ [l]) s''"

definition stuck ::
  "('i \<Rightarrow> kobject \<Rightarrow> nsname list)
   \<Rightarrow> ('i \<Rightarrow> 'e \<Rightarrow> nsname \<Rightarrow> ('w world, go_panic + reconcile_return) state)
   \<Rightarrow> ('i, 'w) controller_loops \<Rightarrow> bool" where
  "stuck requests reconcile s \<longleftrightarrow> (\<nexists>l s'. loop_step requests reconcile s l s')"

text \<open>A process just started whose controllers have heard of some objects.\<close>

definition started ::
  "('i \<Rightarrow> kobject \<Rightarrow> nsname list) \<Rightarrow> kobject list \<Rightarrow> 'w world \<Rightarrow> ('i, 'w) controller_loops" where
  "started requests xs w =
     \<lparr>lo_queue = (\<lambda>_. empty_queue), lo_waiting = (\<lambda>_. []), lo_events = (\<lambda>i. heard (requests i) xs),
      lo_worker = (\<lambda>_. Idle), lo_world = w\<rparr>"

definition at_rest :: "('i, 'w) controller_loops \<Rightarrow> bool" where
  "at_rest s \<longleftrightarrow> (\<forall>i. lo_queue s i = empty_queue \<and> lo_waiting s i = [] \<and> lo_events s i = []
     \<and> lo_worker s i = Idle)"

definition worker_ok :: "('i, 'w) controller_loops \<Rightarrow> 'i \<Rightarrow> bool" where
  "worker_ok s i \<longleftrightarrow> queue_ok (lo_queue s i) \<and> wq_processing (lo_queue s i) =
     (case lo_worker s i of Idle \<Rightarrow> {} | Reconciled k out \<Rightarrow> {k})"

lemma worker_ok_step:
  assumes "loop_step requests reconcile s l s'" and "\<forall>i. worker_ok s i"
  shows "\<forall>i. worker_ok s' i"
  using assms(1)
proof (cases rule: loop_stepE)
  case (work i k q env out w)
  with assms(2) have "queue_ok (lo_queue s i)" "wq_processing (lo_queue s i) = {}" by (auto simp: worker_ok_def)
  with queue_ok_Get [OF this(1) work(4)] work assms(2) show ?thesis
    by (auto simp: worker_ok_def queue_Get_Some)
qed (use assms(2) in \<open>auto simp: worker_ok_def queue_ok_Add queue_ok_Adds queue_ok_Done\<close>)

lemma worker_ok_started: "worker_ok (started requests xs w) i"
  by (simp add: worker_ok_def started_def empty_queue_def queue_ok_def)

lemma worker_ok_run: "loop_run requests reconcile s ls s' \<Longrightarrow> \<forall>i. worker_ok s i \<Longrightarrow> \<forall>i. worker_ok s' i"
  by (induction rule: loop_run.induct) (simp, metis worker_ok_step)

text \<open>
  C38: whatever the reconcilers, the server and the order of the steps, the work queues stay
  consistent: no request is queued twice, a queue holds the requests that still need processing
  except one that is being processed, and only the request of the busy worker is.
\<close>

theorem loop_queue_invariant:
  assumes "loop_run requests reconcile (started requests xs w) ls s"
  shows "distinct (wq_queue (lo_queue s i))
    \<and> set (wq_queue (lo_queue s i)) = wq_dirty (lo_queue s i) - wq_processing (lo_queue s i)
    \<and> wq_processing (lo_queue s i) = (case lo_worker s i of Idle \<Rightarrow> {} | Reconciled k out \<Rightarrow> {k})"
proof -
  have "worker_ok s i" using worker_ok_run [OF assms] by (simp add: worker_ok_started)
  then show ?thesis by (simp add: worker_ok_def queue_ok_def)
qed

theorem loop_queue_invariant_witness:
  "\<exists>s. loop_run (\<lambda>_ _. [nsn ''ns'' ''a'', nsn ''ns'' ''b'', nsn ''ns'' ''a''])
        (\<lambda>(_ :: unit) (_ :: unit). Reconcile ex_reconciler)
        (started (\<lambda>_ _. [nsn ''ns'' ''a'', nsn ''ns'' ''b'', nsn ''ns'' ''a'']) [TailoredProfileObj ex_request] ex_world)
        [Delivered () (TailoredProfileObj ex_request)] s
     \<and> distinct (wq_queue (lo_queue s ())) \<and> wq_queue (lo_queue s ()) = [nsn ''ns'' ''a'', nsn ''ns'' ''b'']"
proof -
  let ?requests = "\<lambda>(_ :: unit) (_ :: kobject). [nsn ''ns'' ''a'', nsn ''ns'' ''b'', nsn ''ns'' ''a'']"
  let ?rec = "\<lambda>(_ :: unit) (_ :: unit). Reconcile ex_reconciler"
  let ?s = "started ?requests [TailoredProfileObj ex_request] ex_world"
  have "lo_events ?s () = [] @ TailoredProfileObj ex_request # []" by (simp add: started_def heard_def)
  from one_more [OF no_step deliver [OF this, of ?requests ?rec]] obtain s where
    run: "loop_run ?requests ?rec ?s [Delivered () (TailoredProfileObj ex_request)] s"
    and s: "lo_queue s () = fold queue_Add [nsn ''ns'' ''a'', nsn ''ns'' ''b'', nsn ''ns'' ''a''] (lo_queue ?s ())"
    by (simp del: fold.simps)
  have "wq_queue (lo_queue s ()) = [nsn ''ns'' ''a'', nsn ''ns'' ''b'']"
    by (simp add: s started_def empty_queue_def queue_Add_def Let_def)
  with run loop_queue_invariant [OF run, of "()"] show ?thesis by blast
qed

section \<open>No request is lost\<close>

text \<open>The labels of a run that concern one request of one controller.\<close>

fun about ::
  "('i \<Rightarrow> kobject \<Rightarrow> nsname list) \<Rightarrow> 'i \<Rightarrow> nsname \<Rightarrow> 'i loop_label \<Rightarrow> bool" where
  "about requests i k (Delivered j x) \<longleftrightarrow> j = i \<and> k \<in> set (requests i x)"
| "about requests i k (Readded j k') \<longleftrightarrow> j = i \<and> k' = k"
| "about requests i k (Worked j k' out) \<longleftrightarrow> j = i \<and> k' = k"
| "about requests i k (Finished j k' answer) \<longleftrightarrow> j = i \<and> k' = k"

definition dealt_with :: "reconcile_return \<Rightarrow> bool" where
  "dealt_with answer \<longleftrightarrow>
     snd answer = None \<and> RequeueAfter (fst answer) \<le> 0 \<and> \<not> Requeue (fst answer)"

lemma reconcileHandler_eq:
  "reconcileHandler k answer waiting = (if dealt_with answer then waiting else waiting @ [k])"
  by (auto simp: reconcileHandler_def dealt_with_def split: prod.split)

text \<open>
  What is known of a request from the labels about it: it is due, or being worked on since the
  last of them, or it never came up, or the last that happened was that it was dealt with.
\<close>

definition concluded :: "'i \<Rightarrow> nsname \<Rightarrow> 'i loop_label list \<Rightarrow> bool" where
  "concluded i k ls \<longleftrightarrow>
     (\<exists>us answer. ls = us @ [Worked i k (Inr answer), Finished i k answer] \<and> dealt_with answer)"

definition accounted ::
  "('i, 'w) controller_loops \<Rightarrow> 'i \<Rightarrow> nsname \<Rightarrow> 'i loop_label list \<Rightarrow> bool" where
  "accounted s i k ls \<longleftrightarrow>
     k \<in> wq_dirty (lo_queue s i) \<or> k \<in> set (lo_waiting s i)
     \<or> (case lo_worker s i of
          Idle \<Rightarrow> ls = [] \<or> concluded i k ls
        | Reconciled k' out \<Rightarrow> if k' = k then \<exists>us. ls = us @ [Worked i k out] else ls = [] \<or> concluded i k ls)"

lemma accounted_step:
  assumes "loop_step requests reconcile s l s'" and "accounted s i k (filter (about requests i k) ls)"
  shows "accounted s' i k (filter (about requests i k) (ls @ [l]))"
  using assms(1)
proof (cases rule: loop_stepE)
  case (deliver j es x es')
  with assms(2) show ?thesis by (auto simp: accounted_def split: worker.splits)
next
  case (delayed j ks k' ks')
  with assms(2) show ?thesis by (cases "j = i \<and> k' = k") (auto simp: accounted_def split: worker.splits)
next
  case (work j k' q env out w)
  with assms(2) show ?thesis
    by (cases "j = i \<and> k' = k") (auto simp: accounted_def queue_Get_Some split: worker.splits)
next
  case (finish j k' answer)
  show ?thesis
  proof (cases "j = i \<and> k' = k")
    case True
    with finish assms(2) show ?thesis
      by (cases answer) (auto simp: accounted_def reconcileHandler_eq concluded_def)
  next
    case False
    with finish assms(2) show ?thesis by (auto simp: accounted_def reconcileHandler_eq split: worker.splits)
  qed
qed

text \<open>
  C12: no request is lost, whatever the reconcilers and the server do. In every run that comes to
  rest, in any order of its steps, the last thing that happened to every request that ever came up,
  by an event, after a delay or on its own, is that it was reconciled, after everything else, and
  that this reconciliation returned no error and asked for nothing more.
\<close>

theorem no_request_lost:
  assumes "loop_run requests reconcile (started requests xs w) ls s" and "at_rest s"
    and "filter (about requests i k) ls \<noteq> []"
  shows "\<exists>us answer. filter (about requests i k) ls = us @ [Worked i k (Inr answer), Finished i k answer]
    \<and> dealt_with answer"
proof -
  have "accounted s i k (filter (about requests i k) ls)"
    using assms(1)
  proof (induction rule: loop_run.induct)
    case no_step
    show ?case by (simp add: accounted_def started_def empty_queue_def)
  next
    case (one_more ls s' l s'')
    then show ?case by (blast intro: accounted_step)
  qed
  with assms(2,3) show ?thesis by (auto simp: accounted_def concluded_def at_rest_def empty_queue_def)
qed

lemma ex_gone: "run_state (Reconcile ex_reconciler (nsn ''ns'' ''gone'')) ex_world = (finished, ex_world)"
  by (simp add: Reconcile_def ex_reconciler_def mem_reconciler_def ex_world_def ex_cluster_def go_run
      mem_client_def mem_get_def not_found_def IsNotFound_def ReasonForError_def)

theorem no_request_lost_witness:
  "\<exists>s. loop_run (\<lambda>_ _. [nsn ''ns'' ''gone'']) (\<lambda>(_ :: unit) (_ :: unit). Reconcile ex_reconciler)
        (started (\<lambda>_ _. [nsn ''ns'' ''gone'']) [TailoredProfileObj ex_request] ex_world)
        [Delivered () (TailoredProfileObj ex_request), Worked () (nsn ''ns'' ''gone'') finished,
         Finished () (nsn ''ns'' ''gone'') (Result0, None)] s
     \<and> at_rest s \<and> dealt_with (Result0, None)"
proof -
  let ?k = "nsn ''ns'' ''gone''"
  let ?requests = "\<lambda>(_ :: unit) (_ :: kobject). [?k]" and ?rec = "\<lambda>(_ :: unit) (_ :: unit). Reconcile ex_reconciler"
  let ?x = "TailoredProfileObj ex_request"
  let ?s = "started ?requests [?x] ex_world"
  have "lo_events ?s () = [] @ ?x # []" by (simp add: started_def heard_def)
  note run1 = one_more [OF no_step deliver [OF this, of ?requests ?rec]]
  obtain s1 where run1: "loop_run ?requests ?rec ?s [Delivered () ?x] s1"
    and s1: "lo_events s1 () = []" "lo_waiting s1 () = []" "lo_worker s1 () = Idle" "lo_world s1 = ex_world"
      "lo_queue s1 () = \<lparr>wq_queue = [?k], wq_dirty = {?k}, wq_processing = {}\<rparr>"
    using run1 by (auto simp: started_def empty_queue_def queue_Add_def Let_def)
  have get: "queue_Get (lo_queue s1 ()) = Some (?k, \<lparr>wq_queue = [], wq_dirty = {}, wq_processing = {?k}\<rparr>)"
    by (simp add: s1 queue_Get_def)
  have gone: "run_state (?rec () () ?k) (lo_world s1) = (finished, ex_world)" by (simp add: s1 ex_gone)
  obtain s2 where run2: "loop_run ?requests ?rec ?s [Delivered () ?x, Worked () ?k finished] s2"
    and s2: "lo_events s2 () = []" "lo_waiting s2 () = []" "lo_worker s2 () = Reconciled ?k (Inr (Result0, None))"
      "lo_queue s2 () = \<lparr>wq_queue = [], wq_dirty = {}, wq_processing = {?k}\<rparr>"
    using one_more [OF run1 work [where i = "()" and reconcile = ?rec and env = "()", OF s1(3) get gone refl]] s1 by (auto simp: announced_def heard_def)
  obtain s3 where run3: "loop_run ?requests ?rec ?s [Delivered () ?x, Worked () ?k finished, Finished () ?k (Result0, None)] s3"
    and s3: "at_rest s3"
    using one_more [OF run2 finish [OF s2(3)]] s2
    by (auto simp: at_rest_def reconcileHandler_def Result0_def queue_Done_def empty_queue_def Let_def)
  have "filter (about ?requests () ?k) [Delivered () ?x, Worked () ?k finished, Finished () ?k (Result0, None)] \<noteq> []" by simp
  from no_request_lost [OF run3 s3 this] have "dealt_with (Result0, None)" by auto
  with run3 s3 show ?thesis by blast
qed

section \<open>When the loops come to rest\<close>

lemma loop_run_bounded_ends:
  assumes "\<And>ls s'. loop_run requests reconcile s ls s' \<Longrightarrow> length ls \<le> b"
  shows "\<exists>ls s'. loop_run requests reconcile s ls s' \<and> stuck requests reconcile s'"
proof (rule ccontr)
  assume none: "\<nexists>ls s'. loop_run requests reconcile s ls s' \<and> stuck requests reconcile s'"
  have "\<exists>ls s'. loop_run requests reconcile s ls s' \<and> length ls = m" for m
  proof (induction m)
    case 0
    show ?case using no_step by fastforce
  next
    case (Suc m)
    then obtain ls s' where run: "loop_run requests reconcile s ls s'" "length ls = m" by blast
    with none obtain l s'' where "loop_step requests reconcile s' l s''" unfolding stuck_def by blast
    with run show ?case by (metis one_more length_append_singleton)
  qed
  from this [of "Suc b"] assms show False by fastforce
qed

lemma sum_less_at:
  fixes f g :: "'i::finite \<Rightarrow> nat"
  assumes "f i < g i" and "\<And>j. j \<noteq> i \<Longrightarrow> f j = g j"
  shows "sum f UNIV < sum g UNIV"
  using assms by (intro sum_strict_mono_ex1) (auto, metis less_or_eq_imp_le order_refl)

lemma sum_le_at:
  fixes f g :: "'i::finite \<Rightarrow> nat"
  assumes "f i \<le> g i + d" and "\<And>j. j \<noteq> i \<Longrightarrow> f j = g j"
  shows "sum f UNIV \<le> sum g UNIV + d"
proof -
  have "sum f UNIV = f i + sum f (UNIV - {i})" "sum g UNIV = g i + sum g (UNIV - {i})"
    by (simp_all add: sum.remove)
  moreover have "sum f (UNIV - {i}) = sum g (UNIV - {i})" using assms(2) by (intro sum.cong) auto
  ultimately show ?thesis using assms(1) by linarith
qed

text \<open>The steps that some work left on an instance can still lead to.\<close>

definition cost :: "nat \<Rightarrow> nat" where
  "cost m = (if m = 0 then 0 else 3 * m + 3)"

text \<open>The reconciliations of a run that came back with a refusal.\<close>

fun held_up_by :: "(go_error \<Rightarrow> bool) \<Rightarrow> 'i loop_label \<Rightarrow> bool" where
  "held_up_by refusal (Worked i k out) \<longleftrightarrow> refused refusal out"
| "held_up_by refusal l \<longleftrightarrow> False"

definition hold_ups :: "(go_error \<Rightarrow> bool) \<Rightarrow> 'i loop_label list \<Rightarrow> nat" where
  "hold_ups refusal ls = length (filter (held_up_by refusal) ls)"

lemma hold_ups_reliable [simp]:
  fixes ls :: "'i loop_label list"
  shows "hold_ups (\<lambda>_. False) ls = 0"
proof -
  have "\<not> held_up_by (\<lambda>_. False) l" for l :: "'i loop_label" by (cases l) simp_all
  then show ?thesis by (simp add: hold_ups_def filter_empty_conv)
qed

lemma hold_ups_simps [simp]:
  "hold_ups refusal [] = 0"
  "hold_ups refusal (ls @ [l]) = hold_ups refusal ls + of_bool (held_up_by refusal l)"
  by (simp_all add: hold_ups_def)

text \<open>
  The contract: for each of the requests in question a measure of the work left on its instance.
  A reconciliation of one either succeeds and does one unit of its work, with at least one write
  while there is work and none otherwise; or it comes back with a refusal, after at most one
  write, and the work is still to be done. Every write that goes through leads to a request of the
  same controller for the same instance and to no other.
\<close>

locale settling =
  fixes requests :: "'i::finite \<Rightarrow> kobject \<Rightarrow> nsname list"
    and reconcile :: "'i \<Rightarrow> 'e \<Rightarrow> nsname \<Rightarrow> ('w world, go_panic + reconcile_return) state"
    and refusal :: "go_error \<Rightarrow> bool"
    and keys :: "('i \<times> nsname) set"
    and left :: "('i \<times> nsname \<Rightarrow> nat) \<Rightarrow> 'w world \<Rightarrow> bool"
  assumes finite_keys: "finite keys"
    and reconciles: "left n w \<Longrightarrow> (i, k) \<in> keys \<Longrightarrow> run_state (reconcile i env k) w = (out, w') \<Longrightarrow>
      \<exists>ws. w_writes w' = w_writes w @ ws
        \<and> list_all (\<lambda>x. \<forall>j. requests j x = (if j = i then [k] else [])) (announced ws)
        \<and> (out = finished \<and> left (n((i, k) := n (i, k) - 1)) w'
             \<and> length (announced ws) \<le> of_bool (n (i, k) \<noteq> 0) + of_bool (n (i, k) = 1)
             \<and> (n (i, k) \<noteq> 0 \<longrightarrow> announced ws \<noteq> [])
           \<or> refused refusal out \<and> left n w' \<and> length (announced ws) \<le> 1)"
begin

definition due :: "('i, 'w) controller_loops \<Rightarrow> 'i \<times> nsname \<Rightarrow> bool" where
  "due s x \<longleftrightarrow> (\<exists>e \<in> set (lo_events s (fst x)). requests (fst x) e = [snd x])
     \<or> snd x \<in> wq_dirty (lo_queue s (fst x)) \<or> snd x \<in> set (lo_waiting s (fst x))
     \<or> (\<exists>out. lo_worker s (fst x) = Reconciled (snd x) out \<and> refused refusal out)"

definition known :: "'i \<Rightarrow> kobject list \<Rightarrow> bool" where
  "known i xs \<longleftrightarrow> list_all (\<lambda>e. \<exists>k. (i, k) \<in> keys \<and> requests i e = [k]) xs"

definition fine :: "('i, 'w) controller_loops \<Rightarrow> 'i \<Rightarrow> bool" where
  "fine s i \<longleftrightarrow> worker_ok s i \<and> (\<forall>k \<in> wq_dirty (lo_queue s i) \<union> set (lo_waiting s i). (i, k) \<in> keys)
     \<and> known i (lo_events s i)
     \<and> (lo_worker s i = Idle \<or> (\<exists>k out. (i, k) \<in> keys \<and> lo_worker s i = Reconciled k out
          \<and> (out = finished \<or> refused refusal out)))"

definition loop_inv :: "('i \<times> nsname \<Rightarrow> nat) \<Rightarrow> ('i, 'w) controller_loops \<Rightarrow> bool" where
  "loop_inv n s \<longleftrightarrow> left n (lo_world s) \<and> (\<forall>i. fine s i) \<and> (\<forall>x \<in> keys. n x \<noteq> 0 \<longrightarrow> due s x)"

lemma loop_invD:
  assumes "loop_inv n s"
  shows "left n (lo_world s)" "worker_ok s i" "k \<in> wq_dirty (lo_queue s i) \<Longrightarrow> (i, k) \<in> keys"
    "k \<in> set (lo_waiting s i) \<Longrightarrow> (i, k) \<in> keys" "known i (lo_events s i)" "x \<in> keys \<Longrightarrow> n x \<noteq> 0 \<Longrightarrow> due s x"
    "lo_worker s i = Idle \<or> (\<exists>k out. (i, k) \<in> keys \<and> lo_worker s i = Reconciled k out
       \<and> (out = finished \<or> refused refusal out))"
  using assms by (simp_all add: loop_inv_def fine_def)

lemma loop_invI:
  assumes "loop_inv n s" and "loop_step requests reconcile s l s'" and "left n' (lo_world s')"
    and "\<And>j. worker_ok s' j \<Longrightarrow> fine s' j" and "\<And>x. x \<in> keys \<Longrightarrow> n' x \<noteq> 0 \<Longrightarrow> due s' x"
  shows "loop_inv n' s'"
  using assms worker_ok_step [OF assms(2)] loop_invD(2) [OF assms(1)] by (simp add: loop_inv_def)

text \<open>
  Steps that are still possible: three for an event or a delayed request, two for a request, one
  for a result, and three more when it brings the request back.
\<close>

definition result_steps :: "worker \<Rightarrow> nat" where
  "result_steps v = (case v of Idle \<Rightarrow> 0 | Reconciled k out \<Rightarrow> if out = finished then 1 else 4)"

definition activity :: "('i, 'w) controller_loops \<Rightarrow> 'i \<Rightarrow> nat" where
  "activity s i = 3 * length (lo_events s i) + 3 * length (lo_waiting s i)
     + 2 * card (wq_dirty (lo_queue s i)) + result_steps (lo_worker s i)"

definition potential :: "('i \<times> nsname \<Rightarrow> nat) \<Rightarrow> ('i, 'w) controller_loops \<Rightarrow> nat" where
  "potential n s = sum (activity s) UNIV + (\<Sum>x \<in> keys. cost (n x))"

lemma finite_dirty: "loop_inv n s \<Longrightarrow> finite (wq_dirty (lo_queue s i))"
  by (rule finite_subset [of _ "snd ` keys"]) (force dest: loop_invD(3) simp: finite_keys)+

lemma cost_step:
  assumes "x \<in> keys"
  shows "(\<Sum>y \<in> keys. cost ((n(x := n x - 1)) y)) + cost (n x) = (\<Sum>y \<in> keys. cost (n y)) + cost (n x - 1)"
proof -
  have "(\<Sum>y \<in> keys - {x}. cost ((n(x := n x - 1)) y)) = (\<Sum>y \<in> keys - {x}. cost (n y))"
    by (intro sum.cong) auto
  then show ?thesis
    using sum.remove [OF finite_keys assms, of "\<lambda>y. cost (n y)"]
      sum.remove [OF finite_keys assms, of "\<lambda>y. cost ((n(x := n x - 1)) y)"] by simp
qed

lemma heard_one: "list_all (\<lambda>x. \<forall>j. requests j x = (if j = i then [k] else [])) xs
  \<Longrightarrow> heard (requests j) xs = (if j = i then xs else [])"
  by (induction xs) (auto simp: heard_def)

lemma card_insert_dirty: "finite A \<Longrightarrow> card (insert k A) \<le> Suc (card A)"
  by (simp add: card_insert_if)

lemma activity_less:
  "sum (activity s') UNIV < sum (activity s) UNIV \<Longrightarrow> potential n s' < potential n s"
  by (simp add: potential_def)

lemma deliver_progress:
  assumes "loop_inv n s" and "loop_step requests reconcile s l s'" and "lo_events s i = es @ x # es'"
    and s': "s' = s\<lparr>lo_events := (lo_events s)(i := es @ es'),
      lo_queue := (lo_queue s)(i := fold queue_Add (requests i x) (lo_queue s i))\<rparr>"
  shows "loop_inv n s' \<and> potential n s' < potential n s"
proof
  from assms(3) loop_invD(5) [OF assms(1), of i] obtain k where k: "(i, k) \<in> keys" "requests i x = [k]"
    by (auto simp: known_def)
  show "loop_inv n s'"
  proof (rule loop_invI [OF assms(1,2)])
    show "fine s' j" if "worker_ok s' j" for j
      using that assms(3) s' k loop_invD(3-5,7) [OF assms(1), where i = j]
      by (cases "j = i") (auto simp: fine_def known_def)
    show "due s' y" if "y \<in> keys" "n y \<noteq> 0" for y
      using assms(3) s' k loop_invD(6) [OF assms(1) that] by (cases "fst y = i") (auto simp: due_def)
  qed (use s' loop_invD(1) [OF assms(1)] in simp)
  have "card (wq_dirty (lo_queue s' i)) \<le> Suc (card (wq_dirty (lo_queue s i)))"
    using s' k by (simp add: card_insert_dirty finite_dirty [OF assms(1)])
  then show "potential n s' < potential n s"
    using assms(3) s' k by (intro activity_less sum_less_at [of _ i]) (simp_all add: activity_def)
qed

lemma delayed_progress:
  assumes "loop_inv n s" and "loop_step requests reconcile s l s'" and "lo_waiting s i = ks @ k # ks'"
    and s': "s' = s\<lparr>lo_waiting := (lo_waiting s)(i := ks @ ks'),
      lo_queue := (lo_queue s)(i := queue_Add k (lo_queue s i))\<rparr>"
  shows "loop_inv n s' \<and> potential n s' < potential n s"
proof
  have k: "(i, k) \<in> keys" using assms(3) loop_invD(4) [OF assms(1), of _ i] by simp
  show "loop_inv n s'"
  proof (rule loop_invI [OF assms(1,2)])
    show "fine s' j" if "worker_ok s' j" for j
      using that assms(3) s' k loop_invD(3-5,7) [OF assms(1), where i = j]
      by (cases "j = i") (auto simp: fine_def)
    show "due s' y" if "y \<in> keys" "n y \<noteq> 0" for y
      using assms(3) s' loop_invD(6) [OF assms(1) that] by (cases "fst y = i") (auto simp: due_def)
  qed (use s' loop_invD(1) [OF assms(1)] in simp)
  show "potential n s' < potential n s"
    using assms(3) s' card_insert_dirty [OF finite_dirty [OF assms(1)], of k i]
    by (intro activity_less sum_less_at [of _ i]) (simp_all add: activity_def)
qed

lemma finish_progress:
  assumes "loop_inv n s" and "loop_step requests reconcile s l s'" and "lo_worker s i = Reconciled k (Inr answer)"
    and s': "s' = s\<lparr>lo_worker := (lo_worker s)(i := Idle),
      lo_waiting := (lo_waiting s)(i := reconcileHandler k answer (lo_waiting s i)),
      lo_queue := (lo_queue s)(i := queue_Done k (lo_queue s i))\<rparr>"
  shows "loop_inv n s' \<and> potential n s' < potential n s"
proof
  from assms(3) loop_invD(7) [OF assms(1), of i] have k: "(i, k) \<in> keys"
    "answer = (Result0, None) \<or> (\<exists>e. refusal e \<and> answer = (Result0, Some e))" by (auto simp: refused_def)
  then have requeues: "reconcileHandler k answer ks = (if answer = (Result0, None) then ks else ks @ [k])" for ks
    by (auto simp: reconcileHandler_def Result0_def)
  show "loop_inv n s'"
  proof (rule loop_invI [OF assms(1,2)])
    show "fine s' j" if "worker_ok s' j" for j
      using that assms(3) s' k(1) loop_invD(3-5,7) [OF assms(1), where i = j]
      by (cases "j = i") (auto simp: fine_def requeues)
    show "due s' y" if "y \<in> keys" "n y \<noteq> 0" for y
      using assms(3) s' k(2) loop_invD(6) [OF assms(1) that]
      by (cases "fst y = i") (auto simp: due_def requeues refused_def)
  qed (use s' loop_invD(1) [OF assms(1)] in simp)
  show "potential n s' < potential n s"
    using assms(3) s'
    by (intro activity_less sum_less_at [of _ i]) (simp_all add: activity_def result_steps_def requeues)
qed

text \<open>A reconciliation, whether it did a unit of the work or was held up.\<close>

lemma unit_progress:
  assumes "loop_inv n s" and "loop_step requests reconcile s l s'" and key: "(i, k) \<in> keys"
    and "\<And>j. worker_ok s' j \<Longrightarrow> fine s' j"
    and "\<And>y. y \<in> keys \<Longrightarrow> n y \<noteq> 0 \<Longrightarrow> y \<noteq> (i, k) \<Longrightarrow> due s' y"
    and "sum (activity s') UNIV + 2 \<le> sum (activity s) UNIV
      + (3 * length xs + result_steps (Reconciled k finished))"
    and "left (n((i, k) := n (i, k) - 1)) (lo_world s')"
    and "set xs \<subseteq> set (lo_events s' i)" and "\<forall>x \<in> set xs. requests i x = [k]"
    and "length xs \<le> of_bool (n (i, k) \<noteq> 0) + of_bool (n (i, k) = 1)" and "n (i, k) \<noteq> 0 \<longrightarrow> xs \<noteq> []"
  shows "\<exists>n'. loop_inv n' s' \<and> potential n' s' < potential n s"
proof -
  let ?n = "n((i, k) := n (i, k) - 1)"
  have "loop_inv ?n s'"
  proof (rule loop_invI [OF assms(1,2)])
    show "due s' y" if y: "y \<in> keys" "?n y \<noteq> 0" for y
    proof (cases "y = (i, k)")
      case True
      with y assms(11) have "xs \<noteq> []" by auto
      with assms(8,9) True show ?thesis by (cases xs) (auto simp: due_def)
    qed (use assms(5) y in simp)
  qed (use assms(4,7) in simp_all)
  moreover have "cost (n (i, k) - 1) + 3 * length xs \<le> cost (n (i, k))"
    using assms(10) by (auto simp: cost_def of_bool_def split: if_splits)
  ultimately show ?thesis
    using cost_step [OF key, of n] assms(6) unfolding potential_def
    by (intro exI [of _ ?n]) (simp add: result_steps_def)
qed

lemma held_up_progress:
  assumes "loop_inv n s" and "loop_step requests reconcile s l s'" and "lo_worker s' i = Reconciled k out"
    and "\<And>j. worker_ok s' j \<Longrightarrow> fine s' j"
    and "\<And>y. y \<in> keys \<Longrightarrow> n y \<noteq> 0 \<Longrightarrow> y \<noteq> (i, k) \<Longrightarrow> due s' y"
    and "sum (activity s') UNIV + 2 \<le> sum (activity s) UNIV + (3 * a + result_steps (Reconciled k out))"
    and "refused refusal out" and "left n (lo_world s')" and "a \<le> 1"
  shows "loop_inv n s' \<and> potential n s' < potential n s + 6"
proof
  show "loop_inv n s'"
  proof (rule loop_invI [OF assms(1,2)])
    show "due s' y" if "y \<in> keys" "n y \<noteq> 0" for y
      using assms(5) [OF that] assms(3,7) by (cases "y = (i, k)") (auto simp: due_def)
  qed (use assms(4,8) in simp_all)
  have "result_steps (Reconciled k out) \<le> 4" by (simp add: result_steps_def)
  then show "potential n s' < potential n s + 6"
    using assms(6,9) unfolding potential_def by linarith
qed

lemma work_progress:
  assumes "loop_inv n s" and "loop_step requests reconcile s (Worked i k out) s'"
    and "lo_worker s i = Idle" and "queue_Get (lo_queue s i) = Some (k, q)"
    and "run_state (reconcile i env k) (lo_world s) = (out, w)"
    and s': "s' = s\<lparr>lo_queue := (lo_queue s)(i := q), lo_worker := (lo_worker s)(i := Reconciled k out),
      lo_world := w, lo_events := (\<lambda>j. lo_events s j
        @ heard (requests j) (announced (drop (length (w_writes (lo_world s))) (w_writes w))))\<rparr>"
  shows "\<exists>n'. loop_inv n' s' \<and> potential n' s' < potential n s + 6 * of_bool (refused refusal out)"
proof -
  from assms(4) obtain rest where q: "wq_queue (lo_queue s i) = k # rest"
    "wq_dirty q = wq_dirty (lo_queue s i) - {k}" by (auto simp: queue_Get_Some)
  have "queue_ok (lo_queue s i)" using loop_invD(2) [OF assms(1)] by (simp add: worker_ok_def)
  with q(1) have dirty: "k \<in> wq_dirty (lo_queue s i)" by (auto simp: queue_ok_def)
  note key = loop_invD(3) [OF assms(1) dirty] and now = loop_invD(1) [OF assms(1)]
  from reconciles [OF now key assms(5)] obtain ws where ws: "w_writes w = w_writes (lo_world s) @ ws"
      "list_all (\<lambda>x. \<forall>j. requests j x = (if j = i then [k] else [])) (announced ws)"
    and out: "out = finished \<and> left (n((i, k) := n (i, k) - 1)) w
        \<and> length (announced ws) \<le> of_bool (n (i, k) \<noteq> 0) + of_bool (n (i, k) = 1)
        \<and> (n (i, k) \<noteq> 0 \<longrightarrow> announced ws \<noteq> [])
      \<or> refused refusal out \<and> left n w \<and> length (announced ws) \<le> 1" by blast
  have told: "lo_events s' j = lo_events s j @ (if j = i then announced ws else [])" for j
    using s' ws(1) heard_one [OF ws(2)] by simp
  have fine: "fine s' j" if "worker_ok s' j" for j
    using that s' out key q(2) told [of j] ws(2) loop_invD(3-5,7) [OF assms(1), where i = j]
    by (cases "j = i") (auto simp: fine_def known_def list_all_iff)
  have other: "due s' y" if "y \<in> keys" "n y \<noteq> 0" "y \<noteq> (i, k)" for y
    using that loop_invD(6) [OF assms(1) that(1,2)] s' assms(3) q(2) told [of "fst y"]
    by (cases y) (auto simp: due_def)
  have "Suc (card (wq_dirty q)) = card (wq_dirty (lo_queue s i))"
    unfolding q(2) using dirty finite_dirty [OF assms(1)] by (metis card_Suc_Diff1)
  then have count: "sum (activity s') UNIV + 2 \<le> sum (activity s) UNIV
      + (3 * length (announced ws) + result_steps (Reconciled k out))"
    using s' assms(3) told sum_le_at [of "\<lambda>j. activity s' j + (if j = i then 2 else 0)" i "activity s"
        "3 * length (announced ws) + result_steps (Reconciled k out)"]
    by (simp add: activity_def sum.distrib result_steps_def)
  have asked: "set (announced ws) \<subseteq> set (lo_events s' i)" "\<forall>x \<in> set (announced ws). requests i x = [k]"
    using told [of i] ws(2) by (auto simp: list_all_iff)
  from out show ?thesis
    using unit_progress [OF assms(1,2) key fine other _ _ asked] count s'
      held_up_progress [OF assms(1,2) _ fine other count, of i] by fastforce
qed

lemma step_progress:
  assumes "loop_step requests reconcile s l s'" and "loop_inv n s"
  shows "\<exists>n'. loop_inv n' s' \<and> potential n' s' < potential n s + 6 * of_bool (held_up_by refusal l)"
  using assms(1)
proof (cases rule: loop_stepE)
  case (deliver i es x es')
  from deliver_progress [OF assms(2,1) this(3,2)] show ?thesis using trans_less_add1 by blast
next
  case (delayed i ks k ks')
  from delayed_progress [OF assms(2,1) this(3,2)] show ?thesis using trans_less_add1 by blast
next
  case (finish i k answer)
  from finish_progress [OF assms(2,1) this(3,2)] show ?thesis using trans_less_add1 by blast
next
  case (work i k q env out w)
  from work_progress [OF assms(2) assms(1) [unfolded work(1)] work(3-5,2)] show ?thesis
    by (simp add: work(1))
qed

lemma run_progress:
  "loop_run requests reconcile s ls s' \<Longrightarrow> loop_inv n s
    \<Longrightarrow> \<exists>n'. loop_inv n' s' \<and> length ls + potential n' s' \<le> potential n s + 6 * hold_ups refusal ls"
proof (induction rule: loop_run.induct)
  case no_step
  then show ?case by auto
next
  case (one_more ls s' l s'')
  then obtain n' where n': "loop_inv n' s'"
    "length ls + potential n' s' \<le> potential n s + 6 * hold_ups refusal ls" by blast
  from step_progress [OF one_more.hyps(2) this(1)] obtain n'' where
    "loop_inv n'' s''" "potential n'' s'' < potential n' s' + 6 * of_bool (held_up_by refusal l)" by blast
  with n'(2) show ?case by (intro exI [of _ n'']) auto
qed

lemma stuck_at_rest:
  assumes "loop_inv n s" and "stuck requests reconcile s"
  shows "at_rest s \<and> (\<forall>x \<in> keys. n x = 0)"
proof -
  have none: "\<not> loop_step requests reconcile s l s'" for l s' using assms(2) by (simp add: stuck_def)
  have one: "lo_queue s i = empty_queue \<and> lo_events s i = [] \<and> lo_waiting s i = [] \<and> lo_worker s i = Idle" for i
  proof -
    have waiting: "lo_waiting s i = []"
      using none delayed [of s i "[]" _ _ requests reconcile] by (cases "lo_waiting s i") auto
    have events: "lo_events s i = []"
      using none deliver [of s i "[]" _ _ requests reconcile] by (cases "lo_events s i") auto
    have idle: "lo_worker s i = Idle"
      using none finish [of s i] loop_invD(7) [OF assms(1), of i] unfolding refused_def by blast
    have "queue_Get (lo_queue s i) = None"
    proof (rule ccontr)
      assume "queue_Get (lo_queue s i) \<noteq> None"
      then obtain j q where "queue_Get (lo_queue s i) = Some (j, q)" by auto
      moreover obtain out w where "run_state (reconcile i undefined j) (lo_world s) = (out, w)" by fastforce
      ultimately show False using none work [where reconcile = reconcile, OF idle _ _ refl] by blast
    qed
    then have "wq_queue (lo_queue s i) = []" by (auto simp: queue_Get_def split: list.splits)
    with idle events waiting loop_invD(2) [OF assms(1), of i] show ?thesis
      by (cases "lo_queue s i") (auto simp: worker_ok_def queue_ok_def empty_queue_def)
  qed
  have "n x = 0" if "x \<in> keys" for x
    using loop_invD(6) [OF assms(1) that] one [of "fst x"] by (auto simp: due_def empty_queue_def)
  with one show ?thesis by (simp add: at_rest_def)
qed

text \<open>
  From a start where every object heard is one of the instances, and every instance with work left
  has been heard of.
\<close>

definition posed :: "('i \<times> nsname \<Rightarrow> nat) \<Rightarrow> kobject list \<Rightarrow> bool" where
  "posed n xs \<longleftrightarrow> (\<forall>i. known i (heard (requests i) xs))
     \<and> (\<forall>x \<in> keys. n x \<noteq> 0 \<longrightarrow> (\<exists>e \<in> set xs. requests (fst x) e = [snd x]))"

lemma settles:
  assumes "left n w" and "posed n xs" and "loop_run requests reconcile (started requests xs w) ls s"
  shows "length ls \<le> (\<Sum>i \<in> UNIV. 3 * length (heard (requests i) xs)) + (\<Sum>x \<in> keys. cost (n x))
      + 6 * hold_ups refusal ls"
    and "stuck requests reconcile s \<Longrightarrow> at_rest s \<and> (\<exists>n'. left n' (lo_world s) \<and> (\<forall>x \<in> keys. n' x = 0))"
proof -
  have "loop_inv n (started requests xs w)"
    using assms(1,2) worker_ok_started [of requests xs w]
    by (force simp: loop_inv_def fine_def started_def empty_queue_def posed_def due_def heard_def)
  from run_progress [OF assms(3) this] obtain n' where n': "loop_inv n' s"
    "length ls + potential n' s \<le> potential n (started requests xs w) + 6 * hold_ups refusal ls" by blast
  then show "length ls \<le> (\<Sum>i \<in> UNIV. 3 * length (heard (requests i) xs)) + (\<Sum>x \<in> keys. cost (n x))
      + 6 * hold_ups refusal ls"
    by (simp add: potential_def activity_def result_steps_def started_def empty_queue_def)
  show "at_rest s \<and> (\<exists>n'. left n' (lo_world s) \<and> (\<forall>x \<in> keys. n' x = 0))"
    if "stuck requests reconcile s"
    using stuck_at_rest [OF n'(1) that] loop_invD(1) [OF n'(1)] by blast
qed

text \<open>Where nothing is refused some schedule, and then every continuation of any, comes to rest.\<close>

lemma comes_to_rest:
  assumes "left n w" and "posed n xs" and "refusal = (\<lambda>_. False)"
  shows "\<exists>ls s. loop_run requests reconcile (started requests xs w) ls s \<and> stuck requests reconcile s"
  by (rule loop_run_bounded_ends)
    (use settles(1) [OF assms(1,2)] in \<open>simp only: assms(3) hold_ups_reliable mult_0_right add_0_right\<close>)

end

end
