(* ===== verification/Controllers_Settle.thy ===== *)
theory Controllers_Settle
  imports Controller_Loop
begin

text \<open>
  The two controllers of the operator side by side, on any number of instances: their loops come to
  rest, in every order and interleaving of events and reconciliations, and then the work on every
  instance is done.
\<close>

section \<open>From writes to requests\<close>

text \<open>The API server serves the type of the instances as namespaced, under its one kind.\<close>

definition serves :: "(string \<Rightarrow> string \<Rightarrow> go_error + bool) \<Rightarrow> scheme \<Rightarrow> go_type \<Rightarrow> bool" where
  "serves mapper sch t \<longleftrightarrow> (\<exists>g. GVKForObject t sch = Inr g \<and> gvk_GroupVersion g = SchemeGroupVersion
     \<and> mapper (gvk_Kind g) ''v1alpha1'' = Inr True)"

lemma requests_for_owner:
  assumes "serves mapper sch t" and "controlled_for t sch k m"
  shows "handler_requests mapper sch (EnqueueRequestForOwner True t) m = [k]"
proof -
  from assms(1) obtain g where g: "GVKForObject t sch = Inr g" "gvk_GroupVersion g = SchemeGroupVersion"
    "mapper (gvk_Kind g) ''v1alpha1'' = Inr True" by (auto simp: serves_def)
  from assms(2) obtain owner obj where "key_of owner = k" "om_OwnerReferences obj = []"
    "om_Namespace owner = om_Namespace obj" "SetControllerReference t owner obj sch = Inr m"
    by (auto simp: controlled_for_def)
  with request_for_controller [where mapper = mapper, OF g] g(1) show ?thesis by simp
qed

lemma tailored_requests:
  assumes "serves mapper sch T_TailoredProfile" and "concerns T_TailoredProfile sch k x"
  shows "requests_of mapper sch tailored_watches x = [k]"
  using assms(2) requests_for_owner [OF assms(1)]
  by (cases x) (simp_all add: requests_of_def tailored_watches_def)

lemma bundle_requests:
  assumes "serves mapper sch T_ProfileBundle" and "concerns T_ProfileBundle sch k x"
  shows "requests_of mapper sch bundle_watches x = [k]"
  using assms(2) requests_for_owner [OF assms(1)]
  by (cases x) (simp_all add: requests_of_def bundle_watches_def)

lemma operator_serves:
  "mapper ''TailoredProfile'' ''v1alpha1'' = Inr True \<Longrightarrow> serves mapper operator_scheme T_TailoredProfile"
  "mapper ''ProfileBundle'' ''v1alpha1'' = Inr True \<Longrightarrow> serves mapper operator_scheme T_ProfileBundle"
  by (simp_all add: serves_def operator_scheme_eq registrations GVKForObject_def ObjectKinds_def)

text \<open>The other controller does not hear of them.\<close>

lemma other_requests:
  "concerns T_TailoredProfile sch k x \<Longrightarrow> requests_of mapper sch' bundle_watches x = []"
  "concerns T_ProfileBundle sch k x \<Longrightarrow> requests_of mapper sch' tailored_watches x = []"
  by (cases x; simp add: requests_of_def bundle_watches_def tailored_watches_def)+

section \<open>The operator\<close>

datatype controller = ProfileBundles | TailoredProfiles

instance controller :: finite
proof
  have "(UNIV :: controller set) \<subseteq> {ProfileBundles, TailoredProfiles}"
    using controller.exhaust by blast
  then show "finite (UNIV :: controller set)" by (rule finite_subset) simp
qed

lemma UNIV_controller: "UNIV = {ProfileBundles, TailoredProfiles}"
  using controller.exhaust by blast

text \<open>The reconcilers the manager was given, each in the environment of its call.\<close>

definition tailored_loop ::
  "'w ReconcileTailoredProfile \<Rightarrow> go_env \<Rightarrow> nsname \<Rightarrow> ('w world, go_panic + reconcile_return) state" where
  "tailored_loop r env = Reconcile (r\<lparr>rtp_env := env\<rparr>)"

definition bundle_loop ::
  "'w ReconcileProfileBundle \<Rightarrow> go_env \<Rightarrow> nsname \<Rightarrow> ('w world, go_panic + reconcile_return) state" where
  "bundle_loop r env k = do { out \<leftarrow> Reconcile_bundle (r\<lparr>rpb_env := env\<rparr>) k; ret (Inr out) }"

definition operator_reconcile ::
  "('m, 'w) manager \<Rightarrow> 'm \<Rightarrow> controller \<Rightarrow> go_env \<Rightarrow> nsname
   \<Rightarrow> ('w world, go_panic + reconcile_return) state" where
  "operator_reconcile mgr m i =
     (case i of
        ProfileBundles \<Rightarrow> bundle_loop (profilebundle_newReconciler mgr m)
      | TailoredProfiles \<Rightarrow> tailored_loop (tailoredprofile_newReconciler mgr m))"

definition operator_requests ::
  "(string \<Rightarrow> string \<Rightarrow> go_error + bool) \<Rightarrow> ('m, 'w) manager \<Rightarrow> 'm \<Rightarrow> controller \<Rightarrow> kobject \<Rightarrow> nsname list" where
  "operator_requests mapper mgr m i =
     requests_of mapper (m_GetScheme mgr m)
       (case i of ProfileBundles \<Rightarrow> bundle_watches | TailoredProfiles \<Rightarrow> tailored_watches)"

section \<open>One reconciliation\<close>

text \<open>It succeeds and leads on, or it comes back with a refusal.\<close>

lemma tailored_reconciles:
  assumes "refusing_server (rtp_client r) view admits refusal"
    and "\<forall>x. key_of (cm_Meta x) = output_key tp \<longrightarrow> admits (ConfigMapObj x)"
    and "on_track UNIV (rtp_scheme r) tp p pb (view (w_cluster w)) n"
    and "run_state (tailored_loop r env (key_of (tp_Meta tp))) w = (out, w')"
  shows "only_touches tp (view (w_cluster w)) (view (w_cluster w'))
    \<and> (\<exists>ws. w_writes w' = w_writes w @ ws
         \<and> writes_for T_TailoredProfile (rtp_scheme r) (key_of (tp_Meta tp)) (succeeded ws)
         \<and> (out = finished \<and> on_track UNIV (rtp_scheme r) tp p pb (view (w_cluster w')) (n - 1)
              \<and> length (succeeded ws) \<le> of_bool (n \<noteq> 0) + of_bool (n = 1) \<and> (n \<noteq> 0 \<longrightarrow> succeeded ws \<noteq> [])
            \<or> refused refusal out \<and> on_track UNIV (rtp_scheme r) tp p pb (view (w_cluster w')) n
              \<and> length (succeeded ws) \<le> 1))"
proof -
  let ?r = "r\<lparr>rtp_env := env\<rparr>"
  have server: "tailored_profile_server ?r view admits refusal"
    using assms(1) by (simp add: tailored_profile_server_def)
  note one = tailored_profile_server.yields_step [OF server, of UNIV tp p pb "view (w_cluster w)" n]
  from yieldsD [OF one] assms(2-4) obtain ws where ws: "w_writes w' = w_writes w @ ws"
    and out: "out = finished \<and> on_track UNIV (rtp_scheme r) tp p pb (view (w_cluster w')) (n - 1)
       \<and> length ws \<le> 1 + of_bool (n = 1) \<and> (n = 0 \<longrightarrow> ws = [] \<and> view (w_cluster w') = view (w_cluster w))
       \<and> (n \<noteq> 0 \<longrightarrow> ws \<noteq> []) \<and> writes_for T_TailoredProfile (rtp_scheme r) (key_of (tp_Meta tp)) ws
       \<and> only_touches tp (view (w_cluster w)) (view (w_cluster w'))
     \<or> held_up refusal (rtp_scheme r) tp out ws \<and> on_track UNIV (rtp_scheme r) tp p pb (view (w_cluster w')) n
       \<and> only_touches tp (view (w_cluster w)) (view (w_cluster w'))"
    by (auto simp: tailored_loop_def)
  from out show ?thesis
  proof (elim disjE conjE)
    assume "writes_for T_TailoredProfile (rtp_scheme r) (key_of (tp_Meta tp)) ws"
      "length ws \<le> 1 + of_bool (n = 1)" "n = 0 \<longrightarrow> ws = [] \<and> view (w_cluster w') = view (w_cluster w)"
    moreover from this have "length ws \<le> of_bool (n \<noteq> 0) + of_bool (n = 1)" by (cases n) auto
    ultimately show ?thesis using ws out by (intro conjI exI [of _ ws]) (auto simp: succeeded_all held_up_def)
  qed (use ws in \<open>auto simp: held_up_def\<close>)
qed

lemma bundle_reconciles:
  assumes "refusing_server (rpb_client r) view admits refusal"
    and "\<forall>x. key_of (pod_Meta x) = pod_key b \<longrightarrow> admits (PodObj x)"
    and "GVKForObject T_ProfileBundle (rpb_scheme r) = Inr g"
    and "k_ProfileBundles (view (w_cluster w)) (key_of (pb_Meta b)) = Some b"
    and "run_state (bundle_loop r env (key_of (pb_Meta b))) w = (out, w')"
  shows "\<exists>ws. w_writes w' = w_writes w @ ws
    \<and> writes_for T_ProfileBundle (rpb_scheme r) (key_of (pb_Meta b)) (succeeded ws)
    \<and> (out = finished \<and> bundle_outcome env g b (view (w_cluster w)) (view (w_cluster w'))
         \<and> length (succeeded ws) = (case k_Pods (view (w_cluster w)) (pod_key b) of None \<Rightarrow> 2
             | Some x \<Rightarrow> of_bool (podStartupError x))
       \<or> refused refusal out \<and> length (succeeded ws) \<le> 1
         \<and> (view (w_cluster w') = view (w_cluster w)
            \<or> k_Pods (view (w_cluster w)) (pod_key b) = None
              \<and> view (w_cluster w') = set_pb (pending b) (view (w_cluster w))))"
proof -
  let ?r = "r\<lparr>rpb_env := env\<rparr>"
  have "bundle_server ?r view admits refusal" using assms(1) by (simp add: bundle_server_def)
  note one = yieldsD [OF bundle_server.yields_Reconcile_bundle [OF this, where c = "view (w_cluster w)" and pb = b and g = g]]
  obtain res w'' where "run_state (Reconcile_bundle ?r (key_of (pb_Meta b))) w = (res, w'')" by fastforce
  with assms(5) have run: "run_state (Reconcile_bundle ?r (key_of (pb_Meta b))) w = (res, w')" "out = Inr res"
    by (simp_all add: bundle_loop_def)
  from one assms(2-4) run(1) obtain ws where ws: "w_writes w' = w_writes w @ ws" and res:
      "res = (Result0, None) \<and> bundle_outcome env g b (view (w_cluster w)) (view (w_cluster w'))
         \<and> writes_for T_ProfileBundle (rpb_scheme r) (key_of (pb_Meta b)) ws
         \<and> length ws = (case k_Pods (view (w_cluster w)) (pod_key b) of None \<Rightarrow> 2
             | Some x \<Rightarrow> of_bool (podStartupError x))
       \<or> bundle_held_up refusal (rpb_scheme r) b (view (w_cluster w)) res ws (view (w_cluster w'))"
    by auto
  from res ws run(2) show ?thesis
    by (elim disjE) (auto simp: succeeded_all bundle_held_up_def)
qed

section \<open>Bundles\<close>

text \<open>The bundle is as before up to its status, and it has its Pod once nothing is left.\<close>

definition bundle_left :: "gvk \<Rightarrow> profile_bundle \<Rightarrow> nat \<Rightarrow> cluster \<Rightarrow> bool" where
  "bundle_left g pb0 n c \<longleftrightarrow>
     (\<exists>pb. k_ProfileBundles c (key_of (pb_Meta pb0)) = Some pb
        \<and> pb_Meta pb = pb_Meta pb0 \<and> pb_Spec pb = pb_Spec pb0
        \<and> (n = 1 \<and> k_Pods c (pod_key pb0) = None
           \<or> n = 0 \<and> pbst_DataStreamStatus (pb_Status pb) = DataStreamPending
             \<and> (\<exists>x env. k_Pods c (pod_key pb0) = Some x \<and> pod_Spec x = pod_Spec (newPodForBundle env pb0)
                  \<and> (\<exists>ref \<in> set (om_OwnerReferences (pod_Meta x)). refers_to g (pb_Meta pb0) ref)
                  \<and> pod_InitContainerStatuses x = [])))"

lemma bundle_left_step:
  assumes "bundle_left g pb0 n c" and "k_ProfileBundles c (key_of (pb_Meta pb0)) = Some pb"
    and "bundle_outcome env g pb c c'"
  shows "bundle_left g pb0 (n - 1) c'"
    and "n = (case k_Pods c (pod_key pb) of None \<Rightarrow> 1 | Some x \<Rightarrow> of_bool (podStartupError x))"
proof -
  from assms(1,2) have pb: "pb_Meta pb = pb_Meta pb0" "pb_Spec pb = pb_Spec pb0" "pod_key pb = pod_key pb0"
    and n: "n = 1 \<and> k_Pods c (pod_key pb0) = None
      \<or> n = 0 \<and> (\<exists>x. k_Pods c (pod_key pb0) = Some x \<and> \<not> podStartupError x)"
    by (auto simp: bundle_left_def pod_key_def podStartupError_def)
  then show "n = (case k_Pods c (pod_key pb) of None \<Rightarrow> 1 | Some x \<Rightarrow> of_bool (podStartupError x))" by auto
  have spec: "pod_Spec (newPodForBundle env pb) = pod_Spec (newPodForBundle env pb0)"
    using pb by (simp add: newPodForBundle_def)
  show "bundle_left g pb0 (n - 1) c'"
  proof (cases "k_Pods c (pod_key pb0)")
    case None
    with n assms(3) pb spec show ?thesis
      by (auto simp: bundle_left_def bundle_outcome_def set_pb_def pending_def)
  next
    case (Some x)
    with n assms(1,3) pb show ?thesis by (auto simp: bundle_outcome_def)
  qed
qed

text \<open>A reconciliation changes at most the bundle itself and its Pod.\<close>

definition touches_bundle :: "profile_bundle \<Rightarrow> cluster \<Rightarrow> cluster \<Rightarrow> bool" where
  "touches_bundle pb c c' \<longleftrightarrow>
     (\<exists>bs ps. c' = c\<lparr>k_ProfileBundles := bs, k_Pods := ps\<rparr>
        \<and> (\<forall>k. k \<noteq> key_of (pb_Meta pb) \<longrightarrow> bs k = k_ProfileBundles c k)
        \<and> (\<forall>k. k \<noteq> pod_key pb \<longrightarrow> ps k = k_Pods c k))"

lemma touches_bundle_same: "touches_bundle pb c c"
  unfolding touches_bundle_def
  by (rule exI [of _ "k_ProfileBundles c"], rule exI [of _ "k_Pods c"]) simp

lemma touches_bundle_set:
  assumes "pb_Meta b = pb_Meta pb"
  shows "touches_bundle pb c (set_pb b c)"
  unfolding touches_bundle_def set_pb_def assms
  by (rule exI [of _ "(k_ProfileBundles c)(key_of (pb_Meta pb) \<mapsto> b)"], rule exI [of _ "k_Pods c"]) simp

lemma touches_bundle_pod:
  assumes "touches_bundle pb c c'"
  shows "touches_bundle pb c (c'\<lparr>k_Pods := (k_Pods c)(pod_key pb \<mapsto> x)\<rparr>)"
proof -
  from assms obtain bs ps where c': "c' = c\<lparr>k_ProfileBundles := bs, k_Pods := ps\<rparr>"
    "\<forall>k. k \<noteq> key_of (pb_Meta pb) \<longrightarrow> bs k = k_ProfileBundles c k" by (auto simp: touches_bundle_def)
  then show ?thesis
    unfolding touches_bundle_def
    by (intro exI [of _ bs] exI [of _ "(k_Pods c)(pod_key pb \<mapsto> x)"]) simp
qed

lemma touches_bundle_outcome:
  assumes "bundle_outcome env g pb c c'"
  shows "touches_bundle pb c c'"
  using assms touches_bundle_same touches_bundle_set [of "pending pb" pb c] touches_bundle_set [of "invalid pb" pb c]
  by (auto simp: bundle_outcome_def pending_def invalid_def intro: touches_bundle_pod split: option.splits if_splits)

lemma bundle_frame:
  assumes "touches_bundle pb c c'"
  shows "k_TailoredProfiles c' = k_TailoredProfiles c" "k_Profiles c' = k_Profiles c"
    "k_Rules c' = k_Rules c" "k_Variables c' = k_Variables c" "k_ConfigMaps c' = k_ConfigMaps c"
    "k \<noteq> key_of (pb_Meta pb) \<Longrightarrow> k_ProfileBundles c' k = k_ProfileBundles c k"
    "k \<noteq> pod_key pb \<Longrightarrow> k_Pods c' k = k_Pods c k"
  using assms by (auto simp: touches_bundle_def)

lemma bundle_left_held_up:
  assumes "bundle_left g pb0 n c" and "k_ProfileBundles c (key_of (pb_Meta pb0)) = Some pb"
    and "k_Pods c (pod_key pb) = None" and "c' = set_pb (pending pb) c"
  shows "bundle_left g pb0 n c'"
  using assms by (auto simp: bundle_left_def set_pb_def pending_def pod_key_def)

lemma pod_key_inj: "pod_key a = pod_key b \<longleftrightarrow> key_of (pb_Meta a) = key_of (pb_Meta b)"
  by (auto simp: pod_key_def key_of_def)

text \<open>A bundle whose Pod can start, which its controller leaves alone.\<close>

definition bundle_settled :: "profile_bundle \<Rightarrow> cluster \<Rightarrow> bool" where
  "bundle_settled pb c \<longleftrightarrow> k_ProfileBundles c (key_of (pb_Meta pb)) = Some pb
     \<and> (\<exists>x. k_Pods c (pod_key pb) = Some x \<and> \<not> podStartupError x)"

lemma bundle_settled_step: "bundle_settled pb c \<Longrightarrow> bundle_outcome env g pb c c' \<Longrightarrow> c' = c"
  by (auto simp: bundle_settled_def bundle_outcome_def)

text \<open>Nothing else moves a bundle.\<close>

lemma bundle_other:
  assumes "k_ProfileBundles c' (key_of (pb_Meta pb)) = k_ProfileBundles c (key_of (pb_Meta pb))"
    and "k_Pods c' (pod_key pb) = k_Pods c (pod_key pb)"
  shows "bundle_left g pb n c' = bundle_left g pb n c" "bundle_settled pb c' = bundle_settled pb c"
  using assms by (simp_all add: bundle_left_def bundle_settled_def)

text \<open>Where the bundle of a profile is looked up for a TailoredProfile.\<close>

definition bundle_key :: "tailored_profile \<Rightarrow> profile \<Rightarrow> nsname" where
  "bundle_key tp p = nsn (tp_ns tp) (or_Name (projr (getProfileBundleReferenceFromProfile p)))"

lemma on_track_bundle:
  assumes "on_track envs sch tp p pb c n" and "touches_bundle b c c'"
    and "bundle_key tp p \<noteq> key_of (pb_Meta b)"
  shows "on_track envs sch tp p pb c' n"
proof -
  from assms(1) obtain t where t: "same_request tp t" "well_posed sch c t p pb" "todo c t p = n"
    "k_ConfigMaps c (output_key t) \<noteq> None \<longrightarrow> n = 0 \<and> produced envs c t p pb"
    by (auto simp: on_track_def)
  note same = bundle_frame [OF assms(2)]
  from t(2) assms(3) have "extends_profile c' t p pb"
    using same_request_fields(9) [OF t(1)]
    by (auto simp: well_posed_def extends_profile_def same bundle_key_def)
  moreover have "expected_document env c' t p pb = expected_document env c t p pb" for env
    by (simp add: expected_document_def expected_rules_def expected_variables_def same cong: if_cong)
  ultimately show ?thesis
    using t unfolding on_track_def produced_def
    by (intro exI [of _ t]) (simp add: well_posed_def selections_exist_def todo_def same)
qed

section \<open>All instances at once\<close>

type_synonym request = "tailored_profile \<times> profile \<times> profile_bundle"

definition request_key :: "request \<Rightarrow> nsname" where
  "request_key x = key_of (tp_Meta (fst x))"

definition pb_key :: "profile_bundle \<Rightarrow> nsname" where
  "pb_key pb = key_of (pb_Meta pb)"

text \<open>
  Requests with the profile and bundle of each, bundles without a Pod, and bundles with one. Every
  instance has a key of its own, and no request waits for a bundle that has no Pod yet: its
  profile could not have been parsed.
\<close>

definition separate :: "request list \<Rightarrow> profile_bundle list \<Rightarrow> profile_bundle list \<Rightarrow> bool" where
  "separate reqs news olds \<longleftrightarrow> distinct (map request_key reqs) \<and> distinct (map pb_key (news @ olds))
     \<and> (\<forall>(tp, p, pb) \<in> set reqs. bundle_key tp p \<notin> pb_key ` set news)"

definition operator_keys ::
  "request list \<Rightarrow> profile_bundle list \<Rightarrow> profile_bundle list \<Rightarrow> (controller \<times> nsname) set" where
  "operator_keys reqs news olds =
     Pair TailoredProfiles ` request_key ` set reqs \<union> Pair ProfileBundles ` pb_key ` set (news @ olds)"

definition operator_left ::
  "scheme \<Rightarrow> gvk \<Rightarrow> request list \<Rightarrow> profile_bundle list \<Rightarrow> profile_bundle list
   \<Rightarrow> (controller \<times> nsname \<Rightarrow> nat) \<Rightarrow> cluster \<Rightarrow> bool" where
  "operator_left sch g reqs news olds n c \<longleftrightarrow>
     (\<forall>(tp, p, pb) \<in> set reqs. on_track UNIV sch tp p pb c (n (TailoredProfiles, key_of (tp_Meta tp))))
     \<and> (\<forall>pb \<in> set news. bundle_left g pb (n (ProfileBundles, pb_key pb)) c)
     \<and> (\<forall>pb \<in> set olds. bundle_settled pb c \<and> n (ProfileBundles, pb_key pb) = 0)"

lemma operator_left_tailored:
  assumes "separate reqs news olds" and "operator_left sch g reqs news olds n c"
    and "(tp, p, pb) \<in> set reqs" and "only_touches tp c c'" and "k = key_of (tp_Meta tp)"
    and "on_track UNIV sch tp p pb c' left"
  shows "operator_left sch g reqs news olds (n((TailoredProfiles, k) := left)) c'"
proof -
  have "on_track UNIV sch t q b c' ((n((TailoredProfiles, k) := left))
      (TailoredProfiles, key_of (tp_Meta t)))" if "(t, q, b) \<in> set reqs" for t q b
  proof (cases "key_of (tp_Meta t) = k")
    case True
    with assms(1,3,5) that have "(t, q, b) = (tp, p, pb)"
      unfolding separate_def distinct_map by (metis fst_conv inj_onD request_key_def)
    with assms(5,6) show ?thesis by simp
  next
    case False
    with assms(2,5) that show ?thesis by (auto simp: operator_left_def intro: on_track_other [OF _ assms(4)])
  qed
  with assms(2) show ?thesis
    using bundle_other [of c' _ c] only_touches_fields [OF assms(4)]
    by (auto simp: operator_left_def)
qed

lemma operator_left_bundle:
  assumes "separate reqs news olds" and "operator_left sch g reqs news olds n c"
    and "pb \<in> set news" and "pb_Meta b = pb_Meta pb" and "touches_bundle b c c'"
    and "bundle_left g pb left c'"
  shows "operator_left sch g reqs news olds (n((ProfileBundles, pb_key pb) := left)) c'"
proof -
  let ?n = "n((ProfileBundles, pb_key pb) := left)"
  have keys: "key_of (pb_Meta b) = pb_key pb" "pod_key b = pod_key pb"
    using assms(4) by (simp_all add: pb_key_def pod_key_def)
  have other: "bundle_left g x i c' = bundle_left g x i c" "bundle_settled x c' = bundle_settled x c"
    if "pb_key x \<noteq> pb_key pb" for x i
    using that bundle_other [of c' x c] bundle_frame(6,7) [OF assms(5)] pod_key_inj [of x pb]
    by (simp_all add: keys pb_key_def)
  have olds: "pb_key x \<noteq> pb_key pb" if "x \<in> set olds" for x
    using that assms(1,3) by (force simp: separate_def)
  have "bundle_left g x (?n (ProfileBundles, pb_key x)) c'" if "x \<in> set news" for x
  proof (cases "pb_key x = pb_key pb")
    case True
    with assms(1,3) that have "x = pb" by (auto simp: separate_def distinct_map dest: inj_onD)
    with assms(6) show ?thesis by simp
  next
    case False
    with assms(2) that other show ?thesis by (simp add: operator_left_def)
  qed
  moreover have "on_track UNIV sch tp p q c' (?n (TailoredProfiles, key_of (tp_Meta tp)))"
    if "(tp, p, q) \<in> set reqs" for tp p q
    using that assms(1-3) on_track_bundle [OF _ assms(5)] keys(1)
    by (fastforce simp: operator_left_def separate_def)
  ultimately show ?thesis
    using assms(2) olds other by (auto simp: operator_left_def)
qed

text \<open>
  The environment the operator runs in: the client of its manager reaches a server that keeps its
  contract but may refuse calls, the manager has the scheme of the operator, and both instance
  types are namespaced.
\<close>

definition operator_runs ::
  "(string \<Rightarrow> string \<Rightarrow> go_error + bool) \<Rightarrow> ('m, 'w) manager \<Rightarrow> 'm \<Rightarrow> ('w \<Rightarrow> cluster)
   \<Rightarrow> (kobject \<Rightarrow> bool) \<Rightarrow> (go_error \<Rightarrow> bool) \<Rightarrow> bool" where
  "operator_runs mapper mgr m view admits refusal \<longleftrightarrow>
     refusing_server (m_GetClient mgr m) view admits refusal \<and> m_GetScheme mgr m = operator_scheme
     \<and> mapper ''TailoredProfile'' ''v1alpha1'' = Inr True \<and> mapper ''ProfileBundle'' ''v1alpha1'' = Inr True"

text \<open>
  The server admits the objects that the operator makes for its instances: the ConfigMaps of the
  requests and the Pods of the bundles.
\<close>

definition operator_admits :: "(kobject \<Rightarrow> bool) \<Rightarrow> request list \<Rightarrow> profile_bundle list \<Rightarrow> bool" where
  "operator_admits admits reqs pbs \<longleftrightarrow>
     (\<forall>(tp, p, pb) \<in> set reqs. \<forall>x. key_of (cm_Meta x) = output_key tp \<longrightarrow> admits (ConfigMapObj x))
     \<and> (\<forall>pb \<in> set pbs. \<forall>x. key_of (pod_Meta x) = pod_key pb \<longrightarrow> admits (PodObj x))"

lemma operator_simps:
  assumes "operator_runs mapper mgr m view admits refusal"
  shows "rtp_client (tailoredprofile_newReconciler mgr m) = m_GetClient mgr m"
    "rpb_client (profilebundle_newReconciler mgr m) = m_GetClient mgr m"
    "rtp_scheme (tailoredprofile_newReconciler mgr m) = operator_scheme"
    "rpb_scheme (profilebundle_newReconciler mgr m) = operator_scheme"
  using assms
  by (simp_all add: operator_runs_def tailoredprofile_newReconciler_def profilebundle_newReconciler_def)

lemma operator_requests_concern:
  assumes "operator_runs mapper mgr m view admits refusal"
  shows "concerns T_TailoredProfile operator_scheme k x \<Longrightarrow>
      operator_requests mapper mgr m j x = (if j = TailoredProfiles then [k] else [])"
    and "concerns T_ProfileBundle operator_scheme k x \<Longrightarrow>
      operator_requests mapper mgr m j x = (if j = ProfileBundles then [k] else [])"
  using assms operator_serves tailored_requests bundle_requests other_requests
  by (cases j; simp add: operator_requests_def operator_runs_def)+

lemma writes_heard:
  assumes "operator_runs mapper mgr m view admits refusal" and "writes_for t operator_scheme k (succeeded ws)"
    and "(t, i) \<in> {(T_TailoredProfile, TailoredProfiles), (T_ProfileBundle, ProfileBundles)}"
  shows "list_all (\<lambda>x. \<forall>j. operator_requests mapper mgr m j x = (if j = i then [k] else [])) (announced ws)"
  using assms(2,3) operator_requests_concern [OF assms(1)]
  by (auto simp: writes_for_def announced_def list_all_iff)

text \<open>The cluster without the instances and what the operator makes for them.\<close>

definition unrelated :: "request list \<Rightarrow> profile_bundle list \<Rightarrow> cluster \<Rightarrow> cluster" where
  "unrelated reqs news c =
     c\<lparr>k_TailoredProfiles := k_TailoredProfiles c |` (- request_key ` set reqs),
       k_ConfigMaps := k_ConfigMaps c |` (- (output_key \<circ> fst) ` set reqs),
       k_ProfileBundles := k_ProfileBundles c |` (- pb_key ` set news),
       k_Pods := k_Pods c |` (- pod_key ` set news)\<rparr>"

lemma unrelated_fields:
  assumes "unrelated reqs news c' = unrelated reqs news c"
  shows "k_Profiles c' = k_Profiles c" "k_Rules c' = k_Rules c" "k_Variables c' = k_Variables c"
    "(\<And>tp p pb. (tp, p, pb) \<in> set reqs \<Longrightarrow> k \<noteq> output_key tp) \<Longrightarrow> k_ConfigMaps c' k = k_ConfigMaps c k"
proof -
  have all: "k_Profiles c' = k_Profiles c \<and> k_Rules c' = k_Rules c \<and> k_Variables c' = k_Variables c
    \<and> k_ConfigMaps c' |` (- (output_key \<circ> fst) ` set reqs) = k_ConfigMaps c |` (- (output_key \<circ> fst) ` set reqs)"
    using assms unfolding unrelated_def by (cases c; cases c') simp
  then show "k_Profiles c' = k_Profiles c" "k_Rules c' = k_Rules c" "k_Variables c' = k_Variables c" by simp_all
  assume "\<And>tp p pb. (tp, p, pb) \<in> set reqs \<Longrightarrow> k \<noteq> output_key tp"
  then have "k \<in> - (output_key \<circ> fst) ` set reqs" by force
  with all show "k_ConfigMaps c' k = k_ConfigMaps c k" by (metis restrict_in)
qed

lemma restrict_map_except:
  assumes "a \<in> A" and "\<And>k. k \<noteq> a \<Longrightarrow> f k = g k"
  shows "f |` (- A) = g |` (- A)"
proof
  fix k
  have "k \<notin> A \<Longrightarrow> f k = g k" using assms by metis
  then show "(f |` (- A)) k = (g |` (- A)) k" by (cases "k \<in> A") simp_all
qed

lemma unrelated_tailored:
  assumes "only_touches tp c c'" and "(tp, p, pb) \<in> set reqs"
  shows "unrelated reqs news c' = unrelated reqs news c"
proof -
  from assms(1) obtain t m where c': "c' = c\<lparr>k_TailoredProfiles := t, k_ConfigMaps := m\<rparr>"
    and t: "\<forall>k. k \<noteq> key_of (tp_Meta tp) \<longrightarrow> t k = k_TailoredProfiles c k"
    and m: "\<forall>k. k \<noteq> output_key tp \<longrightarrow> m k = k_ConfigMaps c k" by (auto simp: only_touches_def)
  have "key_of (tp_Meta tp) \<in> request_key ` set reqs" "output_key tp \<in> (output_key \<circ> fst) ` set reqs"
    using assms(2) by (force simp: request_key_def)+
  with t m have "t |` (- request_key ` set reqs) = k_TailoredProfiles c |` (- request_key ` set reqs)"
    "m |` (- (output_key \<circ> fst) ` set reqs) = k_ConfigMaps c |` (- (output_key \<circ> fst) ` set reqs)"
    by (blast intro: restrict_map_except)+
  then show ?thesis by (simp add: unrelated_def c')
qed

lemma unrelated_bundle:
  assumes "touches_bundle b c c'" and "pb \<in> set news" and "pb_Meta b = pb_Meta pb"
  shows "unrelated reqs news c' = unrelated reqs news c"
proof -
  have at: "key_of (pb_Meta b) \<in> pb_key ` set news" "pod_key b \<in> pod_key ` set news"
    using assms(2,3) by (auto simp: pb_key_def pod_key_def)
  from assms(1) obtain ps bs where c': "c' = c\<lparr>k_ProfileBundles := bs, k_Pods := ps\<rparr>"
    by (auto simp: touches_bundle_def)
  have "bs |` (- pb_key ` set news) = k_ProfileBundles c |` (- pb_key ` set news)"
    by (rule restrict_map_except [OF at(1)]) (use bundle_frame(6) [OF assms(1)] in \<open>simp add: c'\<close>)
  moreover have "ps |` (- pod_key ` set news) = k_Pods c |` (- pod_key ` set news)"
    by (rule restrict_map_except [OF at(2)]) (use bundle_frame(7) [OF assms(1)] in \<open>simp add: c'\<close>)
  ultimately show ?thesis by (simp add: unrelated_def c')
qed

text \<open>
  Each reconciliation does one unit of work on its instance, or comes back with a refusal and all
  of the work left; it leaves the rest of the cluster alone.
\<close>

definition unit_done ::
  "(go_error \<Rightarrow> bool) \<Rightarrow> (('a \<Rightarrow> nat) \<Rightarrow> cluster \<Rightarrow> bool) \<Rightarrow> (cluster \<Rightarrow> cluster) \<Rightarrow> ('w \<Rightarrow> cluster)
   \<Rightarrow> go_type \<Rightarrow> 'a \<Rightarrow> nsname \<Rightarrow> ('a \<Rightarrow> nat) \<Rightarrow> 'w world \<Rightarrow> go_panic + reconcile_return \<Rightarrow> 'w world \<Rightarrow> bool" where
  "unit_done refusal left rest view t x k n w out w' \<longleftrightarrow>
     rest (view (w_cluster w')) = rest (view (w_cluster w))
     \<and> (\<exists>ws. w_writes w' = w_writes w @ ws \<and> writes_for t operator_scheme k (succeeded ws)
          \<and> (out = finished \<and> left (n(x := n x - 1)) (view (w_cluster w'))
               \<and> length (succeeded ws) \<le> of_bool (n x \<noteq> 0) + of_bool (n x = 1)
               \<and> (n x \<noteq> 0 \<longrightarrow> succeeded ws \<noteq> [])
             \<or> refused refusal out \<and> left n (view (w_cluster w')) \<and> length (succeeded ws) \<le> 1))"

lemma tailored_unit:
  assumes "operator_runs mapper mgr m view admits refusal" and "separate reqs news olds"
    and "operator_left operator_scheme g reqs news olds n (view (w_cluster w))"
    and "(tp, p, pb) \<in> set reqs" and "k = key_of (tp_Meta tp)"
    and "run_state (operator_reconcile mgr m TailoredProfiles env k) w = (out, w')"
    and "operator_admits admits reqs (news @ olds)"
  shows "unit_done refusal (operator_left operator_scheme g reqs news olds) (unrelated reqs news) view
    T_TailoredProfile (TailoredProfiles, k) k n w out w'"
proof -
  let ?x = "(TailoredProfiles, k)"
  note ops = operator_simps [OF assms(1)]
  have server: "refusing_server (m_GetClient mgr m) view admits refusal"
    using assms(1) by (simp add: operator_runs_def)
  have "on_track UNIV operator_scheme tp p pb (view (w_cluster w)) (n ?x)"
    using assms(3,4,5) by (auto simp: operator_left_def)
  moreover have "\<forall>x. key_of (cm_Meta x) = output_key tp \<longrightarrow> admits (ConfigMapObj x)"
    using assms(4,7) by (auto simp: operator_admits_def)
  ultimately obtain ws where
    touches: "only_touches tp (view (w_cluster w)) (view (w_cluster w'))"
    and ws: "w_writes w' = w_writes w @ ws" "writes_for T_TailoredProfile operator_scheme k (succeeded ws)"
    and out: "out = finished \<and> on_track UNIV operator_scheme tp p pb (view (w_cluster w')) (n ?x - 1)
        \<and> length (succeeded ws) \<le> of_bool (n ?x \<noteq> 0) + of_bool (n ?x = 1) \<and> (n ?x \<noteq> 0 \<longrightarrow> succeeded ws \<noteq> [])
      \<or> refused refusal out \<and> on_track UNIV operator_scheme tp p pb (view (w_cluster w')) (n ?x)
        \<and> length (succeeded ws) \<le> 1"
    using tailored_reconciles [of "tailoredprofile_newReconciler mgr m", unfolded ops, OF server, of tp p pb w "n ?x" env out w']
    assms(6) [unfolded operator_reconcile_def controller.case assms(5)]
    unfolding assms(5) by auto
  note left = operator_left_tailored [OF assms(2-4) touches assms(5)]
  from out left [of "n ?x - 1"] left [of "n ?x"] ws unrelated_tailored [OF touches assms(4)] show ?thesis
    unfolding unit_done_def fun_upd_triv by blast
qed

lemma bundle_unit_new:
  assumes "separate reqs news olds" and "operator_left operator_scheme g reqs news olds n c"
    and "pb \<in> set news" and "k = pb_key pb" and "k_ProfileBundles c k = Some b" and "pb_Meta b = pb_Meta pb"
    and "m \<le> n (ProfileBundles, k)"
    and "m = n (ProfileBundles, k) - 1 \<and> bundle_outcome env g b c c'
      \<or> m = n (ProfileBundles, k) \<and> (c' = c \<or> k_Pods c (pod_key b) = None \<and> c' = set_pb (pending b) c)"
  shows "operator_left operator_scheme g reqs news olds (n((ProfileBundles, k) := m)) c'"
    and "unrelated reqs news c' = unrelated reqs news c"
proof -
  have left: "bundle_left g pb (n (ProfileBundles, k)) c" using assms(2-4) by (simp add: operator_left_def)
  have b: "k_ProfileBundles c (key_of (pb_Meta pb)) = Some b" using assms(4,5) by (simp add: pb_key_def)
  have touches: "touches_bundle b c c'"
    using assms(8) touches_bundle_outcome touches_bundle_same touches_bundle_set [of "pending b" b c]
    by (auto simp: pending_def)
  then show "unrelated reqs news c' = unrelated reqs news c" by (rule unrelated_bundle [OF _ assms(3,6)])
  have "bundle_left g pb m c'"
    using assms(8) left bundle_left_step(1) [OF left b] bundle_left_held_up [OF left b] by blast
  from operator_left_bundle [OF assms(1-3,6) touches this]
  show "operator_left operator_scheme g reqs news olds (n((ProfileBundles, k) := m)) c'" by (simp add: assms(4))
qed

lemma bundle_unit:
  assumes "operator_runs mapper mgr m view admits refusal" and "separate reqs news olds"
    and "GVKForObject T_ProfileBundle operator_scheme = Inr g"
    and "operator_left operator_scheme g reqs news olds n (view (w_cluster w))"
    and "pb \<in> set (news @ olds)" and "k = pb_key pb"
    and "run_state (operator_reconcile mgr m ProfileBundles env k) w = (out, w')"
    and "operator_admits admits reqs (news @ olds)"
  shows "unit_done refusal (operator_left operator_scheme g reqs news olds) (unrelated reqs news) view
    T_ProfileBundle (ProfileBundles, k) k n w out w'"
proof -
  note ops = operator_simps [OF assms(1)]
  let ?c = "view (w_cluster w)" and ?c' = "view (w_cluster w')" and ?n = "n (ProfileBundles, k)"
  have server: "refusing_server (m_GetClient mgr m) view admits refusal"
    using assms(1) by (simp add: operator_runs_def)
  obtain b where b: "k_ProfileBundles ?c k = Some b" "pb_Meta b = pb_Meta pb"
    using assms(4-6) by (auto simp: operator_left_def bundle_left_def bundle_settled_def pb_key_def)
  then have same: "key_of (pb_Meta b) = k" "pod_key b = pod_key pb"
    by (simp_all add: assms(6) pb_key_def pod_key_def)
  have "\<forall>x. key_of (pod_Meta x) = pod_key b \<longrightarrow> admits (PodObj x)"
    using assms(5,8) by (auto simp: operator_admits_def same(2))
  with bundle_reconciles [of "profilebundle_newReconciler mgr m" view admits refusal b g w env out w'] server b(1)
    assms(3,7) [unfolded operator_reconcile_def controller.case] obtain ws where
    ws: "w_writes w' = w_writes w @ ws" "writes_for T_ProfileBundle operator_scheme k (succeeded ws)"
    and out: "out = finished \<and> bundle_outcome env g b ?c ?c'
        \<and> length (succeeded ws) = (case k_Pods ?c (pod_key b) of None \<Rightarrow> 2 | Some x \<Rightarrow> of_bool (podStartupError x))
      \<or> refused refusal out \<and> length (succeeded ws) \<le> 1
        \<and> (?c' = ?c \<or> k_Pods ?c (pod_key b) = None \<and> ?c' = set_pb (pending b) ?c)"
    by (auto simp: ops same(1))
  show ?thesis
  proof (cases "pb \<in> set news")
    case True
    with assms(4,6) have left: "bundle_left g pb ?n ?c" by (simp add: operator_left_def)
    have units: "?n = (case k_Pods ?c (pod_key b) of None \<Rightarrow> 1 | Some x \<Rightarrow> of_bool (podStartupError x))"
      if "bundle_outcome env g b ?c ?c'"
      using bundle_left_step(2) [OF left _ that] b(1) by (simp add: assms(6) pb_key_def)
    note new = bundle_unit_new [OF assms(2,4) True assms(6) b]
    from out show ?thesis
    proof (elim disjE conjE)
      assume fin: "out = finished" "bundle_outcome env g b ?c ?c'"
        "length (succeeded ws) = (case k_Pods ?c (pod_key b) of None \<Rightarrow> 2 | Some x \<Rightarrow> of_bool (podStartupError x))"
      with units [OF fin(2)] have "length (succeeded ws) \<le> of_bool (?n \<noteq> 0) + of_bool (?n = 1)"
        "?n \<noteq> 0 \<longrightarrow> succeeded ws \<noteq> []" by (auto split: option.splits)
      with fin(1,2) ws new [of "?n - 1" env ?c'] show ?thesis by (auto simp: unit_done_def)
    qed (use ws new [of ?n env ?c'] in \<open>auto simp: unit_done_def\<close>)
  next
    case False
    with assms(4-6) have old: "bundle_settled pb ?c" "?n = 0" by (auto simp: operator_left_def)
    then have "b = pb" using b(1) by (simp add: bundle_settled_def assms(6) pb_key_def)
    with bundle_settled_step [OF old(1)] out old(1) have "?c' = ?c"
      "out = finished \<and> succeeded ws = [] \<or> refused refusal out \<and> length (succeeded ws) \<le> 1"
      by (auto simp: bundle_settled_def)
    with assms(4) ws old(2) show ?thesis by (auto simp: unit_done_def fun_upd_idem)
  qed
qed

lemma operator_settling:
  assumes "operator_runs mapper mgr m view admits refusal" and "separate reqs news olds"
    and "GVKForObject T_ProfileBundle operator_scheme = Inr g" and "operator_admits admits reqs (news @ olds)"
  shows "settling (operator_requests mapper mgr m) (operator_reconcile mgr m) refusal (operator_keys reqs news olds)
    (\<lambda>n w. operator_left operator_scheme g reqs news olds n (view (w_cluster w))
       \<and> unrelated reqs news (view (w_cluster w)) = content)"
proof
  show "finite (operator_keys reqs news olds)" by (simp add: operator_keys_def)
next
  fix n :: "controller \<times> nsname \<Rightarrow> nat" and w i k env out w'
  assume left: "operator_left operator_scheme g reqs news olds n (view (w_cluster w))
      \<and> unrelated reqs news (view (w_cluster w)) = content"
    and key: "(i, k) \<in> operator_keys reqs news olds"
    and run: "run_state (operator_reconcile mgr m i env k) w = (out, w')"
  have "\<exists>t. (t, i) \<in> {(T_TailoredProfile, TailoredProfiles), (T_ProfileBundle, ProfileBundles)}
      \<and> unit_done refusal (operator_left operator_scheme g reqs news olds) (unrelated reqs news) view t (i, k) k n w out w'"
    using key left run tailored_unit [OF assms(1,2) _ _ _ _ assms(4)] bundle_unit [OF assms(1-3) _ _ _ _ assms(4)]
    unfolding operator_keys_def request_key_def by fastforce
  then obtain t ws where t: "(t, i) \<in> {(T_TailoredProfile, TailoredProfiles), (T_ProfileBundle, ProfileBundles)}"
    and rest: "unrelated reqs news (view (w_cluster w')) = unrelated reqs news (view (w_cluster w))"
    and ws: "w_writes w' = w_writes w @ ws" "writes_for t operator_scheme k (succeeded ws)"
    and out: "out = finished
        \<and> operator_left operator_scheme g reqs news olds (n((i, k) := n (i, k) - 1)) (view (w_cluster w'))
        \<and> length (succeeded ws) \<le> of_bool (n (i, k) \<noteq> 0) + of_bool (n (i, k) = 1)
        \<and> (n (i, k) \<noteq> 0 \<longrightarrow> succeeded ws \<noteq> [])
      \<or> refused refusal out \<and> operator_left operator_scheme g reqs news olds n (view (w_cluster w'))
        \<and> length (succeeded ws) \<le> 1"
    unfolding unit_done_def by blast
  have "length (announced ws) = length (succeeded ws)" "announced ws = [] \<longleftrightarrow> succeeded ws = []"
    by (simp_all add: announced_def)
  with out ws rest left writes_heard [OF assms(1) ws(2) t]
  show "\<exists>ws. w_writes w' = w_writes w @ ws
    \<and> list_all (\<lambda>x. \<forall>j. operator_requests mapper mgr m j x = (if j = i then [k] else [])) (announced ws)
    \<and> (out = finished \<and> (operator_left operator_scheme g reqs news olds (n((i, k) := n (i, k) - 1)) (view (w_cluster w'))
           \<and> unrelated reqs news (view (w_cluster w')) = content)
         \<and> length (announced ws) \<le> of_bool (n (i, k) \<noteq> 0) + of_bool (n (i, k) = 1)
         \<and> (n (i, k) \<noteq> 0 \<longrightarrow> announced ws \<noteq> [])
       \<or> refused refusal out \<and> (operator_left operator_scheme g reqs news olds n (view (w_cluster w'))
           \<and> unrelated reqs news (view (w_cluster w')) = content)
         \<and> length (announced ws) \<le> 1)"
    by (intro exI [of _ ws]) auto
qed

section \<open>The operator comes to rest\<close>

text \<open>
  A cluster with work for both controllers: well-posed requests without a ConfigMap, bundles
  without a Pod, and bundles with a Pod that can start; and the objects they are announced by.
\<close>

definition operator_posed ::
  "(kobject \<Rightarrow> bool) \<Rightarrow> request list \<Rightarrow> profile_bundle list \<Rightarrow> profile_bundle list \<Rightarrow> cluster \<Rightarrow> bool" where
  "operator_posed admits reqs news olds c \<longleftrightarrow> separate reqs news olds \<and> operator_admits admits reqs (news @ olds)
     \<and> (\<forall>(tp, p, pb) \<in> set reqs. well_posed operator_scheme c tp p pb \<and> k_ConfigMaps c (output_key tp) = None)
     \<and> (\<forall>pb \<in> set news. k_ProfileBundles c (pb_key pb) = Some pb \<and> k_Pods c (pod_key pb) = None)
     \<and> (\<forall>pb \<in> set olds. bundle_settled pb c)"

definition instances :: "request list \<Rightarrow> profile_bundle list \<Rightarrow> kobject list" where
  "instances reqs pbs = map (TailoredProfileObj \<circ> fst) reqs @ map ProfileBundleObj pbs"

definition start_measure ::
  "request list \<Rightarrow> profile_bundle list \<Rightarrow> cluster \<Rightarrow> controller \<times> nsname \<Rightarrow> nat" where
  "start_measure reqs news c x =
     (case fst x of
        TailoredProfiles \<Rightarrow>
          (case find (\<lambda>r. request_key r = snd x) reqs of None \<Rightarrow> 0 | Some (tp, p, pb) \<Rightarrow> todo c tp p)
      | ProfileBundles \<Rightarrow> of_bool (snd x \<in> pb_key ` set news))"

lemma todo_le: "todo c tp p \<le> 3"
  by (simp add: todo_def)

lemma start_measure_le:
  "start_measure reqs news c (TailoredProfiles, k) \<le> 3"
  by (simp add: start_measure_def todo_le split: option.split)

lemma find_request:
  assumes "distinct (map request_key reqs)" and "r \<in> set reqs"
  shows "find (\<lambda>x. request_key x = request_key r) reqs = Some r"
  using assms by (induction reqs) force+

lemma operator_left_start:
  assumes "operator_posed admits reqs news olds c"
  shows "operator_left operator_scheme g reqs news olds (start_measure reqs news c) c"
proof -
  have "distinct (map request_key reqs)" using assms by (simp add: operator_posed_def separate_def)
  note found = find_request [OF this]
  have "on_track UNIV operator_scheme tp p pb c (start_measure reqs news c (TailoredProfiles, key_of (tp_Meta tp)))"
    if "(tp, p, pb) \<in> set reqs" for tp p pb
    using found [OF that] that assms on_track_start [of operator_scheme c tp p pb UNIV]
    by (auto simp: operator_posed_def start_measure_def request_key_def)
  moreover have "pb_key pb \<notin> pb_key ` set news" if "pb \<in> set olds" for pb
    using assms that by (auto simp: operator_posed_def separate_def)
  ultimately show ?thesis
    using assms by (auto simp: operator_left_def operator_posed_def start_measure_def bundle_left_def pb_key_def)
qed

lemma start_cost:
  assumes "\<And>k. n (TailoredProfiles, k) \<le> 3"
    and "\<And>k. n (ProfileBundles, k) = of_bool (k \<in> pb_key ` set news)"
  shows "(\<Sum>x \<in> operator_keys reqs news olds. cost (n x)) \<le> 12 * length reqs + 6 * length news"
proof -
  let ?T = "request_key ` set reqs" and ?B = "pb_key ` set (news @ olds)" and ?N = "pb_key ` set news"
  have "(\<Sum>x \<in> operator_keys reqs news olds. cost (n x)) =
      (\<Sum>k \<in> ?T. cost (n (TailoredProfiles, k))) + (\<Sum>k \<in> ?B. cost (n (ProfileBundles, k)))"
    unfolding operator_keys_def
    by (subst sum.union_disjoint) (auto simp: sum.reindex inj_on_def)
  moreover have "(\<Sum>k \<in> ?T. cost (n (TailoredProfiles, k))) \<le> of_nat (card ?T) * 12"
    by (rule sum_bounded_above) (use assms(1) in \<open>simp add: cost_def\<close>)
  moreover have "(\<Sum>k \<in> ?B. cost (n (ProfileBundles, k))) = (\<Sum>k \<in> ?N. 6)"
    by (rule sum.mono_neutral_cong_right) (auto simp: assms(2) cost_def)
  moreover have "card ?T \<le> length reqs" "card ?N \<le> length news"
    by (meson card_image_le card_length finite_set order_trans)+
  ultimately show ?thesis by simp
qed

lemma heard_instances:
  assumes "operator_runs mapper mgr m view admits refusal"
  shows "heard (operator_requests mapper mgr m TailoredProfiles) (instances reqs pbs) = map (TailoredProfileObj \<circ> fst) reqs"
    "heard (operator_requests mapper mgr m ProfileBundles) (instances reqs pbs) = map ProfileBundleObj pbs"
    "operator_requests mapper mgr m TailoredProfiles (TailoredProfileObj tp) = [key_of (tp_Meta tp)]"
    "operator_requests mapper mgr m ProfileBundles (ProfileBundleObj pb) = [pb_key pb]"
proof -
  note asked = operator_requests_concern [OF assms]
  have tp: "operator_requests mapper mgr m j (TailoredProfileObj x) = (if j = TailoredProfiles then [key_of (tp_Meta x)] else [])" for j x
    by (rule asked(1)) simp
  have pb: "operator_requests mapper mgr m j (ProfileBundleObj x) = (if j = ProfileBundles then [pb_key x] else [])" for j x
    by (rule asked(2)) (simp add: pb_key_def)
  show "heard (operator_requests mapper mgr m TailoredProfiles) (instances reqs pbs) = map (TailoredProfileObj \<circ> fst) reqs"
    "heard (operator_requests mapper mgr m ProfileBundles) (instances reqs pbs) = map ProfileBundleObj pbs"
    unfolding heard_def instances_def by (auto simp: tp pb filter_empty_conv filter_id_conv)
qed (use operator_requests_concern [OF assms] in \<open>simp_all add: pb_key_def\<close>)

lemma operator_start_posed:
  assumes "operator_runs mapper mgr m view admits refusal" and "operator_posed admits reqs news olds c"
    and "GVKForObject T_ProfileBundle operator_scheme = Inr g"
  shows "settling.posed (operator_requests mapper mgr m) (operator_keys reqs news olds)
    (start_measure reqs news c) (instances reqs (news @ olds))"
proof -
  have sep: "separate reqs news olds" "operator_admits admits reqs (news @ olds)"
    using assms(2) by (simp_all add: operator_posed_def)
  note loop = operator_settling [OF assms(1) sep(1) assms(3) sep(2)]
  note asks = heard_instances [OF assms(1)]
  have "list_all (\<lambda>e. \<exists>k. (i, k) \<in> operator_keys reqs news olds \<and> operator_requests mapper mgr m i e = [k])
      (heard (operator_requests mapper mgr m i) (instances reqs (news @ olds)))" for i
    by (cases i) (auto simp: asks list_all_iff operator_keys_def request_key_def)
  moreover have "\<exists>e \<in> set (instances reqs (news @ olds)). operator_requests mapper mgr m (fst x) e = [snd x]"
    if "x \<in> operator_keys reqs news olds" for x
    using that by (force simp: operator_keys_def instances_def asks request_key_def)
  ultimately show ?thesis
    unfolding settling.posed_def [OF loop] settling.known_def [OF loop] by blast
qed

text \<open>The operator on a cluster with work: how long it runs, and what is left when it rests.\<close>

lemma operator_rests:
  assumes "operator_runs mapper mgr m view admits refusal" and "operator_posed admits reqs news olds (view (w_cluster w))"
    and "GVKForObject T_ProfileBundle operator_scheme = Inr g"
    and "loop_run (operator_requests mapper mgr m) (operator_reconcile mgr m)
      (started (operator_requests mapper mgr m) (instances reqs (news @ olds)) w) ls s"
  shows "length ls \<le> 15 * length reqs + 9 * length news + 3 * length olds + 6 * hold_ups refusal ls"
    and "stuck (operator_requests mapper mgr m) (operator_reconcile mgr m) s \<Longrightarrow> at_rest s
      \<and> operator_left operator_scheme g reqs news olds (\<lambda>_. 0) (view (w_cluster (lo_world s)))
      \<and> unrelated reqs news (view (w_cluster (lo_world s))) = unrelated reqs news (view (w_cluster w))"
proof -
  let ?c = "view (w_cluster w)"
  have sep: "separate reqs news olds" "operator_admits admits reqs (news @ olds)"
    using assms(2) by (simp_all add: operator_posed_def)
  note asks = heard_instances [OF assms(1)]
  note settled = settling.settles [OF operator_settling [OF assms(1) sep(1) assms(3) sep(2), of "unrelated reqs news ?c"]
      conjI [OF operator_left_start [OF assms(2)] refl] operator_start_posed [OF assms(1-3)] assms(4)]
  have "(\<Sum>i \<in> UNIV. 3 * length (heard (operator_requests mapper mgr m i) (instances reqs (news @ olds))))
      = 3 * length reqs + 3 * length news + 3 * length olds"
    by (simp add: UNIV_controller asks)
  moreover have "(\<Sum>x \<in> operator_keys reqs news olds. cost (start_measure reqs news ?c x))
      \<le> 12 * length reqs + 6 * length news"
    by (rule start_cost) (rule start_measure_le, simp add: start_measure_def)
  ultimately show "length ls \<le> 15 * length reqs + 9 * length news + 3 * length olds + 6 * hold_ups refusal ls"
    using settled(1) by simp
  assume "stuck (operator_requests mapper mgr m) (operator_reconcile mgr m) s"
  from settled(2) [OF this] obtain n where n: "at_rest s"
    "operator_left operator_scheme g reqs news olds n (view (w_cluster (lo_world s)))"
    "unrelated reqs news (view (w_cluster (lo_world s))) = unrelated reqs news ?c"
    "\<forall>x \<in> operator_keys reqs news olds. n x = 0" by blast
  from n(4) have "n (TailoredProfiles, key_of (tp_Meta tp)) = 0" if "(tp, p, pb) \<in> set reqs" for tp p pb
    using that by (force simp: operator_keys_def request_key_def)
  moreover from n(4) have "n (ProfileBundles, pb_key pb) = 0" if "pb \<in> set news" for pb
    using that by (simp add: operator_keys_def)
  ultimately have "operator_left operator_scheme g reqs news olds (\<lambda>_. 0) (view (w_cluster (lo_world s)))"
    using n(2) by (fastforce simp: operator_left_def)
  with n(1,3) show "at_rest s
      \<and> operator_left operator_scheme g reqs news olds (\<lambda>_. 0) (view (w_cluster (lo_world s)))
      \<and> unrelated reqs news (view (w_cluster (lo_world s))) = unrelated reqs news ?c" by blast
qed

lemma operator_comes_to_rest:
  assumes "operator_runs mapper mgr m view admits (\<lambda>_. False)" and "operator_posed admits reqs news olds (view (w_cluster w))"
    and "GVKForObject T_ProfileBundle operator_scheme = Inr g"
  shows "\<exists>ls s. loop_run (operator_requests mapper mgr m) (operator_reconcile mgr m)
      (started (operator_requests mapper mgr m) (instances reqs (news @ olds)) w) ls s
    \<and> stuck (operator_requests mapper mgr m) (operator_reconcile mgr m) s"
  by (rule loop_run_bounded_ends) (rule operator_rests(1) [OF assms, unfolded hold_ups_reliable])

lemma operator_bundle_kind: "\<exists>g. GVKForObject T_ProfileBundle operator_scheme = Inr g"
  by (simp add: operator_scheme_eq registrations GVKForObject_def ObjectKinds_def)

text \<open>What the operator has made of a request and of a new bundle.\<close>

definition request_done :: "cluster \<Rightarrow> tailored_profile \<Rightarrow> profile \<Rightarrow> profile_bundle \<Rightarrow> bool" where
  "request_done c tp p pb \<longleftrightarrow> (\<exists>tp'. same_request tp tp'
     \<and> k_TailoredProfiles c (key_of (tp_Meta tp)) = Some tp'
     \<and> isOwnedBy (tp_Meta tp') (pr_Meta p) \<and> produced UNIV c tp' p pb)"

definition bundle_started :: "cluster \<Rightarrow> profile_bundle \<Rightarrow> bool" where
  "bundle_started c pb \<longleftrightarrow>
     (\<exists>pb' x env g. k_ProfileBundles c (key_of (pb_Meta pb)) = Some pb'
     \<and> pb_Meta pb' = pb_Meta pb \<and> pb_Spec pb' = pb_Spec pb
     \<and> pbst_DataStreamStatus (pb_Status pb') = DataStreamPending
     \<and> k_Pods c (pod_key pb) = Some x \<and> pod_Spec x = pod_Spec (newPodForBundle env pb)
     \<and> GVKForObject T_ProfileBundle operator_scheme = Inr g
     \<and> (\<exists>ref \<in> set (om_OwnerReferences (pod_Meta x)). refers_to g (pb_Meta pb) ref))"

text \<open>
  C4: the operator comes to rest. With both controllers running side by side over one cluster,
  any number of well-posed requests without a ConfigMap, of bundles without a Pod and of bundles
  whose Pod can start, each instance under a key of its own and no request over a bundle without a
  Pod, and a server that may refuse any call for a while but admits the ConfigMaps of the requests
  and the Pods of the bundles, every interleaving of the deliveries, requests and
  reconciliations of both ends within fifteen steps for each request, nine for each new bundle,
  three for each other one, and six for each reconciliation that came back with a refusal; so it
  ends whenever the refusals do. Where it ends nothing is pending; every request is owned by its profile, READY, and refers to the ConfigMap
  with its own tailoring document; every new bundle is PENDING and has its parser Pod, with the
  bundle as owner; the bundles whose Pod can start and everything else in the cluster are as they were.
\<close>

theorem operator_settles:
  assumes "operator_runs mapper mgr m view admits refusal" and "operator_posed admits reqs news olds (view (w_cluster w))"
    and "loop_run (operator_requests mapper mgr m) (operator_reconcile mgr m)
      (started (operator_requests mapper mgr m) (instances reqs (news @ olds)) w) ls s"
    and "c = view (w_cluster (lo_world s))"
  shows "length ls \<le> 15 * length reqs + 9 * length news + 3 * length olds + 6 * hold_ups refusal ls
    \<and> (stuck (operator_requests mapper mgr m) (operator_reconcile mgr m) s \<longrightarrow> at_rest s
       \<and> (\<forall>(tp, p, pb) \<in> set reqs. request_done c tp p pb)
       \<and> (\<forall>pb \<in> set news. bundle_started c pb)
       \<and> (\<forall>pb \<in> set olds. k_ProfileBundles c (key_of (pb_Meta pb)) = Some pb)
       \<and> unrelated reqs news c = unrelated reqs news (view (w_cluster w)))"
proof -
  obtain g where g: "GVKForObject T_ProfileBundle operator_scheme = Inr g" using operator_bundle_kind by blast
  note rests = operator_rests [OF assms(1,2) g assms(3)]
  have done_all: "request_done c tp p pb" if "operator_left operator_scheme g reqs news olds (\<lambda>_. 0) c"
    and "(tp, p, pb) \<in> set reqs" for tp p pb
    using that on_track_done [of UNIV operator_scheme tp p pb c]
    by (fastforce simp: operator_left_def request_done_def)
  have started_all: "bundle_started c pb" if "operator_left operator_scheme g reqs news olds (\<lambda>_. 0) c"
    and "pb \<in> set news" for pb
  proof -
    from that have "bundle_left g pb 0 c" by (auto simp: operator_left_def)
    then show ?thesis using g unfolding bundle_left_def bundle_started_def by auto
  qed
  show ?thesis
    using rests done_all started_all assms(4) by (auto simp: operator_left_def bundle_settled_def)
qed

section \<open>On the memory server\<close>

definition ex_manager :: "(unit, mem_server) manager" where
  "ex_manager = \<lparr>m_GetClient = (\<lambda>_. mem_client), m_GetScheme = (\<lambda>_. operator_scheme),
     m_New = (\<lambda>_ _ m. (None, m)), m_Watch = (\<lambda>_ _ _ m. (None, m)), m_env = ex_env,
     m_ToUnstructured = (\<lambda>_. Inr (JObject []))\<rparr>"

lemma ex_manager_runs: "operator_runs (\<lambda>_ _. Inr True) ex_manager () ms_cluster (\<lambda>_. True) (\<lambda>_. False)"
  using mem.refusing_server_axioms by (simp add: operator_runs_def ex_manager_def)

definition ex_new_bundle :: profile_bundle where
  "ex_new_bundle = ex_bundle\<lparr>pb_Meta := ex_meta ''ocp4''\<rparr>"

definition ex_operator_cluster :: cluster where
  "ex_operator_cluster = ex_cluster\<lparr>k_ProfileBundles := (k_ProfileBundles ex_cluster)(nsn ''ns'' ''ocp4'' \<mapsto> ex_new_bundle)\<rparr>"

definition ex_operator_world :: "mem_server world" where
  "ex_operator_world = \<lparr>w_cluster = \<lparr>ms_cluster = ex_operator_cluster, ms_next = 0\<rparr>, w_writes = []\<rparr>"

lemma ex_operator_posed:
  "operator_posed (\<lambda>_. True) [(ex_request, ex_profile, ex_bundle)] [ex_new_bundle] [] ex_operator_cluster"
proof -
  have "well_posed operator_scheme ex_operator_cluster ex_request ex_profile ex_bundle"
    using ex_well_posed
    by (simp add: well_posed_def registered_def operator_scheme_eq registrations GVKForObject_def ObjectKinds_def
        ex_operator_cluster_def extends_profile_def selections_exist_def getProfileBundleReferenceFromProfile_def
        ex_cluster_def ex_profile_def gv_String_scheme)
  moreover have "separate [(ex_request, ex_profile, ex_bundle)] [ex_new_bundle] []"
    by (simp add: separate_def bundle_key_def pb_key_def key_of_def ex_new_bundle_def ex_meta_def zero_meta_def
        ex_profile_def getProfileBundleReferenceFromProfile_def gv_String_scheme)
  moreover have "k_ProfileBundles ex_operator_cluster (pb_key ex_new_bundle) = Some ex_new_bundle"
    by (simp add: ex_operator_cluster_def pb_key_def key_of_def ex_new_bundle_def ex_meta_def zero_meta_def)
  ultimately show ?thesis
    by (simp add: operator_posed_def operator_admits_def ex_operator_cluster_def ex_cluster_def)
qed

interpretation mem_operator: settling "operator_requests (\<lambda>_ _. Inr True) ex_manager ()" "operator_reconcile ex_manager ()"
    "\<lambda>_. False" "operator_keys [(ex_request, ex_profile, ex_bundle)] [ex_new_bundle] []"
    "\<lambda>n w. operator_left operator_scheme (projr (GVKForObject T_ProfileBundle operator_scheme))
       [(ex_request, ex_profile, ex_bundle)] [ex_new_bundle] [] n (ms_cluster (w_cluster w))
     \<and> unrelated [(ex_request, ex_profile, ex_bundle)] [ex_new_bundle] (ms_cluster (w_cluster w)) = content"
  for content
proof -
  have "separate [(ex_request, ex_profile, ex_bundle)] [ex_new_bundle] []"
    using ex_operator_posed by (simp add: operator_posed_def)
  moreover have "GVKForObject T_ProfileBundle operator_scheme = Inr (projr (GVKForObject T_ProfileBundle operator_scheme))"
    using operator_bundle_kind by auto
  ultimately show "settling (operator_requests (\<lambda>_ _. Inr True) ex_manager ()) (operator_reconcile ex_manager ())
    (\<lambda>_. False) (operator_keys [(ex_request, ex_profile, ex_bundle)] [ex_new_bundle] [])
    (\<lambda>n w. operator_left operator_scheme (projr (GVKForObject T_ProfileBundle operator_scheme))
       [(ex_request, ex_profile, ex_bundle)] [ex_new_bundle] [] n (ms_cluster (w_cluster w))
     \<and> unrelated [(ex_request, ex_profile, ex_bundle)] [ex_new_bundle] (ms_cluster (w_cluster w)) = content)"
    by (rule operator_settling [OF ex_manager_runs]) (simp add: operator_admits_def)
qed

theorem operator_settles_witness:
  "\<exists>ls s tp pb. loop_run (operator_requests (\<lambda>_ _. Inr True) ex_manager ()) (operator_reconcile ex_manager ())
       (started (operator_requests (\<lambda>_ _. Inr True) ex_manager ())
         [TailoredProfileObj ex_request, ProfileBundleObj ex_new_bundle] ex_operator_world) ls s
     \<and> length ls \<le> 24 \<and> at_rest s
     \<and> k_TailoredProfiles (ms_cluster (w_cluster (lo_world s))) (key_of (tp_Meta ex_request)) = Some tp
     \<and> tpst_State (tp_Status tp) = ''READY''
     \<and> k_ProfileBundles (ms_cluster (w_cluster (lo_world s))) (key_of (pb_Meta ex_new_bundle)) = Some pb
     \<and> pbst_DataStreamStatus (pb_Status pb) = ''PENDING''"
proof -
  obtain g where g: "GVKForObject T_ProfileBundle operator_scheme = Inr g" using operator_bundle_kind by blast
  have posed: "operator_posed (\<lambda>_. True) [(ex_request, ex_profile, ex_bundle)] [ex_new_bundle] []
      (ms_cluster (w_cluster ex_operator_world))"
    using ex_operator_posed by (simp add: ex_operator_world_def)
  from operator_comes_to_rest [OF ex_manager_runs posed g] obtain ls s where
    run: "loop_run (operator_requests (\<lambda>_ _. Inr True) ex_manager ()) (operator_reconcile ex_manager ())
       (started (operator_requests (\<lambda>_ _. Inr True) ex_manager ())
         (instances [(ex_request, ex_profile, ex_bundle)] ([ex_new_bundle] @ [])) ex_operator_world) ls s"
      "stuck (operator_requests (\<lambda>_ _. Inr True) ex_manager ()) (operator_reconcile ex_manager ()) s" by blast
  from operator_settles [OF ex_manager_runs posed run(1) refl] run(2) run(1) [unfolded instances_def]
  show ?thesis
    by (fastforce simp: request_done_def bundle_started_def produced_def TailoredProfileStateReady_def DataStreamPending_def)
qed

end
