(* ===== verification/Tailoring_Text.thy ===== *)
theory Tailoring_Text
  imports Xccdf
begin

text \<open>
  Reading the tailoring document back from its text, line by line: nothing that was selected or
  set is lost or added in writing it, whatever the user wrote.
\<close>

section \<open>A reader\<close>

text \<open>The text up to a quotation mark or an opening bracket, and what follows that byte.\<close>

definition read_until :: "char \<Rightarrow> string \<Rightarrow> string \<times> string" where
  "read_until stop s = (unescape (takeWhile (\<lambda>c. c \<noteq> stop) s), tl (dropWhile (\<lambda>c. c \<noteq> stop) s))"

definition select_start :: string where
  "select_start = ''<xccdf-1.2:select idref='' @ [CHR 0x22]"

definition set_value_start :: string where
  "set_value_start = ''<xccdf-1.2:set-value idref='' @ [CHR 0x22]"

definition read_selection :: "string \<Rightarrow> select_element option" where
  "read_selection line =
     (let s = dropWhile (\<lambda>c. c = CHR '' '') line in
      if HasPrefix s select_start then
        (case read_until (CHR 0x22) (TrimPrefix s select_start) of
           (ident, rest) \<Rightarrow> Some \<lparr>se_IDRef = ident,
             se_Selected = HasPrefix rest ('' selected='' @ [CHR 0x22] @ ''true'')\<rparr>)
      else None)"

definition read_set_value :: "string \<Rightarrow> set_value_element option" where
  "read_set_value line =
     (let s = dropWhile (\<lambda>c. c = CHR '' '') line in
      if HasPrefix s set_value_start then
        (case read_until (CHR 0x22) (TrimPrefix s set_value_start) of
           (ident, rest) \<Rightarrow> Some \<lparr>sv_IDRef = ident, sv_Value = fst (read_until (CHR ''<'') (tl rest))\<rparr>)
      else None)"

definition read_selections :: "string \<Rightarrow> select_element list" where
  "read_selections doc = List.map_filter read_selection (Split doc (CHR 0x0A))"

definition read_set_values :: "string \<Rightarrow> set_value_element list" where
  "read_set_values doc = List.map_filter read_set_value (Split doc (CHR 0x0A))"

section \<open>The lines of a document\<close>

lemma EscapeText_no_newline: "CHR 0x0A \<notin> set (EscapeText s)"
  using EscapeText_no_markup [of s] by (auto simp: markup_bytes_def)

lemma EscapeText_no_quote: "CHR 0x22 \<notin> set (EscapeText s)"
  using EscapeText_no_markup [of s] by (auto simp: markup_bytes_def)

definition spaces :: "nat \<Rightarrow> string" where
  "spaces d = concat (replicate d ''  '')"

lemma newline_indent_eq: "newline_indent d = CHR 0x0A # spaces d"
  by (simp add: newline_indent_def spaces_def)

lemma spaces_no_newline: "CHR 0x0A \<notin> set (spaces d)"
  by (auto simp: spaces_def)

lemma dropWhile_spaces [simp]:
  "dropWhile (\<lambda>c. c = CHR '' '') (spaces d @ s) = dropWhile (\<lambda>c. c = CHR '' '') s"
  by (induction d) (simp_all add: spaces_def)

definition start_tag :: "string \<Rightarrow> (string \<times> string) list \<Rightarrow> string" where
  "start_tag name attrs = ''<'' @ name @ concat (map marshal_attr attrs) @ ''>''"

definition end_tag :: "string \<Rightarrow> string" where
  "end_tag name = ''</'' @ name @ ''>''"

fun elem_lines :: "nat \<Rightarrow> xml_elem \<Rightarrow> string list" where
  "elem_lines d (Elem name attrs chardata children) =
     (let first = spaces d @ start_tag name attrs @ EscapeText chardata in
      if children = [] then [first @ end_tag name]
      else first # concat (map (elem_lines (Suc d)) children) @ [spaces d @ end_tag name])"

fun newline_free :: "xml_elem \<Rightarrow> bool" where
  "newline_free (Elem name attrs chardata children) \<longleftrightarrow>
     CHR 0x0A \<notin> set name \<and> list_all (\<lambda>a. CHR 0x0A \<notin> set (fst a)) attrs \<and>
     list_all newline_free children"

lemma concat_map_lines: "concat (map f (concat (map g xs))) = concat (map (\<lambda>x. concat (map f (g x))) xs)"
  by (induction xs) simp_all

lemma elem_lines_text:
  "concat (map (\<lambda>l. CHR 0x0A # l) (elem_lines d e)) = newline_indent d @ marshal_elem d e"
proof (induction d e rule: elem_lines.induct)
  case (1 d name attrs chardata children)
  have "concat (map (\<lambda>l. CHR 0x0A # l) (concat (map (elem_lines (Suc d)) children)))
      = concat (map (\<lambda>c. newline_indent (Suc d) @ marshal_elem (Suc d) c) children)"
    if "children \<noteq> []"
    using "1.IH" [OF refl that] by (simp add: concat_map_lines cong: map_cong)
  then show ?case by (simp add: Let_def start_tag_def end_tag_def newline_indent_eq)
qed

lemma elem_lines_no_newline:
  "newline_free e \<Longrightarrow> l \<in> set (elem_lines d e) \<Longrightarrow> CHR 0x0A \<notin> set l"
proof (induction d e arbitrary: l rule: elem_lines.induct)
  case (1 d name attrs chardata children)
  then show ?case
    by (auto simp: Let_def start_tag_def end_tag_def marshal_attr_def list_all_iff
        EscapeText_no_newline spaces_no_newline split: if_splits)
qed

lemma Split_lines:
  assumes "CHR 0x0A \<notin> set a" and "\<And>l. l \<in> set ls \<Longrightarrow> CHR 0x0A \<notin> set l"
  shows "Split (a @ concat (map (\<lambda>l. CHR 0x0A # l) ls)) (CHR 0x0A) = a # ls"
  using assms by (induction ls arbitrary: a) (simp_all add: Split_id Split_append)

lemma Split_document:
  assumes "newline_free e" and "CHR 0x0A \<notin> set a"
  shows "Split (a @ [CHR 0x0A] @ marshal_elem 0 e) (CHR 0x0A) = a # elem_lines 0 e"
  using Split_lines [of a "elem_lines 0 e"] assms elem_lines_no_newline [of e]
  by (simp add: elem_lines_text newline_indent_eq spaces_def)

section \<open>Reading the lines of the document\<close>

lemma takeWhile_until: "c \<notin> set s \<Longrightarrow> takeWhile (\<lambda>x. x \<noteq> c) (s @ c # t) = s"
  by (induction s) auto

lemma dropWhile_until: "c \<notin> set s \<Longrightarrow> dropWhile (\<lambda>x. x \<noteq> c) (s @ c # t) = c # t"
  by (induction s) auto

lemma read_until_quote: "valid_text v \<Longrightarrow> read_until (CHR 0x22) (EscapeText v @ CHR 0x22 # t) = (v, t)"
  by (simp add: read_until_def takeWhile_until dropWhile_until EscapeText_no_quote unescape_EscapeText)

lemma read_until_tag: "valid_text v \<Longrightarrow> read_until (CHR ''<'') (EscapeText v @ CHR ''<'' # t) = (v, t)"
  using EscapeText_no_markup [of v]
  by (simp add: read_until_def takeWhile_until dropWhile_until markup_bytes_def unescape_EscapeText)

lemma EscapeText_true_false: "EscapeText ''true'' = ''true''" "EscapeText ''false'' = ''false''"
  by (simp_all add: escape_rune_def is_in_character_range_def rune_error_def)

lemma read_selection_line:
  "valid_text (se_IDRef s) \<Longrightarrow> elem_lines d (select_xml s) = [l] \<Longrightarrow>
     read_selection l = Some s \<and> read_set_value l = None"
  by (cases "se_Selected s")
    (auto simp: select_xml_def start_tag_def marshal_attr_def end_tag_def read_selection_def
      read_set_value_def select_start_def set_value_start_def HasPrefix_def TrimPrefix_def
      read_until_quote FormatBool_def EscapeText_true_false simp del: EscapeText.simps)

lemma read_set_value_line:
  "valid_text (sv_IDRef v) \<Longrightarrow> valid_text (sv_Value v) \<Longrightarrow> elem_lines d (set_value_xml v) = [l] \<Longrightarrow>
     read_set_value l = Some v \<and> read_selection l = None"
  by (auto simp: set_value_xml_def start_tag_def marshal_attr_def end_tag_def read_selection_def
      read_set_value_def select_start_def set_value_start_def HasPrefix_def TrimPrefix_def
      read_until_quote read_until_tag)

text \<open>A line that starts neither of the two elements is passed over.\<close>

definition other_line :: "string \<Rightarrow> bool" where
  "other_line l \<longleftrightarrow>
     (let s = dropWhile (\<lambda>c. c = CHR '' '') l in
      \<not> HasPrefix s select_start \<and> \<not> HasPrefix s set_value_start)"

lemma read_other_line: "other_line l \<Longrightarrow> read_selection l = None \<and> read_set_value l = None"
  by (simp add: other_line_def read_selection_def read_set_value_def Let_def)

lemma other_lines:
  "other_line XMLHeader"
  "l \<in> set (elem_lines d (benchmark_xml b)) \<Longrightarrow> other_line l"
  "l \<in> set (elem_lines d (version_xml v)) \<Longrightarrow> other_line l"
  "l \<in> set (elem_lines d (title_or_description_xml ''xccdf-1.2:title'' t)) \<Longrightarrow> other_line l"
  "l \<in> set (elem_lines d (title_or_description_xml ''xccdf-1.2:description'' t)) \<Longrightarrow> other_line l"
  "other_line (spaces d @ start_tag ''xccdf-1.2:Profile'' attrs @ x)"
  "other_line (start_tag ''xccdf-1.2:Tailoring'' attrs @ x)"
  "other_line (spaces d @ end_tag name)"
  by (simp_all add: other_line_def XMLHeader_def benchmark_xml_def version_xml_def
      title_or_description_xml_def start_tag_def end_tag_def select_start_def set_value_start_def
      HasPrefix_def)

section \<open>The document read back\<close>

lemma map_filter_none: "(\<And>x. x \<in> set xs \<Longrightarrow> f x = None) \<Longrightarrow> List.map_filter f xs = []"
  by (induction xs) (simp_all add: map_filter_simps)

lemma map_filter_append: "List.map_filter f (xs @ ys) = List.map_filter f xs @ List.map_filter f ys"
  by (simp add: map_filter_def)

lemma map_filter_blocks:
  "(\<And>x. x \<in> set xs \<Longrightarrow> \<exists>l. g x = [l] \<and> f l = Some x) \<Longrightarrow> List.map_filter f (concat (map g xs)) = xs"
  by (induction xs) (force simp: map_filter_simps)+

lemma one_line_select: "\<exists>l. elem_lines d (select_xml s) = [l]"
  by (simp add: select_xml_def Let_def)

lemma one_line_set_value: "\<exists>l. elem_lines d (set_value_xml v) = [l]"
  by (simp add: set_value_xml_def Let_def)

definition valid_profile :: "profile_element \<Rightarrow> bool" where
  "valid_profile p \<longleftrightarrow>
     list_all (\<lambda>s. valid_text (se_IDRef s)) (pe_Selections p) \<and>
     list_all (\<lambda>v. valid_text (sv_IDRef v) \<and> valid_text (sv_Value v)) (pe_Values p)"

lemma newline_free_tailoring: "newline_free (tailoring_xml t)"
  by (auto simp: tailoring_xml_def benchmark_xml_def version_xml_def profile_xml_def
      optional_xml_def title_or_description_xml_def select_xml_def set_value_xml_def
      list_all_iff split: option.splits)

text \<open>What a reader passes over, and what it finds, in the lines of the profile element.\<close>

lemma optional_other_lines:
  assumes "name = ''xccdf-1.2:title'' \<or> name = ''xccdf-1.2:description''"
  shows "l \<in> set (concat (map (elem_lines d) (optional_xml (title_or_description_xml name) x))) \<Longrightarrow>
    other_line l"
  using assms other_lines(4,5) by (auto simp: optional_xml_def split: option.splits)

lemma selection_blocks:
  assumes "valid_profile p"
  shows "List.map_filter read_selection (concat (map (elem_lines d) (map select_xml (pe_Selections p))))
      = pe_Selections p"
    and "List.map_filter read_set_value (concat (map (elem_lines d) (map select_xml (pe_Selections p)))) = []"
proof -
  have each: "\<exists>l. elem_lines d (select_xml s) = [l] \<and> read_selection l = Some s \<and> read_set_value l = None"
    if "s \<in> set (pe_Selections p)" for s
    using that assms one_line_select [of d s] read_selection_line [of s d]
    by (auto simp: valid_profile_def list_all_iff)
  show "List.map_filter read_selection (concat (map (elem_lines d) (map select_xml (pe_Selections p))))
      = pe_Selections p"
    using each by (auto simp: comp_def intro!: map_filter_blocks)
  show "List.map_filter read_set_value (concat (map (elem_lines d) (map select_xml (pe_Selections p)))) = []"
    using each by (intro map_filter_none) fastforce
qed

lemma set_value_blocks:
  assumes "valid_profile p"
  shows "List.map_filter read_set_value (concat (map (elem_lines d) (map set_value_xml (pe_Values p))))
      = pe_Values p"
    and "List.map_filter read_selection (concat (map (elem_lines d) (map set_value_xml (pe_Values p)))) = []"
proof -
  have each: "\<exists>l. elem_lines d (set_value_xml v) = [l] \<and> read_set_value l = Some v \<and> read_selection l = None"
    if "v \<in> set (pe_Values p)" for v
    using that assms one_line_set_value [of d v] read_set_value_line [of v d]
    by (auto simp: valid_profile_def list_all_iff)
  show "List.map_filter read_set_value (concat (map (elem_lines d) (map set_value_xml (pe_Values p))))
      = pe_Values p"
    using each by (auto simp: comp_def intro!: map_filter_blocks)
  show "List.map_filter read_selection (concat (map (elem_lines d) (map set_value_xml (pe_Values p)))) = []"
    using each by (intro map_filter_none) fastforce
qed

lemma profile_lines:
  assumes "valid_profile p"
  shows "List.map_filter read_selection (elem_lines d (profile_xml p)) = pe_Selections p
    \<and> List.map_filter read_set_value (elem_lines d (profile_xml p)) = pe_Values p"
proof -
  note other = read_other_line [OF optional_other_lines, THEN conjunct1]
    read_other_line [OF optional_other_lines, THEN conjunct2]
  have titles: "List.map_filter read_selection (concat (map (elem_lines k)
        (optional_xml (title_or_description_xml name) x))) = []"
    "List.map_filter read_set_value (concat (map (elem_lines k)
        (optional_xml (title_or_description_xml name) x))) = []"
    if "name = ''xccdf-1.2:title'' \<or> name = ''xccdf-1.2:description''" for k name x
    using that by (blast intro: map_filter_none other)+
  let ?first = "spaces d @ start_tag ''xccdf-1.2:Profile'' [(''id'', pe_ID p), (''extends'', pe_Extends p)]"
  have first: "read_selection (?first @ x) = None" "read_set_value (?first @ x) = None" for x
    using read_other_line [OF other_lines(6)] by (simp_all add: append_assoc)
  have last: "read_selection (spaces d @ end_tag n) = None" "read_set_value (spaces d @ end_tag n) = None" for n
    using read_other_line [OF other_lines(8)] by simp_all
  show ?thesis
    using selection_blocks [OF assms, of "Suc d"] set_value_blocks [OF assms, of "Suc d"]
      first [simplified] first [of "[]", simplified] last
    by (auto simp: profile_xml_def Let_def map_filter_append map_filter_simps titles)
qed

lemma tailoring_lines:
  assumes "valid_profile (te_Profile t)"
  shows "read_selections (XMLHeader @ [CHR 0x0A] @ marshal_elem 0 (tailoring_xml t)) = pe_Selections (te_Profile t)
    \<and> read_set_values (XMLHeader @ [CHR 0x0A] @ marshal_elem 0 (tailoring_xml t)) = pe_Values (te_Profile t)"
proof -
  have h: "CHR 0x0A \<notin> set XMLHeader" by (simp add: XMLHeader_def)
  have skip: "List.map_filter read_selection (elem_lines (Suc 0) e) = []"
    "List.map_filter read_set_value (elem_lines (Suc 0) e) = []"
    if "e \<in> {benchmark_xml (te_Benchmark t), version_xml (te_Version t)}" for e
    using that read_other_line other_lines(2,3) by (blast intro: map_filter_none)+
  have lines: "elem_lines 0 (tailoring_xml t) =
      [start_tag ''xccdf-1.2:Tailoring'' [(''xmlns:xccdf-1.2'', te_XMLNamespaceURI t), (''id'', te_ID t)]]
      @ elem_lines 1 (benchmark_xml (te_Benchmark t)) @ elem_lines 1 (version_xml (te_Version t))
      @ elem_lines 1 (profile_xml (te_Profile t)) @ [end_tag ''xccdf-1.2:Tailoring'']"
    by (simp add: tailoring_xml_def spaces_def del: elem_lines.simps) (simp add: spaces_def)
  have ends: "other_line (start_tag ''xccdf-1.2:Tailoring'' attrs)" "other_line (end_tag n)" for attrs n
    using other_lines(7) [of attrs "[]"] other_lines(8) [of 0 n] by (simp_all add: spaces_def)
  show ?thesis
    unfolding read_selections_def read_set_values_def
      Split_document [OF newline_free_tailoring h] lines
    by (simp add: map_filter_simps map_filter_append read_other_line [OF other_lines(1)]
        read_other_line [OF ends(1)] read_other_line [OF ends(2)] skip profile_lines [OF assms]
        del: elem_lines.simps)
qed

text \<open>
  C14: the tailoring document can be read back from its text: when the identifiers of the
  selected rules and the identifiers and values of the variables are legal XML text, a reader
  that takes the document line by line finds exactly the selections, in the order of the spec
  and each with its sign, and exactly the values set, whatever else the request contains.
\<close>

theorem tailoring_roundtrip:
  assumes "TailoredProfileToXML env tp p pb rules variables = Inr (Inr doc)"
    and "\<forall>n \<in> set (selected_names tp). valid_text (ru_ID (the (rules n)))"
    and "\<forall>v \<in> set variables. valid_text (va_ID v) \<and> valid_text (va_Value v)"
  shows "read_selections doc =
      map (select_of rules True) (tps_EnableRules (tp_Spec tp))
      @ map (select_of rules False) (tps_DisableRules (tp_Spec tp))
    \<and> read_set_values doc = map (\<lambda>v. \<lparr>sv_IDRef = va_ID v, sv_Value = va_Value v\<rparr>) variables"
proof -
  have sub: "set (selected_names tp) \<subseteq> dom rules"
    using assms(1) by (auto simp: TailoredProfileToXML_def getSelections_eq split: if_splits)
  let ?t = "tailoring_of env tp p pb (map (select_of rules True) (tps_EnableRules (tp_Spec tp))
      @ map (select_of rules False) (tps_DisableRules (tp_Spec tp))) variables"
  have "valid_profile (te_Profile ?t)"
    using assms(2,3)
    by (auto simp: valid_profile_def tailoring_of_def list_all_iff select_of_def selected_names_def
        getValuesFromVariables_def)
  from tailoring_lines [OF this] assms(1) [unfolded TailoredProfileToXML_eq [OF sub]] show ?thesis
    by (auto simp: tailoring_of_def getValuesFromVariables_def)
qed

theorem tailoring_roundtrip_witness:
  "\<exists>doc. TailoredProfileToXML ex_env ex_request ex_profile ex_bundle
       [''rhcos-no-root'' \<mapsto> ex_rule] [ex_variable\<lparr>va_Value := CHR 0x0A # ''<&''\<rparr>] = Inr (Inr doc)
     \<and> read_selections doc = [\<lparr>se_IDRef = ru_ID ex_rule, se_Selected = False\<rparr>]
     \<and> read_set_values doc = [\<lparr>sv_IDRef = va_ID ex_variable, sv_Value = CHR 0x0A # ''<&''\<rparr>]"
proof -
  have "set (selected_names ex_request) \<subseteq> dom [''rhcos-no-root'' \<mapsto> ex_rule]"
    by (simp add: selected_names_def ex_request_def)
  from TailoredProfileToXML_eq [OF this] obtain doc where
    doc: "TailoredProfileToXML ex_env ex_request ex_profile ex_bundle
       [''rhcos-no-root'' \<mapsto> ex_rule] [ex_variable\<lparr>va_Value := CHR 0x0A # ''<&''\<rparr>] = Inr (Inr doc)" by blast
  have "valid_text (ru_ID ex_rule)" "valid_text (va_ID ex_variable)" "valid_text (CHR 0x0A # ''<&'')"
    by (simp_all add: ex_rule_def ex_variable_def is_in_character_range_def rune_error_def)
  with doc tailoring_roundtrip [OF doc] show ?thesis
    by (simp add: selected_names_def ex_request_def select_of_def)
qed

end
