(* ===== verification/Parse_And_Tailor.thy ===== *)
theory Parse_And_Tailor
  imports Parser_Tables Controllers_Settle Tailoring_Text
begin

text \<open>
  The operator, the parser and the operator again, one after the other on the same server: from a
  bundle and a request over its data stream to the ConfigMap with the tailoring document.
\<close>

section \<open>The process of the parser container\<close>

text \<open>It is configured for the bundle whose Pod it runs in, once it has a client.\<close>

lemma container_config:
  assumes "co \<in> set (ps_Containers (pod_Spec (newPodForBundle env pb)))" and "pp_Args proc = co_Args co"
    and "om_Name (pb_Meta pb) \<noteq> []" and "om_Namespace (pb_Meta pb) \<noteq> []"
  shows "newParserConfig proc = (case getK8sClient proc getK8sScheme of Inl e \<Rightarrow> Inl e | Inr client \<Rightarrow>
    Inr \<lparr>pc_DataStreamPath = benchmark_href pb, pc_ProfileBundleKey = key_of (pb_Meta pb),
         pc_Client = client, pc_Scheme = getK8sScheme, pc_env = pp_env proc,
         pc_DecodeYAML = pp_DecodeYAML proc, pc_Open = pp_Open proc\<rparr>)"
proof -
  have args: "pp_Args proc =
      [''--'' @ ''profile-bundle-name'', om_Name (pb_Meta pb),
       ''--'' @ ''profile-bundle-namespace'', om_Namespace (pb_Meta pb), ''--'' @ ''ds-path'', benchmark_href pb]"
    using assms(1,2) by (simp add: newPodForBundle_def benchmark_href_def)
  have "parse_args parser_flags (pp_OtherFlag proc) (pp_Args proc) Map.empty
      = Inr [''profile-bundle-name'' \<mapsto> om_Name (pb_Meta pb),
             ''profile-bundle-namespace'' \<mapsto> om_Namespace (pb_Meta pb), ''ds-path'' \<mapsto> benchmark_href pb]"
    unfolding args parser_flags_def
    by (simp add: parse_args_flag del: append.simps parse_args.simps(2))
  then show ?thesis
    using assms(3,4) by (simp add: newParserConfig_def flag_value_def check_config_def assertNotEmpty_def key_of_def
        split: sum.split)
qed

lemma container_parser_of:
  assumes "co \<in> set (ps_Containers (pod_Spec (newPodForBundle env pb)))" and "pp_Args proc = co_Args co"
    and "om_Name (pb_Meta pb) \<noteq> []" and "om_Namespace (pb_Meta pb) \<noteq> []" and "newParserConfig proc = Inr pcfg"
  shows "parser_of pb pcfg" and "main proc = run_parser pcfg"
  using container_config [OF assms(1-4)] assms(5)
  by (auto simp: parser_of_def main_def split: sum.splits)

definition ex_process :: "mem_server parser_process" where
  "ex_process = \<lparr>pp_Args = co_Args (hd (ps_Containers (pod_Spec (newPodForBundle ex_env ex_bundle)))),
     pp_OtherFlag = (\<lambda>_ _. Inl (Exit 2)), pp_GetConfig = Inr [], pp_NewClient = (\<lambda>_ _. Inr mem_client),
     pp_env = ex_env, pp_DecodeYAML = (\<lambda>_ obj. (obj, None)), pp_Open = (\<lambda>_. Inr (XML_text ex_root, io_EOF))\<rparr>"

section \<open>Parsed rules\<close>

text \<open>
  The keys that belong to a bundle, under which its parser stores its objects; a cluster that has
  no parsed objects there yet; and a request all of whose names are such keys.
\<close>

definition own_key :: "profile_bundle \<Rightarrow> nsname \<Rightarrow> bool" where
  "own_key pb k \<longleftrightarrow> (\<exists>n. k = nsn (om_Namespace (pb_Meta pb)) (om_Name (pb_Meta pb) @ ''-'' @ n))"

definition nothing_parsed :: "profile_bundle \<Rightarrow> cluster \<Rightarrow> bool" where
  "nothing_parsed pb c \<longleftrightarrow>
     (\<forall>k. own_key pb k \<longrightarrow> k_Profiles c k = None \<and> k_Rules c k = None \<and> k_Variables c k = None)"

lemma nothing_parsedD:
  "nothing_parsed pb c \<Longrightarrow> own_key pb k \<Longrightarrow> k_Profiles c k = None"
  "nothing_parsed pb c \<Longrightarrow> own_key pb k \<Longrightarrow> k_Rules c k = None"
  "nothing_parsed pb c \<Longrightarrow> own_key pb k \<Longrightarrow> k_Variables c k = None"
  by (simp_all add: nothing_parsed_def)

definition own_names :: "profile_bundle \<Rightarrow> tailored_profile \<Rightarrow> bool" where
  "own_names pb tp \<longleftrightarrow>
     (\<forall>n \<in> set (selected_names tp) \<union> vv_Name ` set (tps_SetValues (tp_Spec tp)). own_key pb (nsn (tp_ns tp) n))"

lemma own_object_names:
  "own_key pb (nsn (om_Namespace (pb_Meta pb)) (profile_object_name pcfg pb i))"
  "own_key pb (nsn (om_Namespace (pb_Meta pb)) (rule_object_name pcfg pb i))"
  "own_key pb (nsn (om_Namespace (pb_Meta pb)) (variable_object_name pcfg pb i))"
  by (auto simp: own_key_def profile_object_name_def rule_object_name_def variable_object_name_def)

text \<open>Under the keys of the bundle, the rules are those the parser created, with the UIDs of the server.\<close>

definition rules_parsed ::
  "'w parser_config \<Rightarrow> profile_bundle \<Rightarrow> node \<Rightarrow> cluster \<Rightarrow> bool" where
  "rules_parsed pcfg pb root c \<longleftrightarrow>
     (\<forall>k q. own_key pb k \<longrightarrow> k_Rules c k = Some q \<longrightarrow> (\<exists>r \<in> set (stream_rules pcfg root). \<exists>q' u.
        rule_object pcfg pb r = Some (RuleObj q') \<and> key_of (ru_Meta q') = k
        \<and> q = q'\<lparr>ru_Meta := with_uid u (ru_Meta q')\<rparr>))"

lemma parsed_rule:
  assumes "parser_of pb pcfg" and "rules_parsed pcfg pb root c" and "own_key pb (nsn ns n)"
    and "k_Rules c (nsn ns n) = Some q"
  shows "rule_object_name pcfg pb (ru_ID q) = n
    \<and> (\<exists>m \<in> set (Query root ''Rule''). GetAttributeValue m ''id'' = ru_ID q)"
proof -
  from assms(2-4) obtain r q' u where r: "r \<in> set (stream_rules pcfg root)"
    "rule_object pcfg pb r = Some (RuleObj q')" "key_of (ru_Meta q') = nsn ns n"
    "q = q'\<lparr>ru_Meta := with_uid u (ru_Meta q')\<rparr>"
    unfolding rules_parsed_def by blast
  from rule_object_owned [OF assms(1) r(1)] r(2)
  have "om_Name (ru_Meta q') = rule_object_name pcfg pb (ru_ID r)" "ru_ID q' = ru_ID r"
    by (auto simp: belongs_to_def rule_object_name_def)
  moreover have "om_Name (ru_Meta q') = n"
    using r(3) by (metis key_of_simps(1) nsname.select_convs(2))
  ultimately show ?thesis
    using r(4) rules.emitted_meta(5) [OF r(1) [unfolded stream_rules_def]] by auto
qed

text \<open>The rule that a selected name stands for.\<close>

definition selects_stream_rule ::
  "'w parser_config \<Rightarrow> profile_bundle \<Rightarrow> node \<Rightarrow> cluster \<Rightarrow> tailored_profile \<Rightarrow> string \<Rightarrow> bool" where
  "selects_stream_rule pcfg pb root c tp n \<longleftrightarrow> (\<exists>q. expected_rules c tp n = Some q
     \<and> rule_object_name pcfg pb (ru_ID q) = n
     \<and> (\<exists>x \<in> set (Query root ''Rule''). GetAttributeValue x ''id'' = ru_ID q))"

lemma selections_found:
  assumes "parser_of pb pcfg" and "rules_parsed pcfg pb root c" and "own_names pb tp" and "selections_exist c tp"
    and "n \<in> set (selected_names tp)"
  shows "selects_stream_rule pcfg pb root c tp n"
proof -
  from assms(4,5) obtain q where q: "k_Rules c (nsn (tp_ns tp) n) = Some q" by (auto simp: selections_exist_def)
  have "own_key pb (nsn (tp_ns tp) n)" using assms(3,5) by (simp add: own_names_def)
  with q assms(5) parsed_rule [OF assms(1,2) this] show ?thesis
    by (simp add: expected_rules_def selects_stream_rule_def)
qed

text \<open>The same for the variables.\<close>

definition variables_parsed ::
  "'w parser_config \<Rightarrow> profile_bundle \<Rightarrow> node \<Rightarrow> cluster \<Rightarrow> bool" where
  "variables_parsed pcfg pb root c \<longleftrightarrow>
     (\<forall>k q. own_key pb k \<longrightarrow> k_Variables c k = Some q \<longrightarrow> (\<exists>v \<in> set (stream_variables pcfg root). \<exists>q' u.
        variable_object pcfg pb v = Some (VariableObj q') \<and> key_of (va_Meta q') = k
        \<and> q = q'\<lparr>va_Meta := with_uid u (va_Meta q')\<rparr>))"

lemma parsed_variable:
  assumes "parser_of pb pcfg" and "variables_parsed pcfg pb root c" and "own_key pb (nsn ns n)"
    and "k_Variables c (nsn ns n) = Some q"
  shows "\<exists>v \<in> set (stream_variables pcfg root). \<exists>m. q = v\<lparr>va_Meta := m\<rparr>
    \<and> variable_object_name pcfg pb (va_ID v) = n"
proof -
  from assms(2-4) obtain v q' u where v: "v \<in> set (stream_variables pcfg root)"
    "variable_object pcfg pb v = Some (VariableObj q')" "key_of (va_Meta q') = nsn ns n"
    "q = q'\<lparr>va_Meta := with_uid u (va_Meta q')\<rparr>"
    unfolding variables_parsed_def by blast
  from variable_object_owned [OF assms(1) v(1)] v(2) obtain m where m: "q' = v\<lparr>va_Meta := m\<rparr>"
    "om_Name m = variable_object_name pcfg pb (va_ID v)"
    by (auto simp: belongs_to_def variable_object_name_def)
  with v(3) have "variable_object_name pcfg pb (va_ID v) = n"
    by (metis key_of_simps(1) nsname.select_convs(2) variable.select_convs(2) variable.surjective
        variable.update_convs(2))
  with v(1,4) m(1) show ?thesis by auto
qed

lemma run_adds_rules:
  assumes "parser_of pb pcfg" and "populated c (run_objects pcfg pb root) d"
    and "nothing_parsed pb c" and "stream_error pcfg root = None"
  shows "rules_parsed pcfg pb root d"
  unfolding rules_parsed_def
proof (intro allI impI)
  fix k q
  assume k: "own_key pb k" "k_Rules d k = Some q"
  from rule_table.found [OF assms(2) nothing_parsedD(2) [OF assms(3) k(1)] k(2)] obtain q' u where q': "RuleObj q' \<in> set (run_objects pcfg pb root)"
    "key_of (ru_Meta q') = k" "q = q'\<lparr>ru_Meta := with_uid u (ru_Meta q')\<rparr>"
    by blast
  from q'(1) obtain r where "r \<in> set (stream_rules pcfg root)" "rule_object pcfg pb r = Some (RuleObj q')"
    using profile_object_owned [OF assms(1), of _ root] rule_object_owned [OF assms(1), of _ root]
      variable_object_owned [OF assms(1), of _ root]
    by (fastforce simp: complete_run [OF assms(4)])
  with q'(2,3) show "\<exists>r \<in> set (stream_rules pcfg root). \<exists>q' u.
        rule_object pcfg pb r = Some (RuleObj q') \<and> key_of (ru_Meta q') = k
        \<and> q = q'\<lparr>ru_Meta := with_uid u (ru_Meta q')\<rparr>" by blast
qed

lemma run_adds_variables:
  assumes "parser_of pb pcfg" and "populated c (run_objects pcfg pb root) d"
    and "nothing_parsed pb c" and "stream_error pcfg root = None"
  shows "variables_parsed pcfg pb root d"
  unfolding variables_parsed_def
proof (intro allI impI)
  fix k q
  assume k: "own_key pb k" "k_Variables d k = Some q"
  from variable_table.found [OF assms(2) nothing_parsedD(3) [OF assms(3) k(1)] k(2)] obtain q' u where
    q': "VariableObj q' \<in> set (run_objects pcfg pb root)"
    "key_of (va_Meta q') = k" "q = q'\<lparr>va_Meta := with_uid u (va_Meta q')\<rparr>"
    by blast
  from q'(1) obtain v where "v \<in> set (stream_variables pcfg root)"
    "variable_object pcfg pb v = Some (VariableObj q')"
    using profile_object_owned [OF assms(1), of _ root] rule_object_owned [OF assms(1), of _ root]
      variable_object_owned [OF assms(1), of _ root]
    by (fastforce simp: complete_run [OF assms(4)])
  with q'(2,3) show "\<exists>v \<in> set (stream_variables pcfg root). \<exists>q' u.
        variable_object pcfg pb v = Some (VariableObj q') \<and> key_of (va_Meta q') = k
        \<and> q = q'\<lparr>va_Meta := with_uid u (va_Meta q')\<rparr>" by blast
qed

lemma run_has_rule:
  assumes "parser_of pb pcfg" and "populated c (run_objects pcfg pb root) d"
    and "stream_error pcfg root = None" and "r \<in> set (stream_rules pcfg root)"
  shows "k_Rules d (nsn (om_Namespace (pb_Meta pb)) (rule_object_name pcfg pb (ru_ID r))) \<noteq> None"
proof -
  from rule_object_owned [OF assms(1,4)] obtain m where
    m: "rule_object pcfg pb r = Some (RuleObj (r\<lparr>ru_Meta := m\<rparr>))"
      "belongs_to pb (GetRuleNameFromID (pc_env pcfg) (ru_ID r)) m" by blast
  then have "RuleObj (r\<lparr>ru_Meta := m\<rparr>) \<in> set (run_objects pcfg pb root)"
    using assms(4) by (force simp: complete_run [OF assms(3)])
  from populated_exists [OF assms(2) this] m(2) show ?thesis
    by (simp add: belongs_to_def key_of_def rule_object_name_def)
qed

text \<open>A profile under the name of a parsed one leads to the bundle.\<close>

lemma run_has_profile:
  assumes "parser_of pb pcfg" and "populated c (run_objects pcfg pb root) d"
    and "nothing_parsed pb c" and "stream_error pcfg root = None" and "p \<in> set (stream_profiles pcfg root)"
  shows "\<exists>q ref. k_Profiles d (nsn (om_Namespace (pb_Meta pb)) (profile_object_name pcfg pb (pr_ID p))) = Some q
    \<and> om_Namespace (pr_Meta q) = om_Namespace (pb_Meta pb)
    \<and> getProfileBundleReferenceFromProfile q = Inr ref \<and> or_Name ref = om_Name (pb_Meta pb)"
proof -
  let ?k = "nsn (om_Namespace (pb_Meta pb)) (profile_object_name pcfg pb (pr_ID p))"
  from profile_object_owned [OF assms(1,5)] obtain m where
    m: "profile_object pcfg pb p = Some (ProfileObj (p\<lparr>pr_Meta := m\<rparr>))"
      "belongs_to pb (GetProfileNameFromID (pc_env pcfg) (pr_ID p)) m" by blast
  then have "ProfileObj (p\<lparr>pr_Meta := m\<rparr>) \<in> set (run_objects pcfg pb root)"
    using assms(5) by (force simp: complete_run [OF assms(4)])
  from populated_exists [OF assms(2) this] m(2) obtain q where q: "k_Profiles d ?k = Some q"
    by (auto simp: belongs_to_def key_of_def profile_object_name_def)
  from profile_table.found [OF assms(2) nothing_parsedD(1) [OF assms(3) own_object_names(1)] q] obtain q' u where "ProfileObj q' \<in> set (run_objects pcfg pb root)"
    and q': "q = q'\<lparr>pr_Meta := with_uid u (pr_Meta q')\<rparr>"
    by blast
  then obtain p' where "p' \<in> set (stream_profiles pcfg root)" "profile_object pcfg pb p' = Some (ProfileObj q')"
    using profile_object_owned [OF assms(1), of _ root] rule_object_owned [OF assms(1), of _ root]
      variable_object_owned [OF assms(1), of _ root]
    by (fastforce simp: complete_run [OF assms(4)])
  with profile_object_owned [OF assms(1)] obtain name where "belongs_to pb name (pr_Meta q')" by fastforce
  with q q' show ?thesis
    by (auto simp: belongs_to_def with_uid_def getProfileBundleReferenceFromProfile_def gv_String_scheme)
qed

lemma run_has_variable:
  assumes "parser_of pb pcfg" and "populated c (run_objects pcfg pb root) d"
    and "nothing_parsed pb c" and "stream_error pcfg root = None" and "v \<in> set (stream_variables pcfg root)"
    and "\<forall>v' \<in> set (stream_variables pcfg root).
      variable_object_name pcfg pb (va_ID v') = variable_object_name pcfg pb (va_ID v) \<longrightarrow> variable_admits v' val"
  shows "\<exists>q. k_Variables d (nsn (om_Namespace (pb_Meta pb)) (variable_object_name pcfg pb (va_ID v))) = Some q
    \<and> variable_admits q val"
proof -
  let ?n = "variable_object_name pcfg pb (va_ID v)"
  let ?k = "nsn (om_Namespace (pb_Meta pb)) ?n"
  from variable_object_owned [OF assms(1,5)] obtain m where
    m: "variable_object pcfg pb v = Some (VariableObj (v\<lparr>va_Meta := m\<rparr>))"
      "belongs_to pb (GetVariableNameFromID (pc_env pcfg) (va_ID v)) m" by blast
  then have "VariableObj (v\<lparr>va_Meta := m\<rparr>) \<in> set (run_objects pcfg pb root)"
    using assms(5) by (force simp: complete_run [OF assms(4)])
  from populated_exists [OF assms(2) this] m(2) obtain q where q: "k_Variables d ?k = Some q"
    by (auto simp: belongs_to_def key_of_def variable_object_name_def)
  from parsed_variable [OF assms(1) run_adds_variables [OF assms(1-4)] own_object_names(3) q] obtain v' m' where
    v': "v' \<in> set (stream_variables pcfg root)" "q = v'\<lparr>va_Meta := m'\<rparr>"
      "variable_object_name pcfg pb (va_ID v') = ?n" by blast
  with assms(6) have "variable_admits v' val" by blast
  with q v'(2) show ?thesis by (simp add: variable_admits_def)
qed

section \<open>Requests over a data stream\<close>

text \<open>
  A TailoredProfile that extends a profile of the stream, selects rules of it and sets variables
  of it, each by the name of its object. Where several variables share a name, the value has to
  suit all of them, for any one of them may have got the name.
\<close>

definition tailors ::
  "'w parser_config \<Rightarrow> profile_bundle \<Rightarrow> node \<Rightarrow> tailored_profile \<Rightarrow> bool" where
  "tailors pcfg pb root tp \<longleftrightarrow>
     tp_ns tp = om_Namespace (pb_Meta pb) \<and> tps_OutputType (tp_Spec tp) \<in> {[], ConfigMapOutput}
     \<and> tps_Extends (tp_Spec tp) \<in> (profile_object_name pcfg pb \<circ> pr_ID) ` set (stream_profiles pcfg root)
     \<and> distinct (selected_names tp)
     \<and> set (selected_names tp) \<subseteq> (rule_object_name pcfg pb \<circ> ru_ID) ` set (stream_rules pcfg root)
     \<and> (\<forall>sv \<in> set (tps_SetValues (tp_Spec tp)).
          vv_Name sv \<in> (variable_object_name pcfg pb \<circ> va_ID) ` set (stream_variables pcfg root)
          \<and> (\<forall>v \<in> set (stream_variables pcfg root).
               variable_object_name pcfg pb (va_ID v) = vv_Name sv \<longrightarrow> variable_admits v (vv_Value sv)))"

lemma tailors_own: "tailors pcfg pb root tp \<Longrightarrow> own_names pb tp"
  using own_object_names(2,3) [of pb pcfg] by (fastforce simp: tailors_def own_names_def)

lemma tailored_after_run:
  assumes "parser_of pb pcfg" and "populated c (run_objects pcfg pb root) d"
    and "nothing_parsed pb c" and "stream_error pcfg root = None" and "tailors pcfg pb root tp"
    and "tps (key_of (tp_Meta tp)) = Some tp" and "pb_Meta b = pb_Meta pb"
  shows "\<exists>p. well_posed operator_scheme ((set_pb b d)\<lparr>k_TailoredProfiles := tps\<rparr>) tp p b"
proof -
  let ?ns = "om_Namespace (pb_Meta pb)"
  have ns: "tp_ns tp = ?ns" using assms(5) by (simp add: tailors_def)
  from assms(5) obtain p0 where "p0 \<in> set (stream_profiles pcfg root)"
    "tps_Extends (tp_Spec tp) = profile_object_name pcfg pb (pr_ID p0)" by (auto simp: tailors_def)
  with run_has_profile [OF assms(1-4)] obtain p ref where
    p: "k_Profiles d (nsn ?ns (tps_Extends (tp_Spec tp))) = Some p" "om_Namespace (pr_Meta p) = ?ns"
      "getProfileBundleReferenceFromProfile p = Inr ref" "or_Name ref = om_Name (pb_Meta pb)" by metis
  have "tps_Extends (tp_Spec tp) \<noteq> []"
    using assms(5) by (auto simp: tailors_def profile_object_name_def)
  with p assms(7) have "extends_profile ((set_pb b d)\<lparr>k_TailoredProfiles := tps\<rparr>) tp p b"
    by (simp add: extends_profile_def ns set_pb_def key_of_def)
  moreover have "k_Rules d (nsn ?ns n) \<noteq> None" if "n \<in> set (selected_names tp)" for n
  proof -
    from assms(5) that obtain x where "x \<in> set (stream_rules pcfg root)" "n = rule_object_name pcfg pb (ru_ID x)"
      by (auto simp: tailors_def)
    with run_has_rule [OF assms(1,2,4)] show ?thesis by simp
  qed
  moreover have "\<exists>v. k_Variables d (nsn ?ns (vv_Name sv)) = Some v \<and> variable_admits v (vv_Value sv)"
    if "sv \<in> set (tps_SetValues (tp_Spec tp))" for sv
  proof -
    from assms(5) that obtain v where "v \<in> set (stream_variables pcfg root)"
      "vv_Name sv = variable_object_name pcfg pb (va_ID v)"
      "\<forall>v' \<in> set (stream_variables pcfg root). variable_object_name pcfg pb (va_ID v') = vv_Name sv
         \<longrightarrow> variable_admits v' (vv_Value sv)"
      by (auto simp: tailors_def)
    with run_has_variable [OF assms(1-4)] show ?thesis by metis
  qed
  ultimately show ?thesis
    using assms(5,6)
    by (auto simp: well_posed_def selections_exist_def tailors_def ns set_pb_def registered_def operator_scheme_eq
        registrations GVKForObject_def ObjectKinds_def)
qed

section \<open>The text of the document\<close>

text \<open>
  What a selection read from the document stands for when a name was selected, and a value when a
  variable was set: the name is that of an element of the data stream, and the document refers to
  that element by its identifier there.
\<close>

definition stands_for_rule ::
  "'w parser_config \<Rightarrow> profile_bundle \<Rightarrow> node \<Rightarrow> string \<Rightarrow> select_element \<Rightarrow> bool" where
  "stands_for_rule pcfg pb root n s \<longleftrightarrow> rule_object_name pcfg pb (se_IDRef s) = n
     \<and> (\<exists>x \<in> set (Query root ''Rule''). GetAttributeValue x ''id'' = se_IDRef s)"

definition stands_for_value ::
  "'w parser_config \<Rightarrow> profile_bundle \<Rightarrow> node \<Rightarrow> variable_value_spec \<Rightarrow> set_value_element \<Rightarrow> bool" where
  "stands_for_value pcfg pb root sv v \<longleftrightarrow> variable_object_name pcfg pb (sv_IDRef v) = vv_Name sv
     \<and> sv_Value v = vv_Value sv
     \<and> (\<exists>x \<in> set (Query root ''Value''). GetAttributeValue x ''id'' = sv_IDRef v)"

text \<open>The text of a document that does what a request asks for, and no more.\<close>

definition carries_out ::
  "'w parser_config \<Rightarrow> profile_bundle \<Rightarrow> node \<Rightarrow> tailored_profile \<Rightarrow> string \<Rightarrow> bool" where
  "carries_out pcfg pb root tp doc \<longleftrightarrow>
     list_all2 (stands_for_rule pcfg pb root) (selected_names tp) (read_selections doc)
     \<and> map se_Selected (read_selections doc) =
         replicate (length (tps_EnableRules (tp_Spec tp))) True
         @ replicate (length (tps_DisableRules (tp_Spec tp))) False
     \<and> list_all2 (stands_for_value pcfg pb root) (tps_SetValues (tp_Spec tp)) (read_set_values doc)"

text \<open>Values that XML can hold; the identifiers are, for they were read from XML.\<close>

definition legal_values :: "tailored_profile \<Rightarrow> bool" where
  "legal_values tp \<longleftrightarrow> (\<forall>sv \<in> set (tps_SetValues (tp_Spec tp)). valid_text (vv_Value sv))"

lemma legal_subnodes: "legal_node n \<Longrightarrow> x \<in> set (subnodes n) \<Longrightarrow> legal_node x"
  by (induction n) (auto simp: list_all_iff)

lemma legal_attribute: "legal_node n \<Longrightarrow> valid_text (GetAttributeValue n a)"
  by (cases n) (auto simp: GetAttributeValue_def GetAttribute_def list_all_iff dest!: find_Some_mem split: option.split)

lemma stream_root_legal: "stream_root pcfg = Inr (Some root) \<Longrightarrow> legal_node root"
  by (auto simp: stream_root_def intro: Parse_legal split: sum.splits)

lemma legal_identifier:
  assumes "legal_node root" and "x \<in> set (Query root name)"
  shows "valid_text (GetAttributeValue x a)"
proof -
  have "x \<in> set (tl (subnodes root))" using assms(2) by (simp add: Query_subnodes)
  then have "x \<in> set (subnodes root)" by (cases "subnodes root") simp_all
  with assms(1) show ?thesis by (rule legal_attribute [OF legal_subnodes])
qed

lemma expected_rule_found:
  assumes "parser_of pb pcfg" and "rules_parsed pcfg pb root c" and "own_names pb tp" and "selections_exist c tp"
    and "s \<in> set (tps_EnableRules (tp_Spec tp)) \<union> set (tps_DisableRules (tp_Spec tp))"
  shows "stands_for_rule pcfg pb root (rr_Name s) (select_of (expected_rules c tp) b s)"
proof -
  have "rr_Name s \<in> set (selected_names tp)" using assms(5) by (auto simp: selected_names_def)
  from selections_found [OF assms(1-4) this] show ?thesis
    by (auto simp: selects_stream_rule_def stands_for_rule_def select_of_def)
qed

lemma expected_variable_found:
  assumes "parser_of pb pcfg" and "variables_parsed pcfg pb root c" and "own_names pb tp" and "selections_exist c tp"
    and "sv \<in> set (tps_SetValues (tp_Spec tp))"
  shows "stands_for_value pcfg pb root sv
    \<lparr>sv_IDRef = va_ID (the (k_Variables c (nsn (tp_ns tp) (vv_Name sv)))), sv_Value = vv_Value sv\<rparr>"
proof -
  from assms(4,5) obtain q where q: "k_Variables c (nsn (tp_ns tp) (vv_Name sv)) = Some q"
    by (auto simp: selections_exist_def)
  have "own_key pb (nsn (tp_ns tp) (vv_Name sv))" using assms(3,5) by (simp add: own_names_def)
  from parsed_variable [OF assms(1,2) this q] obtain v m where v: "v \<in> set (stream_variables pcfg root)"
    "q = v\<lparr>va_Meta := m\<rparr>" "variable_object_name pcfg pb (va_ID v) = vv_Name sv" by blast
  with q variables.emitted_meta(5) [OF v(1) [unfolded stream_variables_def]] show ?thesis
    by (simp add: stands_for_value_def)
qed

lemma document_carries_out:
  assumes "parser_of pb pcfg" and "rules_parsed pcfg pb root c" and "variables_parsed pcfg pb root c"
    and "own_names pb tp" and "selections_exist c tp" and "legal_node root" and "legal_values tp"
  shows "carries_out pcfg pb root tp (expected_document env c tp p b)"
proof -
  let ?sel = "\<lambda>x. select_of (expected_rules c tp) x"
  let ?val = "\<lambda>sv. \<lparr>sv_IDRef = va_ID (the (k_Variables c (nsn (tp_ns tp) (vv_Name sv)))), sv_Value = vv_Value sv\<rparr>"
  let ?t = "tailoring_of env tp p b (map (?sel True) (tps_EnableRules (tp_Spec tp))
    @ map (?sel False) (tps_DisableRules (tp_Spec tp))) (expected_variables c tp)"
  note rule = expected_rule_found [OF assms(1,2,4,5)] and var = expected_variable_found [OF assms(1,3,4,5)]
  have fields: "pe_Selections (te_Profile ?t) = map (?sel True) (tps_EnableRules (tp_Spec tp))
      @ map (?sel False) (tps_DisableRules (tp_Spec tp))"
    "pe_Values (te_Profile ?t) = map ?val (tps_SetValues (tp_Spec tp))"
    by (simp_all add: tailoring_of_def getValuesFromVariables_def expected_variables_def)
  have legal: "valid_text (se_IDRef x)" if "stands_for_rule pcfg pb root n x" for n x
    using that legal_identifier [OF assms(6)] unfolding stands_for_rule_def by metis
  have legal': "valid_text (sv_IDRef x)" if "stands_for_value pcfg pb root sv x" for sv x
    using that legal_identifier [OF assms(6)] unfolding stands_for_value_def by metis
  have "valid_profile (te_Profile ?t)"
    unfolding valid_profile_def fields
    using legal [OF rule] legal' [OF var] assms(7) by (simp add: list_all_iff ball_Un legal_values_def)
  from tailoring_lines [OF this] have "read_selections (expected_document env c tp p b) = pe_Selections (te_Profile ?t)"
    "read_set_values (expected_document env c tp p b) = pe_Values (te_Profile ?t)"
    by (simp_all add: expected_document_def)
  then show ?thesis
    unfolding carries_out_def fields using rule var
    by (auto simp: selected_names_def list_all2_map1 list_all2_map2 list.rel_refl_strong select_of_def
        map_replicate_const [symmetric] comp_def intro!: list_all2_appendI)
qed

text \<open>Of a bundle only its metadata counts for these.\<close>

lemma same_bundle_meta:
  assumes "pb_Meta b = pb_Meta pb"
  shows "parser_of b = parser_of pb" "tailors pcfg b = tailors pcfg pb" "carries_out pcfg b = carries_out pcfg pb"
  by (auto simp: assms fun_eq_iff parser_of_def tailors_def carries_out_def stands_for_rule_def [abs_def]
      stands_for_value_def [abs_def] rule_object_name_def variable_object_name_def profile_object_name_def comp_def)

section \<open>From the content to the document\<close>

text \<open>
  The steps from outside: a bundle that the operator has to start on, a process of the container
  in its Pod, and a request that a user creates.
\<close>

definition bundle_created :: "cluster \<Rightarrow> profile_bundle \<Rightarrow> bool" where
  "bundle_created c pb \<longleftrightarrow> nothing_parsed pb c \<and> k_ProfileBundles c (pb_key pb) = Some pb
     \<and> k_Pods c (pod_key pb) = None \<and> om_Name (pb_Meta pb) \<noteq> [] \<and> om_Namespace (pb_Meta pb) \<noteq> []"

definition process_of_pod :: "cluster \<Rightarrow> profile_bundle \<Rightarrow> 'w parser_process \<Rightarrow> bool" where
  "process_of_pod c pb proc \<longleftrightarrow> (\<exists>x co. k_Pods c (pod_key pb) = Some x
     \<and> co \<in> set (ps_Containers (pod_Spec x)) \<and> pp_Args proc = co_Args co)"

definition request_created :: "cluster \<Rightarrow> tailored_profile \<Rightarrow> cluster \<Rightarrow> bool" where
  "request_created c tp c' \<longleftrightarrow>
     c' = c\<lparr>k_TailoredProfiles := (k_TailoredProfiles c)(key_of (tp_Meta tp) \<mapsto> tp)\<rparr>
     \<and> k_ConfigMaps c (output_key tp) = None"

text \<open>After the first run of the operator the Pod is there, and nothing else has changed.\<close>

lemma operator_starts_bundle:
  assumes "operator_runs mapper mgr m view admits refusal" and "bundle_created (view (w_cluster w)) pb"
    and "loop_run (operator_requests mapper mgr m) (operator_reconcile mgr m)
      (started (operator_requests mapper mgr m) [ProfileBundleObj pb] w) ls s"
    and "operator_admits admits [] [pb]"
  shows "length ls \<le> 9 + 6 * hold_ups refusal ls" and "stuck (operator_requests mapper mgr m) (operator_reconcile mgr m) s \<Longrightarrow>
    \<exists>g. bundle_left g pb 0 (view (w_cluster (lo_world s))) \<and> nothing_parsed pb (view (w_cluster (lo_world s)))
      \<and> k_ConfigMaps (view (w_cluster (lo_world s))) = k_ConfigMaps (view (w_cluster w))"
proof -
  let ?c = "view (w_cluster w)"
  obtain g where g: "GVKForObject T_ProfileBundle operator_scheme = Inr g" using operator_bundle_kind by blast
  have posed: "operator_posed admits [] [pb] [] ?c"
    using assms(2,4) by (simp add: operator_posed_def separate_def bundle_created_def)
  note rests = operator_rests [OF assms(1) posed g, simplified instances_def, simplified, OF assms(3)]
  show "length ls \<le> 9 + 6 * hold_ups refusal ls" by (rule rests(1))
  assume "stuck (operator_requests mapper mgr m) (operator_reconcile mgr m) s"
  from rests(2) [OF this] have left: "bundle_left g pb 0 (view (w_cluster (lo_world s)))"
    and same: "unrelated [] [pb] (view (w_cluster (lo_world s))) = unrelated [] [pb] ?c"
    by (simp_all add: operator_left_def)
  from left assms(2) unrelated_fields [OF same] show "\<exists>g. bundle_left g pb 0 (view (w_cluster (lo_world s)))
      \<and> nothing_parsed pb (view (w_cluster (lo_world s)))
      \<and> k_ConfigMaps (view (w_cluster (lo_world s))) = k_ConfigMaps ?c"
    by (auto simp: bundle_created_def nothing_parsed_def)
qed

text \<open>The process of the container in that Pod parses the content.\<close>

lemma pod_parses:
  assumes "bundle_left g pb 0 (view (w_cluster w))" and "run_admitted pcfg pb admits"
    and "om_Name (pb_Meta pb) \<noteq> []" and "om_Namespace (pb_Meta pb) \<noteq> []"
    and "process_of_pod (view (w_cluster w)) pb proc" and "newParserConfig proc = Inr pcfg"
    and "api_server (pc_Client pcfg) view admits"
    and "stream_root pcfg = Inr (Some root)" and "stream_error pcfg root = None"
    and "run_state (main proc) w = (out, w')"
  shows "parser_of pb pcfg \<and> out = Exit 0 \<and> (\<exists>d b x. populated (view (w_cluster w)) (run_objects pcfg pb root) d
    \<and> view (w_cluster w') = set_pb b d \<and> pb_Meta b = pb_Meta pb
    \<and> pbst_DataStreamStatus (pb_Status b) = DataStreamValid
    \<and> k_Pods d (pod_key b) = Some x \<and> \<not> podStartupError x
    \<and> k_ConfigMaps d = k_ConfigMaps (view (w_cluster w)))"
proof -
  from assms(1) obtain b0 x env where b0: "k_ProfileBundles (view (w_cluster w)) (key_of (pb_Meta pb)) = Some b0"
      "pb_Meta b0 = pb_Meta pb"
    and x: "k_Pods (view (w_cluster w)) (pod_key pb) = Some x" "pod_Spec x = pod_Spec (newPodForBundle env pb)"
      "pod_InitContainerStatuses x = []"
    by (auto simp: bundle_left_def)
  from assms(5) x(1,2) obtain co where "co \<in> set (ps_Containers (pod_Spec (newPodForBundle env pb)))"
    "pp_Args proc = co_Args co" by (auto simp: process_of_pod_def)
  note config = container_parser_of [OF this assms(3,4,6)]
  have of: "parser_of b0 pcfg" using config(1) by (simp add: same_bundle_meta(1) [OF b0(2)])
  from run_parser_result [OF assms(7) run_admitted_again [OF b0(2) assms(2)] of] b0 assms(10)
  have "parser_result pcfg b0 (view (w_cluster w)) out (view (w_cluster w'))"
    by (simp add: config(2))
  with assms(8,9) obtain d where d: "out = Exit 0" "populated (view (w_cluster w)) (run_objects pcfg b0 root) d"
    "view (w_cluster w') = set_pb (reported (pc_env pcfg) b0 None) d" by (auto simp: parser_result_def)
  note same = objects_meta_only [OF b0(2), of pcfg root]
  note frame = populated_frame(3,4) [OF d(2) run_objects_parsed [OF of]]
  have "k_Pods d (pod_key b0) = Some x" using frame(2) x(1) b0(2) by (simp add: pod_key_def)
  moreover have "\<not> podStartupError x" using x(3) by (simp add: podStartupError_def)
  ultimately show ?thesis
    using config(1) d same b0(2) frame(1)
    by (intro conjI exI [of _ d] exI [of _ "reported (pc_env pcfg) b0 None"] exI [of _ x])
      (simp_all add: pod_key_def reported_def valid_bundle_def)
qed

text \<open>A request that has come to its end over the parsed objects has its document.\<close>

lemma request_carried_out:
  assumes "parser_of pb pcfg" and "populated c0 (run_objects pcfg pb root) d" and "nothing_parsed pb c0"
    and "stream_error pcfg root = None" and "legal_node root" and "legal_values tp" and "own_names pb tp"
    and "k_Rules c = k_Rules d" and "k_Variables c = k_Variables d"
    and "on_track UNIV operator_scheme tp p b c 0"
  shows "\<exists>tp' p env cm. same_request tp tp' \<and> k_TailoredProfiles c (key_of (tp_Meta tp)) = Some tp'
    \<and> tpst_State (tp_Status tp') = TailoredProfileStateReady
    \<and> k_ConfigMaps c (output_key tp) = Some cm
    \<and> cm_Data cm = [tailoringFile \<mapsto> expected_document env c tp' p b]
    \<and> carries_out pcfg pb root tp (expected_document env c tp' p b)"
proof -
  have parsed: "rules_parsed pcfg pb root c" "variables_parsed pcfg pb root c"
    using run_adds_rules [OF assms(1-4)] run_adds_variables [OF assms(1-4)]
    by (simp_all add: rules_parsed_def variables_parsed_def assms(8,9))
  from on_track_done [OF assms(10)] obtain tp' where tp': "same_request tp tp'"
    "k_TailoredProfiles c (key_of (tp_Meta tp)) = Some tp'" "produced UNIV c tp' p b"
    "well_posed operator_scheme c tp' p b" by blast
  have "selections_exist c tp'" using tp'(4) by (simp add: well_posed_def)
  moreover have "legal_values tp'" "own_names pb tp'"
    using assms(6,7) by (simp_all add: legal_values_def own_names_def same_request_fields [OF tp'(1)])
  ultimately have "carries_out pcfg pb root tp' (expected_document env c tp' p b)" for env
    using document_carries_out [OF assms(1) parsed] assms(5) by blast
  then have "carries_out pcfg pb root tp (expected_document env c tp' p b)" for env
    by (simp only: carries_out_def same_request_fields [OF tp'(1)])
  with tp'(1-3) show ?thesis
    unfolding produced_def same_request_fields(8) [OF tp'(1)] by blast
qed

text \<open>
  C1: the program from end to end. The operator hears of a new bundle without a Pod, none of whose
  objects are there yet; a process of the container in the Pod it creates parses the content, a
  data stream without an element that cannot be read; a user creates a request over that content,
  without a ConfigMap of its own and with values that XML can hold; the operator hears of the
  request and of the bundle. The server keeps its contract: it may refuse calls of the operator
  for a while but none of the parser, and it admits the Pod, the ConfigMap and the objects of the
  parser. Both runs of the operator end, within nine and eighteen steps of any interleaving, and
  six more for each reconciliation that was refused a call; the parser succeeds and reports
  the bundle VALID; in the end the request is READY and its ConfigMap holds the tailoring document
  rendered from the parsed objects. The text of that document, read line by line, selects for
  every name in the request one rule of the data stream with that name, by its identifier there
  and with the sign asked for, sets every variable to its value, and does nothing else.
\<close>

theorem content_to_tailoring:
  assumes "operator_runs mapper mgr m view admits refusal" and "bundle_created (view (w_cluster w0)) pb"
    and "operator_admits admits [(tp, q, pb)] [pb]" and "run_admitted pcfg pb admits"
    and "loop_run (operator_requests mapper mgr m) (operator_reconcile mgr m)
      (started (operator_requests mapper mgr m) [ProfileBundleObj pb] w0) ls0 s0"
    and "stuck (operator_requests mapper mgr m) (operator_reconcile mgr m) s0"
    and "process_of_pod (view (w_cluster (lo_world s0))) pb proc" and "newParserConfig proc = Inr pcfg"
    and "api_server (pc_Client pcfg) view admits"
    and "stream_root pcfg = Inr (Some root)" and "stream_error pcfg root = None"
    and "run_state (main proc) (lo_world s0) = (out, w1)"
    and "tailors pcfg pb root tp" and "legal_values tp"
    and "request_created (view (w_cluster w1)) tp (view (w_cluster w2))"
    and "k_ProfileBundles (view (w_cluster w2)) (pb_key pb) = Some b"
    and "loop_run (operator_requests mapper mgr m) (operator_reconcile mgr m)
      (started (operator_requests mapper mgr m) [TailoredProfileObj tp, ProfileBundleObj b] w2) ls s"
    and "c = view (w_cluster (lo_world s))"
  shows "length ls0 \<le> 9 + 6 * hold_ups refusal ls0 \<and> out = Exit 0
    \<and> pbst_DataStreamStatus (pb_Status b) = DataStreamValid \<and> length ls \<le> 18 + 6 * hold_ups refusal ls
    \<and> (stuck (operator_requests mapper mgr m) (operator_reconcile mgr m) s \<longrightarrow> at_rest s
       \<and> (\<exists>tp' p env cm. same_request tp tp' \<and> k_TailoredProfiles c (key_of (tp_Meta tp)) = Some tp'
            \<and> tpst_State (tp_Status tp') = TailoredProfileStateReady
            \<and> k_ConfigMaps c (output_key tp) = Some cm
            \<and> cm_Data cm = [tailoringFile \<mapsto> expected_document env c tp' p b]
            \<and> carries_out pcfg pb root tp (expected_document env c tp' p b)))"
proof -
  let ?c0 = "view (w_cluster (lo_world s0))" and ?c2 = "view (w_cluster w2)"
  have "operator_admits admits [] [pb]" using assms(3) by (simp add: operator_admits_def)
  note first = operator_starts_bundle [OF assms(1,2,5) this]
  obtain g where g: "GVKForObject T_ProfileBundle operator_scheme = Inr g" using operator_bundle_kind by blast
  from first(2) [OF assms(6)] obtain g0 where left: "bundle_left g0 pb 0 ?c0" "nothing_parsed pb ?c0" by blast
  have names: "om_Name (pb_Meta pb) \<noteq> []" "om_Namespace (pb_Meta pb) \<noteq> []"
    using assms(2) by (simp_all add: bundle_created_def)
  from pod_parses [OF left(1) assms(4) names assms(7-12)] obtain d b' x where of: "parser_of pb pcfg" and "out = Exit 0"
    and d: "populated ?c0 (run_objects pcfg pb root) d" "view (w_cluster w1) = set_pb b' d"
    and b': "pb_Meta b' = pb_Meta pb" "pbst_DataStreamStatus (pb_Status b') = DataStreamValid"
      "k_Pods d (pod_key b') = Some x" "\<not> podStartupError x" by blast
  from assms(15) d(2) obtain tps where c2: "?c2 = (set_pb b' d)\<lparr>k_TailoredProfiles := tps\<rparr>"
    and tps: "tps (key_of (tp_Meta tp)) = Some tp" "k_ConfigMaps ?c2 (output_key tp) = None"
    by (auto simp: request_created_def)
  have b: "b = b'" using assms(16) b'(1) by (simp add: c2 set_pb_def pb_key_def)
  from tailored_after_run [where tps = tps, OF of d(1) left(2) assms(11,13) tps(1) b'(1)] obtain p where
    wp: "well_posed operator_scheme ?c2 tp p b" by (auto simp: c2 b)
  have "bundle_settled b ?c2" using b'(3,4) by (simp add: bundle_settled_def c2 b set_pb_def)
  moreover have "operator_admits admits [(tp, p, b)] [b]"
    using assms(3) by (simp add: operator_admits_def b b'(1) pod_key_def)
  ultimately have posed: "operator_posed admits [(tp, p, b)] [] [b] ?c2"
    using wp tps(2) by (simp add: operator_posed_def separate_def)
  note second = operator_rests [OF assms(1) posed g, simplified instances_def, simplified, OF assms(17)]
  have "\<exists>tp' p env cm. same_request tp tp' \<and> k_TailoredProfiles c (key_of (tp_Meta tp)) = Some tp'
       \<and> tpst_State (tp_Status tp') = TailoredProfileStateReady
       \<and> k_ConfigMaps c (output_key tp) = Some cm
       \<and> cm_Data cm = [tailoringFile \<mapsto> expected_document env c tp' p b]
       \<and> carries_out pcfg pb root tp (expected_document env c tp' p b)"
    if "stuck (operator_requests mapper mgr m) (operator_reconcile mgr m) s"
  proof (rule request_carried_out [OF of d(1) left(2) assms(11) stream_root_legal [OF assms(10)] assms(14)
        tailors_own [OF assms(13)]])
    from second(2) [OF that] have same: "unrelated [(tp, p, b)] [] c = unrelated [(tp, p, b)] [] ?c2"
      and "on_track UNIV operator_scheme tp p b c 0"
      by (auto simp: operator_left_def assms(18))
    then show "on_track UNIV operator_scheme tp p b c 0" by blast
    show "k_Rules c = k_Rules d" "k_Variables c = k_Variables d"
      using unrelated_fields(2,3) [OF same] by (simp_all add: c2 set_pb_def)
  qed
  then show ?thesis
    using first(1) \<open>out = Exit 0\<close> b'(2) b second by blast
qed

section \<open>The sample stream\<close>

lemma ex_names:
  "GetProfileNameFromID ex_env ''xccdf_org.ssgproject.content_profile_moderate'' = ''moderate''"
  "GetRuleNameFromID ex_env ex_rule_id = ''no-root''"
  "GetVariableNameFromID ex_env ''xccdf_org.ssgproject.content_value_banner'' = ''banner''"
  by code_simp+

lemma ex_tailors: "tailors ex_pcfg ex_bundle ex_root ex_request"
proof -
  obtain p where p: "stream_profiles ex_pcfg ex_root = [p]"
    "pr_ID p = ''xccdf_org.ssgproject.content_profile_moderate''" using ex_streams(1) by blast
  obtain v where v: "stream_variables ex_pcfg ex_root = [v]"
    "va_ID v = ''xccdf_org.ssgproject.content_value_banner''" "va_Type v = ''string''"
    "vs_Value ` set (va_Selections v) = {''b''}" using ex_streams(2) by blast
  obtain q where q: "stream_rules ex_pcfg ex_root = [q]" "ru_ID q = ex_rule_id" using ex_rule_parsed by blast
  have "pc_env ex_pcfg = ex_env" by (simp add: ex_pcfg_def)
  moreover have "variable_admits v ''b''"
    using v(3,4) by (simp add: variable_admits_def type_admits_def)
  ultimately show ?thesis
    by (simp add: tailors_def p v q profile_object_name_def rule_object_name_def variable_object_name_def ex_names
        ex_request_def ex_bundle_def ex_meta_def zero_meta_def tp_ns_def selected_names_def)
qed

lemma ex_one_selection: "tps_EnableRules (tp_Spec ex_request) = []"
  "map rr_Name (tps_DisableRules (tp_Spec ex_request)) = [''rhcos-no-root'']"
  by (simp_all add: ex_request_def)

lemma ex_legal: "legal_values ex_request"
proof -
  have "valid_text ''b''" by (simp add: is_in_character_range_def rune_error_def)
  then show ?thesis by (simp add: legal_values_def ex_request_def del: valid_text.simps(2))
qed

lemma ex_admits: "operator_admits (\<lambda>_. True) reqs pbs"
  by (simp add: operator_admits_def split: prod.split)

text \<open>The run that the sample cluster allows, phase by phase.\<close>

definition ex_first_world :: "mem_server world" where
  "ex_first_world = \<lparr>w_cluster = \<lparr>ms_cluster =
     \<lparr>k_ProfileBundles = [nsn ''ns'' ''rhcos'' \<mapsto> ex_bundle],
      k_Profiles = Map.empty, k_Rules = Map.empty, k_Variables = Map.empty,
      k_TailoredProfiles = Map.empty, k_ConfigMaps = Map.empty, k_Pods = Map.empty,
      k_Policies = Map.empty\<rparr>, ms_next = 0\<rparr>, w_writes = []\<rparr>"

lemma ex_first_posed: "bundle_created (ms_cluster (w_cluster ex_first_world)) ex_bundle"
  by (simp add: bundle_created_def ex_first_world_def nothing_parsed_def ex_bundle_def ex_meta_def zero_meta_def
      pb_key_def key_of_def)

lemma ex_config: "newParserConfig ex_process = Inr ex_pcfg"
proof -
  have "newParserConfig ex_process = (case getK8sClient ex_process getK8sScheme of Inl e \<Rightarrow> Inl e | Inr client \<Rightarrow>
    Inr \<lparr>pc_DataStreamPath = benchmark_href ex_bundle, pc_ProfileBundleKey = key_of (pb_Meta ex_bundle),
         pc_Client = client, pc_Scheme = getK8sScheme, pc_env = pp_env ex_process,
         pc_DecodeYAML = pp_DecodeYAML ex_process, pc_Open = pp_Open ex_process\<rparr>)"
    by (rule container_config [of "hd (ps_Containers (pod_Spec (newPodForBundle ex_env ex_bundle)))" ex_env])
      (simp_all add: ex_process_def newPodForBundle_def ex_bundle_def ex_meta_def zero_meta_def)
  moreover have "benchmark_href ex_bundle = ''/content/ssg-rhcos4-ds.xml''" by code_simp
  ultimately show ?thesis
    by (simp add: getK8sClient_def ex_process_def ex_pcfg_def ex_bundle_def ex_meta_def zero_meta_def key_of_def)
qed

lemma operator_starts_bundle_eventually:
  assumes "operator_runs mapper mgr m view admits (\<lambda>_. False)" and "bundle_created (view (w_cluster w)) pb"
    and "operator_admits admits [] [pb]"
  shows "\<exists>ls s. loop_run (operator_requests mapper mgr m) (operator_reconcile mgr m)
      (started (operator_requests mapper mgr m) [ProfileBundleObj pb] w) ls s
    \<and> stuck (operator_requests mapper mgr m) (operator_reconcile mgr m) s"
  by (rule loop_run_bounded_ends) (rule operator_starts_bundle(1) [OF assms(1,2) _ assms(3), unfolded hold_ups_reliable])

theorem content_to_tailoring_witness:
  "\<exists>ls0 s0 w1 w2 b ls s cm doc sel. stuck (operator_requests (\<lambda>_ _. Inr True) ex_manager ()) (operator_reconcile ex_manager ()) s0
     \<and> loop_run (operator_requests (\<lambda>_ _. Inr True) ex_manager ()) (operator_reconcile ex_manager ())
         (started (operator_requests (\<lambda>_ _. Inr True) ex_manager ()) [ProfileBundleObj ex_bundle] ex_first_world) ls0 s0
     \<and> run_state (main ex_process) (lo_world s0) = (Exit 0, w1)
     \<and> loop_run (operator_requests (\<lambda>_ _. Inr True) ex_manager ()) (operator_reconcile ex_manager ())
         (started (operator_requests (\<lambda>_ _. Inr True) ex_manager ())
           [TailoredProfileObj ex_request, ProfileBundleObj b] w2) ls s
     \<and> k_ConfigMaps (ms_cluster (w_cluster (lo_world s))) (output_key ex_request) = Some cm
     \<and> cm_Data cm = [tailoringFile \<mapsto> doc] \<and> carries_out ex_pcfg ex_bundle ex_root ex_request doc
     \<and> read_selections doc = [sel] \<and> rule_object_name ex_pcfg ex_bundle (se_IDRef sel) = ''rhcos-no-root''"
proof -
  let ?req = "operator_requests (\<lambda>_ _. Inr True) ex_manager ()" and ?rec = "operator_reconcile ex_manager ()"
  have names: "om_Name (pb_Meta ex_bundle) \<noteq> []" "om_Namespace (pb_Meta ex_bundle) \<noteq> []"
    by (simp_all add: ex_bundle_def ex_meta_def zero_meta_def)
  from operator_starts_bundle_eventually [OF ex_manager_runs ex_first_posed ex_admits] obtain ls0 s0 where
    first: "loop_run ?req ?rec (started ?req [ProfileBundleObj ex_bundle] ex_first_world) ls0 s0" "stuck ?req ?rec s0" by blast
  from operator_starts_bundle(2) [OF ex_manager_runs ex_first_posed first(1) ex_admits first(2)] obtain g where
    left: "bundle_left g ex_bundle 0 (ms_cluster (w_cluster (lo_world s0)))"
      "k_ConfigMaps (ms_cluster (w_cluster (lo_world s0))) = Map.empty"
    by (auto simp: ex_first_world_def)
  then have process: "process_of_pod (ms_cluster (w_cluster (lo_world s0))) ex_bundle ex_process"
    by (auto simp: bundle_left_def process_of_pod_def ex_process_def newPodForBundle_def)
  have mem: "api_server (pc_Client ex_pcfg) ms_cluster (\<lambda>_. True)" using mem.api_server_axioms by (simp add: ex_client)
  obtain out w1 where run: "run_state (main ex_process) (lo_world s0) = (out, w1)" by fastforce
  note second = pod_parses [OF left(1) run_admitted_True names process ex_config mem ex_stream_root ex_stream_complete run]
  then obtain d b x where out: "out = Exit 0" and w1: "ms_cluster (w_cluster w1) = set_pb b d"
    and b: "pb_Meta b = pb_Meta ex_bundle" and no_map: "k_ConfigMaps d = Map.empty" using left(2) by auto
  let ?c1 = "ms_cluster (w_cluster w1)"
  let ?c2 = "?c1\<lparr>k_TailoredProfiles := (k_TailoredProfiles ?c1)(key_of (tp_Meta ex_request) \<mapsto> ex_request)\<rparr>"
  let ?w2 = "w1\<lparr>w_cluster := (w_cluster w1)\<lparr>ms_cluster := ?c2\<rparr>\<rparr>"
  have created: "request_created ?c1 ex_request (ms_cluster (w_cluster ?w2))"
    by (simp add: request_created_def w1 set_pb_def no_map)
  have at: "k_ProfileBundles (ms_cluster (w_cluster ?w2)) (pb_key ex_bundle) = Some b"
    by (simp add: w1 set_pb_def b pb_key_def)
  note all = content_to_tailoring [OF ex_manager_runs ex_first_posed ex_admits run_admitted_True first process ex_config mem ex_stream_root
      ex_stream_complete run ex_tailors ex_legal created at _ refl]
  have "\<exists>ls s. loop_run ?req ?rec (started ?req [TailoredProfileObj ex_request, ProfileBundleObj b] ?w2) ls s
      \<and> stuck ?req ?rec s"
    by (rule loop_run_bounded_ends [where b = 18]) (use all in \<open>unfold hold_ups_reliable, force\<close>)
  then obtain ls s where last: "loop_run ?req ?rec (started ?req [TailoredProfileObj ex_request, ProfileBundleObj b] ?w2) ls s"
    "stuck ?req ?rec s" by blast
  from all [OF last(1)] last(2) obtain cm doc where doc:
    "k_ConfigMaps (ms_cluster (w_cluster (lo_world s))) (output_key ex_request) = Some cm"
    "cm_Data cm = [tailoringFile \<mapsto> doc]" "carries_out ex_pcfg ex_bundle ex_root ex_request doc" by blast
  then obtain sel where "read_selections doc = [sel]" "rule_object_name ex_pcfg ex_bundle (se_IDRef sel) = ''rhcos-no-root''"
    by (auto simp: carries_out_def selected_names_def stands_for_rule_def ex_one_selection list_all2_Cons1)
  with doc first run out last(1) show ?thesis by blast
qed

end
