(* ===== verification/Spec2Isabelle.thy ===== *)
theory Spec2Isabelle
  imports Tailored_Profile_Outcomes Deep_Copy_Correct Manager_Main Parse_And_Tailor
begin

text \<open>
  A verification library for the compliance profile operator.

  \<^bold>\<open>The program.\<close> The operator (\<open>cmd/manager/main.go\<close>) runs two
  controllers. The ProfileBundle controller
  (\<open>pkg/controller/profilebundle/profilebundle_controller.go\<close>) starts, for a bundle with
  security content, a Pod that holds the content file and runs the content parser
  (\<open>cmd/profileparser/main.go\<close>, \<open>pkg/profileparser/profileparser.go\<close>). The parser reads
  the SCAP data stream and creates one Profile, Rule or Variable object for each element of it,
  then reports in the status of the bundle. A user selects rules and sets variables in a
  TailoredProfile; the TailoredProfile controller
  (\<open>pkg/controller/tailoredprofile/tailoredprofile_controller.go\<close>) renders it as an XCCDF
  tailoring document (\<open>pkg/xccdf\<close>) in a ConfigMap, or in a policy that carries one. The parts
  only meet in the API server: the objects one of them writes are those another one reads.

  \<^bold>\<open>Theories, in the order of their imports.\<close>
  \<^item> \<open>Go_Prelude\<close>, \<open>Go_Strings\<close>, \<open>Go_Strconv\<close>, \<open>Go_Xml\<close>, \<open>Go_Regexp\<close>: what the program
    uses of the Go language and library. Strings are lists of bytes, machine integers are 64-bit
    words. Clock, environment, and the parts of the library that depend on Unicode tables are fields
    of \<open>go_env\<close>.
  \<^item> \<open>Go_Xml_Scanner\<close>, \<open>Go_Xml_Decoder\<close>, \<open>Go_Xml_Decode\<close>: the decoder of \<open>encoding/xml\<close>, from
    bytes to tokens (names, references, attributes, comments, CDATA, instructions, directives),
    then with the stack of open elements and their name spaces, and \<open>Unmarshal\<close> into a struct with
    the inner XML of an element.
  \<^item> \<open>API_Types\<close>, \<open>Variables\<close>: the objects of \<open>pkg/apis/compliance/v1alpha1\<close> as records,
    and the validation of variable values (\<open>variable_types.go\<close>).
  \<^item> \<open>Xmldom\<close>, \<open>Xmldom_Parse\<close>, \<open>Xmldom_Roundtrip\<close>: what the parser uses of
    \<open>vendor/github.com/subchen/go-xmldom\<close>: the queries of a tree, its printing, how \<open>Parse\<close> builds
    it from the tokens of its input, and how the printed text of a tree is read again.
  \<^item> \<open>Xccdf\<close>, \<open>Tailoring_Text\<close>, \<open>Xccdf_Strings\<close>: \<open>tailoring.go\<close> (names from identifiers, the
    structs of the document, its construction and text, and how that text is read again) and
    \<open>strings.go\<close> (inner XML).
  \<^item> \<open>Kube_Client\<close>, \<open>Effects\<close>, \<open>Api_Server\<close>: the API client as a record of functions on an
    abstract cluster, the list of the writes made so far (\<open>w_writes\<close>), owner references
    (\<open>controllerutil.go\<close>), the rules for effects (\<open>effects\<close>: what was written;
    \<open>yields\<close>: what the server then holds), and the contract of a server as the locales
    \<open>refusing_server\<close> and \<open>api_server\<close>, interpreted on a store in memory that refuses its first
    calls, or none.
  \<^item> \<open>Tailored_Profile\<close> and \<open>Tailored_Profile_Correct\<close>, \<open>_Converges\<close>, \<open>_Decides\<close>,
    \<open>_Verdict\<close>, \<open>_Outcomes\<close>: the TailoredProfile controller, every function of its file.
  \<^item> \<open>Profile_Bundle\<close>, \<open>Profile_Bundle_Correct\<close>: the ProfileBundle controller and
    \<open>pkg/controller/common/images.go\<close>.
  \<^item> \<open>Profile_Parser\<close>, \<open>Go_Flags\<close>, \<open>Parser_Main\<close> and \<open>Parser_Functional\<close>,
    \<open>Parser_Correct\<close>, \<open>Parser_Objects\<close>, \<open>Parser_Cluster\<close>, \<open>Parser_Tables\<close>: the content
    parser, package and command, with its command line; what it writes against any server, and
    what a server that keeps its contract holds afterwards, table by table.
  \<^item> \<open>Operator\<close>, \<open>Manager_Main\<close>: scheme, watched namespaces, setup of the controllers with the
    reconcilers they are made from, watches, how an event on an object becomes a request (\<open>enqueue_owner.go\<close>), and the main
    program of the operator with its metrics.
  \<^item> \<open>Controller_Loop\<close>, \<open>Controllers_Settle\<close>: the work queue of \<open>client-go\<close>
    (\<open>workqueue/queue.go\<close>), the worker of \<open>controller-runtime\<close> (\<open>controller.go\<close>) and the
    delivery of events as a labelled step relation of any number of controllers that share the
    cluster; the contract \<open>settling\<close> of controllers whose loops come to rest, and the two
    controllers of the operator, side by side on any number of objects, as its instance.
  \<^item> \<open>Go_Heap\<close>, \<open>Deep_Copy_Json\<close>, \<open>Deep_Copy\<close>, \<open>Deep_Copy_Correct\<close>: the generated copies
    (\<open>zz_generated.deepcopy.go\<close>), every function of the file, on a heap of arrays and maps, with
    the copy of the free-form JSON of a fix (\<open>Unstructured.DeepCopy\<close>, \<open>DeepCopyJSONValue\<close>). They
    justify the records of the other theories, which are values without aliasing.
  \<^item> \<open>Parse_And_Tailor\<close>: the operator, the parser and the operator again, one after the other.
  \<^item> \<open>Samples\<close>, \<open>Parser_Samples\<close>: concrete objects for the witnesses.

  \<^bold>\<open>How state and effects correspond.\<close> A handler is a program in the state monad over a
  \<open>world\<close>: the cluster, of a type of its own, and the writes so far with the answer of each.
  \<open>client.Get\<close>, \<open>Create\<close>, \<open>Update\<close> and \<open>Status().Update\<close> go through the client's
  functions, which may answer anything: every error branch of the source is a branch of the
  model. The return value of a reconciler is \<open>Inr (result, err)\<close>, or \<open>Inl\<close> a panic. Pointers
  that may be nil are options; objects changed in place are returned updated; the Go maps of the
  source are HOL maps, so the order in which Go iterates over them is never used. Log calls have
  no effect in the model.

  \<^bold>\<open>What the theorems show.\<close>
  \<^item> Refinement of every handler to an abstract trace: \<open>Reconcile_refines_trace\<close>,
    \<open>Reconcile_bundle_refines_trace\<close> and \<open>main_refines_trace\<close> hold for any client at all and say
    which writes can follow which answers, and with which return value.
  \<^item> Outcome against a server that keeps its contract: \<open>Reconcile_converges\<close> (a well-posed
    TailoredProfile is finished after three reconciliations, and then nothing is written),
    \<open>Reconcile_decides\<close> (what one reconciliation does for any request whatsoever, as a function
    \<open>decide\<close> of the cluster; with \<open>rejected_again\<close>: a rejection stands until the spec or what it
    refers to changes), \<open>every_request_settles\<close> (any request comes to a verdict within four
    reconciliations and keeps it), \<open>Reconcile_bundle_outcome\<close>, \<open>existing_output_is_final\<close>,
    \<open>policy_status_reference\<close>, \<open>parser_outcome\<close>, \<open>parser_run_idempotent\<close>.
  \<^item> Termination of the event loops of both controllers, on all their objects, in every
    interleaving, also against a server that refuses calls for a while: \<open>operator_settles\<close>.
    For any reconcilers at all: \<open>loop_queue_invariant\<close> and \<open>no_request_lost\<close>.
  \<^item> End to end: \<open>content_to_tailoring\<close>, from a new bundle to the text of the document in the
    ConfigMap.
  \<^item> The tailoring document: its text is well nested whatever the user wrote
    (\<open>tailoring_no_injection\<close>), a reader of the text finds the selections and values that went
    into it (\<open>tailoring_roundtrip\<close>), its selections and values are those asked for
    (\<open>getSelections_spec\<close>), its benchmark is the content file (\<open>tailoring_href\<close>), names are
    usable as object names (\<open>derived_names_dns\<close>).
  \<^item> The parser: fixes, values and references of an element
    (\<open>fixes_first_per_platform\<close>, \<open>parseVarValues_spec\<close>, \<open>rule_annotations\<close>, \<open>nist_matches\<close>,
    \<open>appendKeyWithSep_refines\<close>), the tree of a document, for any bytes at all
    (\<open>Parse_document\<close>) and against its own print (\<open>print_parse_roundtrip\<close>), the text of an
    element (\<open>inner_xml_roundtrip\<close>) and what is left of it, on the way from the content file to an
    object, when it has markup inside (\<open>description_from_source\<close>), that everything it creates belongs to its bundle
    (\<open>stream_objects_owned\<close>), and which of several elements with one name it keeps,
    whatever the cluster held before (\<open>first_of_a_name_is_kept\<close>).
  \<^item> The operator: \<open>created_objects_wake_owner\<close>, \<open>manager_setup_order\<close>, and as lemmas
    \<open>operator_scheme_kinds\<close> and \<open>watched_namespaces\<close>.
  \<^item> Copies: \<open>DeepCopyObject_independent\<close> (a copy is equal, fresh, and shares nothing) and
    \<open>status_copy_exact\<close> (updating a copy through its pointer is the record update of the model).
  \<^item> Between the parts (this theory): the Pod configures the parser for its bundle, the parser
    reads the file the tailoring documents name, the controller finds the bundle of every parsed
    profile, a parsed profile lists the names of parsed rules, and after a run of the parser the
    selections of a tailoring refer to the rules of its data stream
    (\<open>tailoring_selects_stream_rules\<close>), except where another rule had the name before: the code
    does not check which bundle a selected rule belongs to.

  \<^bold>\<open>What is assumed of the server.\<close> A server that keeps its contract has no other writers, answers
  a read with what it holds, gives a new object a UID, and admits certain objects, a predicate
  \<open>admits\<close>. No theorem assumes that it admits everything: each needs the objects that its own run
  creates to be admitted, namely those of the data stream (\<open>run_admitted\<close>), the ConfigMaps of the
  requests and the Pods of the bundles (\<open>operator_admits\<close>), or the output of one request
  (\<open>own_output\<close>). What happens when an object is refused is part of the trace theorems, which
  hold for any answers.

  \<^bold>\<open>Bounds.\<close> The recursions are structural, or on the length of the
  text left (\<open>search\<close>, the loops of the scanner), in the decoder also on the end it still owes
  for an empty-element tag (\<open>work_left\<close>). Only the copy of a JSON value has fuel, for it follows
  references: one more than the number of cells in use, which every value without a cycle can be
  copied with (\<open>json_depth_cells\<close>). Three reconciliations are enough in
  \<open>Reconcile_converges\<close> because there are three things to do, each in a call of its own: fill
  in the output type, take the profile as owner, write the output; \<open>every_request_settles\<close> has a
  fourth for the call that confirms the verdict. In an event loop
  every event costs at most three steps, its delivery and a reconciliation with its result: the
  first event and the four writes of a TailoredProfile make fifteen, the first event and the two
  writes of a new bundle nine, the event of a bundle that needs nothing three. A reconciliation
  that was refused a call costs six: it comes back, and may have written once before.

  \<^bold>\<open>Parameters.\<close> The client and its server, the file system (opening a file gives its bytes and the
  error that ends them), the YAML decoder of fixes, the conversion of a ConfigMap to unstructured JSON, the
  REST mapper, the manager, the libraries the main program of the operator calls, the cluster
  configuration and the flags of other packages are arguments of the definitions that use them.
  Laws about them are hypotheses of the theorems, met by the witnesses with concrete functions.

  \<^bold>\<open>Not modelled.\<close> The log and the version written to it, and the flags of the logging library and of
  the one that configures the client, which are parameters. The caches of the client: a read answers with
  what the server holds. Locks, metrics and shutdown of the work queue, and how long a delay takes.
  The mutators and the pretty printer of \<open>xmldom\<close>, which the program does not call. Fields of the
  metadata that the program neither reads nor writes. The loops of the operator are shown to come to rest with well-posed requests, whose
  output is a ConfigMap; any other request is the subject of \<open>Reconcile_decides\<close> and
  \<open>every_request_settles\<close>, one reconciliation after the other. The parser
  process runs between two runs of the operator, not interleaved with them. Manifests, image build
  files and the version and tools packages hold no logic.
\<close>

section \<open>One path for the content\<close>

text \<open>
  The parser Pod of a bundle reads exactly the file that the tailoring documents of the
  bundle name as their benchmark: it is the argument after the path flag, and cleaning the
  path before opening it changes nothing.
\<close>

lemma content_path_agrees:
  "map co_Args (ps_Containers (pod_Spec (newPodForBundle env pb))) =
     [[''--profile-bundle-name'', om_Name (pb_Meta pb),
       ''--profile-bundle-namespace'', om_Namespace (pb_Meta pb), ''--ds-path'', benchmark_href pb]]
   \<and> readContent pcfg (benchmark_href pb) = pc_Open pcfg (be_Href (te_Benchmark
       (tailoring_of env' tp p pb selections variables)))"
  by (simp add: newPodForBundle_def benchmark_href_def [symmetric] readContent_def
      Clean_benchmark_href tailoring_of_def)

text \<open>
  C40: the process of the parser container in the Pod of a bundle gets past its command line and
  is configured for that bundle: it looks the bundle up under its own key, with the types it has
  to write registered, and reads the file the tailoring documents name.
\<close>

theorem pod_configures_parser:
  assumes "co \<in> set (ps_Containers (pod_Spec (newPodForBundle env pb)))" and "pp_Args proc = co_Args co"
    and "om_Name (pb_Meta pb) \<noteq> []" and "om_Namespace (pb_Meta pb) \<noteq> []"
    and "pp_GetConfig proc = Inr cfg" and "pp_NewClient proc cfg getK8sScheme = Inr client"
  shows "\<exists>pcfg. newParserConfig proc = Inr pcfg \<and> main proc = run_parser pcfg \<and> parser_of pb pcfg
    \<and> pc_DataStreamPath pcfg = benchmark_href pb \<and> pc_Client pcfg = client"
proof -
  from container_config [OF assms(1-4)] assms(5,6) have "\<exists>pcfg. newParserConfig proc = Inr pcfg
      \<and> parser_of pb pcfg \<and> pc_DataStreamPath pcfg = benchmark_href pb \<and> pc_Client pcfg = client"
    by (simp add: getK8sClient_def parser_of_def)
  then show ?thesis by (auto simp: main_def)
qed

theorem pod_configures_parser_witness:
  "\<exists>pcfg. newParserConfig ex_process = Inr pcfg \<and> parser_of ex_bundle pcfg \<and> pc_Client pcfg = mem_client"
  using pod_configures_parser [of "hd (ps_Containers (pod_Spec (newPodForBundle ex_env ex_bundle)))"
      ex_env ex_bundle ex_process "[]" mem_client]
  by (auto simp: ex_process_def newPodForBundle_def ex_bundle_def ex_meta_def zero_meta_def)

section \<open>From the parser to the TailoredProfile controller\<close>

text \<open>
  C22: the TailoredProfile controller finds the bundle of every profile the parser creates:
  the created object carries a reference that the controller recognises, and the name in it,
  in the namespace of the profile, is the key of the bundle.
\<close>

theorem parsed_profile_finds_bundle:
  assumes "parser_of pb pcfg" and "p \<in> set (stream_profiles pcfg root)"
  shows "\<exists>q ref. profile_object pcfg pb p = Some (ProfileObj q)
    \<and> getProfileBundleReferenceFromProfile q = Inr ref
    \<and> nsn (om_Namespace (pr_Meta q)) (or_Name ref) = key_of (pb_Meta pb)"
proof -
  from profile_object_owned [OF assms] obtain m where
    m: "profile_object pcfg pb p = Some (ProfileObj (p\<lparr>pr_Meta := m\<rparr>))"
      "belongs_to pb (GetProfileNameFromID (pc_env pcfg) (pr_ID p)) m" by blast
  then show ?thesis
    by (auto simp: getProfileBundleReferenceFromProfile_def belongs_to_def gv_String_scheme key_of_def)
qed

theorem parsed_profile_finds_bundle_witness:
  "\<exists>p q ref. profile_object ex_pcfg ex_bundle p = Some (ProfileObj q)
     \<and> getProfileBundleReferenceFromProfile q = Inr ref \<and> or_Name ref = ''rhcos''"
proof -
  from ex_profile_parsed obtain p where "p \<in> set (stream_profiles ex_pcfg ex_root)"
    by (auto simp: stream_profiles_def ex_queries)
  from parsed_profile_finds_bundle [OF ex_parser_of this] obtain q ref where
    "profile_object ex_pcfg ex_bundle p = Some (ProfileObj q)"
    "getProfileBundleReferenceFromProfile q = Inr ref"
    "nsn (om_Namespace (pr_Meta q)) (or_Name ref) = key_of (pb_Meta ex_bundle)" by blast
  then show ?thesis by (auto simp: key_of_def ex_bundle_def ex_meta_def zero_meta_def)
qed

lemma selected_rules_eq:
  "selected_rules env nm nodes = map (\<lambda>n. nm @ ''-'' @ GetRuleNameFromID env (GetAttributeValue n ''idref''))
     (filter (\<lambda>n. GetAttributeValue n ''idref'' \<noteq> [] \<and> GetAttributeValue n ''selected'' = ''true'') nodes)"
  by (induction nodes) (simp_all add: Let_def NewProfileRule_def getPrefixedName_def)

text \<open>
  C23: the rule names a parsed profile lists are, in order, the names of the objects that the
  rules it selects in the data stream become, so that a listed rule is found under its name.
\<close>

theorem profile_rules_are_object_names:
  assumes "parser_of pb pcfg" and "parse_profile (pc_env pcfg) (pc_ProfileBundleKey pcfg) n = Emit p"
  shows "pr_Rules p = map (rule_object_name pcfg pb)
      (filter (\<lambda>i. i \<noteq> []) (map (\<lambda>m. GetAttributeValue m ''idref'')
        (filter (\<lambda>m. GetAttributeValue m ''selected'' = ''true'') (FindByName n ''select''))))
    \<and> (\<forall>r \<in> set (stream_rules pcfg root). \<exists>q. rule_object pcfg pb r = Some (RuleObj q)
         \<and> om_Name (ru_Meta q) = rule_object_name pcfg pb (ru_ID r) \<and> ru_ID q = ru_ID r)"
proof
  have key: "nn_Name (pc_ProfileBundleKey pcfg) = om_Name (pb_Meta pb)"
    using assms(1) by (simp add: parser_of_def)
  have "pr_Rules p = selected_rules (pc_env pcfg) (om_Name (pb_Meta pb)) (FindByName n ''select'')"
    using assms(2) by (auto simp: parse_profile_def Let_def key split: if_splits option.splits)
  then show "pr_Rules p = map (rule_object_name pcfg pb)
      (filter (\<lambda>i. i \<noteq> []) (map (\<lambda>m. GetAttributeValue m ''idref'')
        (filter (\<lambda>m. GetAttributeValue m ''selected'' = ''true'') (FindByName n ''select''))))"
    by (simp add: selected_rules_eq filter_map comp_def conj_commute rule_object_name_def)
  show "\<forall>r \<in> set (stream_rules pcfg root). \<exists>q. rule_object pcfg pb r = Some (RuleObj q)
      \<and> om_Name (ru_Meta q) = rule_object_name pcfg pb (ru_ID r) \<and> ru_ID q = ru_ID r"
    using rule_object_owned [OF assms(1)] by (fastforce simp: belongs_to_def rule_object_name_def)
qed

theorem profile_rules_are_object_names_witness:
  "\<exists>p. parse_profile (pc_env ex_pcfg) (pc_ProfileBundleKey ex_pcfg) ex_profile_node = Emit p
     \<and> pr_Rules p = [''rhcos-no-root'']"
proof -
  from ex_profile_parsed obtain p where
    p: "parse_profile (pc_env ex_pcfg) (pc_ProfileBundleKey ex_pcfg) ex_profile_node = Emit p" ..
  have sel: "map (rule_object_name ex_pcfg ex_bundle)
      (filter (\<lambda>i. i \<noteq> []) (map (\<lambda>m. GetAttributeValue m ''idref'')
        (filter (\<lambda>m. GetAttributeValue m ''selected'' = ''true'') (FindByName ex_profile_node ''select''))))
    = [rule_object_name ex_pcfg ex_bundle ex_rule_id]"
    by (simp add: ex_profile_node_def GetAttributeValue_def GetAttribute_def ex_rule_id_def)
  have "GetRuleNameFromID ex_env ex_rule_id = ''no-root''" by code_simp
  then have "rule_object_name ex_pcfg ex_bundle ex_rule_id = ''rhcos-no-root''"
    by (simp add: rule_object_name_def ex_pcfg_def ex_bundle_def ex_meta_def)
  with p sel profile_rules_are_object_names [OF ex_parser_of p, of ex_root] show ?thesis by simp
qed

text \<open>
  The rule that a selected name stands for after a run of the parser: the one that was stored
  under the name before the run, and otherwise the first rule of the data stream with that name.
\<close>

definition selection_means ::
  "'w parser_config \<Rightarrow> profile_bundle \<Rightarrow> node \<Rightarrow> rule option \<Rightarrow> nsname \<Rightarrow> string \<Rightarrow> bool" where
  "selection_means pcfg pb root before k ident \<longleftrightarrow>
     (case before of
        Some q \<Rightarrow> ident = ru_ID q
      | None \<Rightarrow>
          (\<exists>x. first_named pb (rule_object_name pcfg pb \<circ> ru_ID) (stream_rules pcfg root) k = Some x
             \<and> ident = ru_ID x \<and> k = nsn (om_Namespace (pb_Meta pb)) (rule_object_name pcfg pb ident)
             \<and> (\<exists>n \<in> set (Query root ''Rule''). GetAttributeValue n ''id'' = ident)))"

lemma stored_rule_means:
  assumes "parser_of pb pcfg" and "stream_error pcfg root = None"
    and "populated c (run_objects pcfg pb root) d" and "k_Rules d k = Some q"
  shows "selection_means pcfg pb root (k_Rules c k) k (ru_ID q)"
proof (cases "k_Rules c k")
  case None
  let ?P = "map (the \<circ> profile_object pcfg pb) (stream_profiles pcfg root)"
  let ?V = "map (the \<circ> variable_object pcfg pb) (stream_variables pcfg root)"
  note run = assms(3) [unfolded complete_run [OF assms(2)]]
  have "entry_after (\<lambda>m r. r\<lparr>ru_Meta := m\<rparr>) (k_Rules c k)
      (first_named pb (rule_object_name pcfg pb \<circ> ru_ID) (stream_rules pcfg root) k) (k_Rules d k)"
    by (rule rule_table.made_after [where xs = ?P and ys = ?V])
      (use run run_makes [OF assms(1), where root = root] in \<open>fastforce simp: made_from_def\<close>)+
  then obtain x m where x: "first_named pb (rule_object_name pcfg pb \<circ> ru_ID) (stream_rules pcfg root) k = Some x"
    "q = x\<lparr>ru_Meta := m\<rparr>" by (auto simp: entry_after_def None assms(4) option_rel_Some1)
  then have "x \<in> set (stream_rules pcfg root)"
    and k: "k = nsn (om_Namespace (pb_Meta pb)) (rule_object_name pcfg pb (ru_ID x))"
    by (auto simp: first_named_def dest!: find_Some_mem)
  from rules.emitted_meta(5) [OF this(1) [unfolded stream_rules_def]] x show ?thesis
    unfolding selection_means_def None option.case by (intro exI [of _ x]) (simp add: k)
next
  case (Some q')
  from rule_table.keeps [OF assms(3) this] assms(4) Some show ?thesis by (simp add: selection_means_def)
qed

text \<open>
  C9: from the data stream to the selections of a tailoring. After a complete run of the parser
  on any cluster, with a server that keeps its contract and admits the objects of the run, let
  the rules of a TailoredProfile be collected: then the selections are built without a
  panic, one for each selected name in order, and each refers, by the identifier it has in the
  data stream, to the first rule of the stream with that name; only where a rule was stored under
  the name before the run does the selection refer to that one. Nothing is assumed about which
  bundle the selected rules belong to, for the code does not check it.
\<close>

theorem tailoring_selects_stream_rules:
  assumes "api_server (pc_Client pcfg) view admits" and "run_admitted pcfg pb admits"
    and "parser_of pb pcfg" and "k_ProfileBundles (view (w_cluster s)) (key_of (pb_Meta pb)) = Some pb"
    and "stream_root pcfg = Inr (Some root)" and "stream_error pcfg root = None"
    and "run_state (run_parser pcfg) s = (out, s1)"
    and "api_server (rtp_client r) view admits'" and "k_Rules (view (w_cluster s2)) = k_Rules (view (w_cluster s1))"
    and "run_state (getRulesFromSelections r tp) s2 = (Inr rules, s3)"
  shows "\<exists>sels. getSelections tp rules = Inr sels
    \<and> list_all2 (\<lambda>n e. selection_means pcfg pb root (k_Rules (view (w_cluster s)) (nsn (tp_ns tp) n))
         (nsn (tp_ns tp) n) (se_IDRef e)) (selected_names tp) sels"
proof -
  from run_parser_result [OF assms(1-4,7)] assms(5) obtain d where
    d: "populated (view (w_cluster s)) (run_objects pcfg pb root) d" "k_Rules (view (w_cluster s1)) = k_Rules d"
    by (auto simp: parser_result_def set_pb_def)
  from getRules_outcome [OF assms(8) refl refl, of tp s2] assms(10)
  have found: "selections_found (view (w_cluster s2)) (tp_ns tp) (selected_names tp)"
    and rules: "rules = expected_rules (view (w_cluster s2)) tp"
    by (auto simp: tp_ns_def split: if_splits)
  have here: "\<exists>q. rules n = Some q \<and> selection_means pcfg pb root (k_Rules (view (w_cluster s)) (nsn (tp_ns tp) n))
      (nsn (tp_ns tp) n) (ru_ID q)" if "n \<in> set (selected_names tp)" for n
    using found that stored_rule_means [OF assms(3,6) d(1), of "nsn (tp_ns tp) n"]
    by (auto simp: rules expected_rules_def selections_found_def list_all_iff assms(9) d(2))
  then have "set (selected_names tp) \<subseteq> dom rules" by blast
  with here show ?thesis
    by (fastforce simp: getSelections_eq selected_names_def select_of_def list_all2_append list_all2_map1
        list_all2_map2 intro!: list.rel_refl_strong)
qed

theorem tailoring_selects_stream_rules_witness:
  "\<exists>s1 s3 rules e. run_state (run_parser ex_pcfg) ex_stream_world = (Exit 0, s1)
     \<and> run_state (getRulesFromSelections ex_reconciler ex_request) s1 = (Inr rules, s3)
     \<and> getSelections ex_request rules = Inr [e] \<and> se_IDRef e = ex_rule_id"
proof -
  let ?s = ex_stream_world
  obtain out s1 where run: "run_state (run_parser ex_pcfg) ?s = (out, s1)" by fastforce
  from run_parser_result [OF ex_server run_admitted_True ex_parser_of ex_stream_bundle run] obtain d where
    d: "out = Exit 0" "populated (ms_cluster (w_cluster ?s)) (run_objects ex_pcfg ex_bundle ex_root) d"
      "k_Rules (ms_cluster (w_cluster s1)) = k_Rules d"
    by (auto simp: parser_result_def ex_stream_root set_pb_def)
  obtain x where x: "stream_rules ex_pcfg ex_root = [x]" "ru_ID x = ex_rule_id" using ex_rule_parsed by blast
  have name: "rule_object_name ex_pcfg ex_bundle ex_rule_id = ''rhcos-no-root''"
    by (simp add: rule_object_name_def ex_pcfg_def ex_bundle_def ex_meta_def zero_meta_def ex_names)
  have ns: "om_Namespace (pb_Meta ex_bundle) = ''ns''" by (simp add: ex_bundle_def ex_meta_def zero_meta_def)
  have selected: "selected_names ex_request = [''rhcos-no-root'']" "tp_ns ex_request = ''ns''"
    by (simp_all add: selected_names_def ex_request_def tp_ns_def ex_meta_def zero_meta_def)
  have server: "api_server (rtp_client ex_reconciler) ms_cluster (\<lambda>_. True)"
    using mem.api_server_axioms by (simp add: ex_reconciler_def mem_reconciler_def)
  have "selections_found (ms_cluster (w_cluster s1)) (tp_ns ex_request) (selected_names ex_request)"
    using run_has_rule [OF ex_parser_of d(2) ex_stream_complete, of x]
    by (simp add: selections_found_def selected d(3) x name ns)
  with getRules_outcome [OF server refl refl, of ex_request s1] obtain rules s3 where
    rules: "run_state (getRulesFromSelections ex_reconciler ex_request) s1 = (Inr rules, s3)"
    by (metis prod.collapse tp_ns_def)
  from tailoring_selects_stream_rules [OF ex_server run_admitted_True ex_parser_of ex_stream_bundle ex_stream_root
      ex_stream_complete run server refl rules]
  obtain e where "getSelections ex_request rules = Inr [e]"
    "selection_means ex_pcfg ex_bundle ex_root (k_Rules (ms_cluster (w_cluster ?s)) (nsn ''ns'' ''rhcos-no-root''))
      (nsn ''ns'' ''rhcos-no-root'') (se_IDRef e)"
    by (auto simp: selected list_all2_Cons1)
  then show ?thesis
    using run d(1) rules
    by (auto simp: selection_means_def ex_stream_world_def first_named_def x ns name split: if_splits)
qed

end
